theory Spec2Isabelle
  imports Complex_Main
begin

section \<open>Python floats\<close>

text \<open>
  The application computes with Python and numpy floats. A finite float is modelled by the
  real number it denotes (the sign of zero is not modelled); the two infinities and NaN
  are separate values, because the code tests for them (\<^verbatim>\<open>pd.isna\<close>,
  \<^verbatim>\<open>np.isfinite\<close>, \<^verbatim>\<open>dropna\<close>) and because numpy division produces them
  instead of raising. The operations of this section are exact; they are what the distance
  functions are written with. The arithmetic on the price columns is rounded to double
  precision, see the operations \<open>np_add\<close>, \<open>np_mul\<close>, \<open>np_div\<close> below.
\<close>

datatype pyfloat = Fin real | PInf | NInf | NaN

datatype error = ValueError | KeyError

fun isfinite :: "pyfloat \<Rightarrow> bool" where
  "isfinite (Fin x) = True"
| "isfinite _ = False"

fun isna :: "pyfloat \<Rightarrow> bool" where
  "isna NaN = True"
| "isna _ = False"

text \<open>Truth value of a float in a condition: zero is false, everything else (NaN too) is true.\<close>

fun truthy :: "pyfloat \<Rightarrow> bool" where
  "truthy (Fin x) = (x \<noteq> 0)"
| "truthy _ = True"

fun py_neg :: "pyfloat \<Rightarrow> pyfloat" where
  "py_neg (Fin x) = Fin (- x)"
| "py_neg PInf = NInf"
| "py_neg NInf = PInf"
| "py_neg NaN = NaN"

fun py_add :: "pyfloat \<Rightarrow> pyfloat \<Rightarrow> pyfloat" where
  "py_add (Fin a) (Fin b) = Fin (a + b)"
| "py_add NaN _ = NaN"
| "py_add _ NaN = NaN"
| "py_add PInf NInf = NaN"
| "py_add NInf PInf = NaN"
| "py_add PInf _ = PInf"
| "py_add _ PInf = PInf"
| "py_add NInf _ = NInf"
| "py_add _ NInf = NInf"

definition py_sub :: "pyfloat \<Rightarrow> pyfloat \<Rightarrow> pyfloat" where
  "py_sub a b = py_add a (py_neg b)"

fun py_mul :: "pyfloat \<Rightarrow> pyfloat \<Rightarrow> pyfloat" where
  "py_mul (Fin a) (Fin b) = Fin (a * b)"
| "py_mul NaN _ = NaN"
| "py_mul _ NaN = NaN"
| "py_mul PInf (Fin b) = (if 0 < b then PInf else if b < 0 then NInf else NaN)"
| "py_mul NInf (Fin b) = (if 0 < b then NInf else if b < 0 then PInf else NaN)"
| "py_mul (Fin a) PInf = (if 0 < a then PInf else if a < 0 then NInf else NaN)"
| "py_mul (Fin a) NInf = (if 0 < a then NInf else if a < 0 then PInf else NaN)"
| "py_mul PInf PInf = PInf"
| "py_mul NInf NInf = PInf"
| "py_mul PInf NInf = NInf"
| "py_mul NInf PInf = NInf"

text \<open>
  Division with numpy's semantics (no exception): a finite value divided by zero is an
  infinity of its sign, zero by zero is NaN. Where the source divides two plain Python
  floats the divisor is a non-zero literal, so \<^verbatim>\<open>ZeroDivisionError\<close> has no branch here.
\<close>

fun py_div :: "pyfloat \<Rightarrow> pyfloat \<Rightarrow> pyfloat" where
  "py_div (Fin a) (Fin b) =
     (if b = 0 then (if 0 < a then PInf else if a < 0 then NInf else NaN) else Fin (a / b))"
| "py_div NaN _ = NaN"
| "py_div _ NaN = NaN"
| "py_div (Fin a) _ = Fin 0"
| "py_div PInf (Fin b) = (if 0 \<le> b then PInf else NInf)"
| "py_div NInf (Fin b) = (if 0 \<le> b then NInf else PInf)"
| "py_div _ _ = NaN"

text \<open>Comparisons: any comparison with NaN is false.\<close>

fun py_le :: "pyfloat \<Rightarrow> pyfloat \<Rightarrow> bool" where
  "py_le NaN _ = False"
| "py_le _ NaN = False"
| "py_le (Fin a) (Fin b) = (a \<le> b)"
| "py_le NInf _ = True"
| "py_le _ PInf = True"
| "py_le _ _ = False"

fun py_lt :: "pyfloat \<Rightarrow> pyfloat \<Rightarrow> bool" where
  "py_lt NaN _ = False"
| "py_lt _ NaN = False"
| "py_lt (Fin a) (Fin b) = (a < b)"
| "py_lt PInf _ = False"
| "py_lt _ NInf = False"
| "py_lt _ _ = True"

subsection \<open>The \<^verbatim>\<open>math\<close> module\<close>

text \<open>
  \<^verbatim>\<open>math.sin\<close> and \<^verbatim>\<open>math.cos\<close> raise \<^verbatim>\<open>ValueError\<close> on an infinity,
  \<^verbatim>\<open>math.sqrt\<close> on a negative argument, \<^verbatim>\<open>math.asin\<close> outside \<open>[-1, 1]\<close>;
  all of them pass NaN through.
\<close>

definition radians :: "pyfloat \<Rightarrow> pyfloat" where
  "radians x = py_mul x (Fin (pi / 180))"

fun math_sin :: "pyfloat \<Rightarrow> error + pyfloat" where
  "math_sin (Fin x) = Inr (Fin (sin x))"
| "math_sin NaN = Inr NaN"
| "math_sin _ = Inl ValueError"

fun math_cos :: "pyfloat \<Rightarrow> error + pyfloat" where
  "math_cos (Fin x) = Inr (Fin (cos x))"
| "math_cos NaN = Inr NaN"
| "math_cos _ = Inl ValueError"

fun math_sqrt :: "pyfloat \<Rightarrow> error + pyfloat" where
  "math_sqrt (Fin x) = (if x < 0 then Inl ValueError else Inr (Fin (sqrt x)))"
| "math_sqrt NaN = Inr NaN"
| "math_sqrt PInf = Inr PInf"
| "math_sqrt NInf = Inl ValueError"

fun math_asin :: "pyfloat \<Rightarrow> error + pyfloat" where
  "math_asin (Fin x) = (if x < - 1 \<or> 1 < x then Inl ValueError else Inr (Fin (arcsin x)))"
| "math_asin NaN = Inr NaN"
| "math_asin _ = Inl ValueError"

definition pow2 :: "pyfloat \<Rightarrow> pyfloat" where
  "pow2 x = py_mul x x"

text \<open>Sequencing of calls that may raise: the first exception ends the computation.\<close>

fun and_then :: "error + 'a \<Rightarrow> ('a \<Rightarrow> error + 'b) \<Rightarrow> error + 'b" where
  "and_then (Inl e) f = Inl e"
| "and_then (Inr x) f = f x"

section \<open>Haversine distance\<close>

text \<open>
  \<^verbatim>\<open>haversine\<close> of \<^verbatim>\<open>src/local_analysis.py\<close>: the four angles are converted to
  radians, then \<open>a = sin(dlat/2)**2 + cos(lat1) * cos(lat2) * sin(dlon/2)**2\<close>,
  \<open>c = 2 * asin(sqrt(a))\<close>, and the result is \<open>6371 * c\<close>.
\<close>

definition haversine :: "pyfloat \<Rightarrow> pyfloat \<Rightarrow> pyfloat \<Rightarrow> pyfloat \<Rightarrow> error + pyfloat" where
  "haversine lat1 lon1 lat2 lon2 =
     (let lon1r = radians lon1; lat1r = radians lat1;
          lon2r = radians lon2; lat2r = radians lat2;
          dlon = py_sub lon2r lon1r;
          dlat = py_sub lat2r lat1r
      in and_then (math_sin (py_div dlat (Fin 2))) (\<lambda>s1.
         and_then (math_cos lat1r) (\<lambda>c1.
         and_then (math_cos lat2r) (\<lambda>c2.
         and_then (math_sin (py_div dlon (Fin 2))) (\<lambda>s2.
         let a = py_add (pow2 s1) (py_mul (py_mul c1 c2) (pow2 s2))
         in and_then (math_sqrt a) (\<lambda>r.
            and_then (math_asin r) (\<lambda>t.
            Inr (py_mul (Fin 6371) (py_mul (Fin 2) t)))))))))"

text \<open>
  \<^verbatim>\<open>haversine_km\<close> of \<^verbatim>\<open>app/streamlit_app.py\<close>: an argument may be \<^verbatim>\<open>None\<close>;
  if any of the four is \<^verbatim>\<open>None\<close> or NaN the function returns NaN before any
  arithmetic, otherwise it computes the same formula.
\<close>

fun missing :: "pyfloat option \<Rightarrow> bool" where
  "missing None = True"
| "missing (Some x) = isna x"

definition haversine_km ::
  "pyfloat option \<Rightarrow> pyfloat option \<Rightarrow> pyfloat option \<Rightarrow> pyfloat option \<Rightarrow> error + pyfloat" where
  "haversine_km lat1 lon1 lat2 lon2 =
     (if missing lat1 \<or> missing lon1 \<or> missing lat2 \<or> missing lon2 then Inr NaN
      else case (lat1, lon1, lat2, lon2) of
             (Some a, Some b, Some c, Some d) \<Rightarrow> haversine a b c d
           | _ \<Rightarrow> Inr NaN)"

text \<open>
  The quantity \<open>a\<close> of the formula on angles already in radians, and the conversion of a
  finite angle; both are used to state what \<open>haversine\<close> returns on finite arguments.
\<close>

definition hav_a :: "real \<Rightarrow> real \<Rightarrow> real \<Rightarrow> real \<Rightarrow> real" where
  "hav_a lat1 lon1 lat2 lon2 =
     (sin ((lat2 - lat1) / 2))\<^sup>2 + cos lat1 * cos lat2 * (sin ((lon2 - lon1) / 2))\<^sup>2"

definition rad :: "real \<Rightarrow> real" where
  "rad x = x * (pi / 180)"

section \<open>Double precision\<close>

text \<open>
  A double has 53 significant bits and a binary exponent from -1022 to 1023. The result of
  an arithmetic operation is the exact result rounded to the nearest double, ties to the
  even significand; a result that rounds to \<open>2^1024\<close> or beyond is an infinity. \<open>rne\<close>
  rounds a real to the nearest integer, ties to even; \<open>binade\<close> is the exponent of the
  binade a real lies in, not below that of the subnormal numbers; \<open>ulp\<close> is the distance
  of neighbouring doubles there.
\<close>

definition rne :: "real \<Rightarrow> int" where
  "rne x =
     (let f = \<lfloor>x\<rfloor>; r = x - of_int f
      in if r < 1 / 2 then f else if 1 / 2 < r then f + 1 else if even f then f else f + 1)"

definition binade :: "real \<Rightarrow> int" where
  "binade x = max \<lfloor>log 2 \<bar>x\<bar>\<rfloor> (- 1022)"

definition ulp :: "real \<Rightarrow> real" where
  "ulp x = 2 powi (binade x - 52)"

definition nearest :: "real \<Rightarrow> real" where
  "nearest x = of_int (rne (\<bar>x\<bar> / ulp x)) * ulp x"

definition round_double :: "real \<Rightarrow> pyfloat" where
  "round_double x =
     (if x = 0 then Fin 0
      else if 2 powi 1024 \<le> nearest x then (if 0 < x then PInf else NInf)
      else Fin (if 0 < x then nearest x else - nearest x))"

definition is_double :: "real \<Rightarrow> bool" where
  "is_double x = (round_double x = Fin x)"

fun rnd :: "pyfloat \<Rightarrow> pyfloat" where
  "rnd (Fin x) = round_double x"
| "rnd v = v"

definition np_add :: "pyfloat \<Rightarrow> pyfloat \<Rightarrow> pyfloat" where
  "np_add a b = rnd (py_add a b)"

definition np_mul :: "pyfloat \<Rightarrow> pyfloat \<Rightarrow> pyfloat" where
  "np_mul a b = rnd (py_mul a b)"

definition np_div :: "pyfloat \<Rightarrow> pyfloat \<Rightarrow> pyfloat" where
  "np_div a b = rnd (py_div a b)"

text \<open>The literal \<^verbatim>\<open>1e-9\<close> of the source is the double nearest to \<open>10^-9\<close>.\<close>

definition eps9 :: real where
  "eps9 = 4835703278458517 * 2 powi (- 82)"

section \<open>Geocode cache\<close>

text \<open>
  The persisted cache is the CSV file \<^verbatim>\<open>geocode_cache.csv\<close>. Its state is what
  \<^verbatim>\<open>_read_geocode_cache_df\<close> can meet: the file does not exist, \<^verbatim>\<open>pd.read_csv\<close>
  raises on it, it parses to a frame that has no column \<open>address\<close>, or it parses to a
  table with the columns \<open>address, lat, lon\<close>. A row of the table is the text of its
  address field and its two coordinate cells; a coordinate cell is \<open>None\<close> where
  \<^verbatim>\<open>float(cell)\<close> raises.

  Reading: \<^verbatim>\<open>read_csv\<close> with \<^verbatim>\<open>dtype={"address": str}\<close> keeps the default
  missing-value markers of pandas, so an address field whose text is one of them is read
  as missing (\<open>None\<close>), as is the empty field.

  Writing: \<^verbatim>\<open>to_csv\<close> writes a missing address as the empty field and a number as its
  decimal text; \<open>csv_float\<close> gives, for each coordinate column, the number that this
  text is read back as (the conversion depends on how pandas types the column). The flag
  \<open>writable\<close> says whether \<^verbatim>\<open>to_csv\<close> completes; when it raises, the exception is
  logged and the file is left as it was.
\<close>

datatype coordinate = Lat | Lon

type_synonym cache_row = "string option \<times> pyfloat option \<times> pyfloat option"

datatype cache_file =
    Missing
  | Unreadable
  | NoAddressColumn
  | Table "(string \<times> pyfloat option \<times> pyfloat option) list"

record disk =
  cache :: cache_file
  writable :: bool
  csv_float :: "coordinate \<Rightarrow> pyfloat \<Rightarrow> pyfloat"

definition na_values :: "string list" where
  "na_values =
     [[], ''#N/A'', ''#N/A N/A'', ''#NA'', ''-1.#IND'', ''-1.#QNAN'', ''-NaN'', ''-nan'',
      ''1.#IND'', ''1.#QNAN'', ''<NA>'', ''N/A'', ''NA'', ''NULL'', ''NaN'', ''None'', ''n/a'',
      ''nan'', ''null'']"

definition read_address :: "string \<Rightarrow> string option" where
  "read_address field = (if field \<in> set na_values then None else Some field)"

definition write_address :: "string option \<Rightarrow> string" where
  "write_address a = (case a of None \<Rightarrow> [] | Some s \<Rightarrow> s)"

text \<open>
  What \<^verbatim>\<open>_read_geocode_cache_df\<close> returns: a frame without the column \<open>address\<close>, or
  the rows of a frame that has it (none when the file is missing or unreadable).
\<close>

datatype cache_frame = WithoutAddress | Frame "cache_row list"

definition read_geocode_cache_df :: "disk \<Rightarrow> cache_frame" where
  "read_geocode_cache_df d =
     (case cache d of
        Table file_rows \<Rightarrow> Frame (map (\<lambda>(field, lat, lon). (read_address field, lat, lon)) file_rows)
      | NoAddressColumn \<Rightarrow> WithoutAddress
      | Unreadable \<Rightarrow> Frame []
      | Missing \<Rightarrow> Frame [])"

definition to_csv :: "disk \<Rightarrow> cache_row list \<Rightarrow> cache_file" where
  "to_csv d updated =
     Table (map (\<lambda>(a, lat, lon).
                   (write_address a, map_option (csv_float d Lat) lat, map_option (csv_float d Lon) lon))
                updated)"

text \<open>The selection \<^verbatim>\<open>cache_df[cache_df["address"] == address]\<close>.\<close>

definition matching :: "string \<Rightarrow> cache_row list \<Rightarrow> cache_row list" where
  "matching address cache_df = filter (\<lambda>r. fst r = Some address) cache_df"

text \<open>
  \<^verbatim>\<open>_append_geocode_cache_df\<close>. On a frame without the column \<open>address\<close> the
  selection raises \<^verbatim>\<open>KeyError\<close>, which the function logs and swallows: nothing is
  written.
\<close>

definition append_geocode_cache_df :: "string \<Rightarrow> pyfloat \<Rightarrow> pyfloat \<Rightarrow> disk \<Rightarrow> disk" where
  "append_geocode_cache_df address lat lon d =
     (case read_geocode_cache_df d of
        WithoutAddress \<Rightarrow> d
      | Frame cache_df \<Rightarrow>
          if matching address cache_df \<noteq> [] then d
          else if writable d
               then d\<lparr>cache := to_csv d (cache_df @ [(Some address, Some lat, Some lon)])\<rparr>
               else d)"

text \<open>
  The cache-hit part of \<^verbatim>\<open>cached_geocode\<close>. The selection is outside every
  \<^verbatim>\<open>try\<close>, so on a frame without the column \<open>address\<close> its \<^verbatim>\<open>KeyError\<close> leaves
  the function. Otherwise the first matching row is converted with \<^verbatim>\<open>float\<close>; a
  conversion that raises is swallowed and counts as a miss.
\<close>

definition cache_lookup :: "string \<Rightarrow> disk \<Rightarrow> error + (pyfloat \<times> pyfloat) option" where
  "cache_lookup address d =
     (case read_geocode_cache_df d of
        WithoutAddress \<Rightarrow> Inl KeyError
      | Frame cache_df \<Rightarrow>
          Inr (case matching address cache_df of
                 [] \<Rightarrow> None
               | (a, Some lat, Some lon) # rest \<Rightarrow> Some (lat, lon)
               | _ \<Rightarrow> None))"

section \<open>Geocoder\<close>

text \<open>
  \<^verbatim>\<open>geocode_address\<close> of \<^verbatim>\<open>src/geocode.py\<close> depends on the API key of the
  environment and on the outcome of one HTTP request: \<^verbatim>\<open>requests.get\<close> raises,
  \<^verbatim>\<open>raise_for_status\<close> raises, the body is not JSON, or the body is a JSON object. Of
  the object only \<open>data["status"]\<close> (absent: \<open>None\<close>) and the pair
  \<open>loc["lat"], loc["lng"]\<close> of the first result (\<open>None\<close> when any key or index on the way
  is absent; a component is \<open>None\<close> for JSON \<open>null\<close>) are read.
\<close>

datatype http_outcome =
    ConnectionFailed
  | HttpError
  | NotJson
  | Json "string option" "(pyfloat option \<times> pyfloat option) option"

record geo_env =
  api_key :: "string option"
  http_get :: "string \<Rightarrow> http_outcome"

definition geocode_address :: "geo_env \<Rightarrow> string \<Rightarrow> pyfloat option \<times> pyfloat option" where
  "geocode_address env address =
     (if api_key env = None \<or> api_key env = Some [] then (None, None)
      else case http_get env address of
             Json (Some status) loc \<Rightarrow>
               (if status = ''OK''
                then (case loc of Some (lat, lng) \<Rightarrow> (lat, lng) | None \<Rightarrow> (None, None))
                else (None, None))
           | _ \<Rightarrow> (None, None))"

text \<open>
  \<^verbatim>\<open>str.strip\<close> removes leading and trailing whitespace; a character is a code point
  below 256.
\<close>

definition isspace :: "char \<Rightarrow> bool" where
  "isspace c = ((of_char c :: nat) \<in> {9, 10, 11, 12, 13, 28, 29, 30, 31, 32, 133, 160})"

definition strip :: "string \<Rightarrow> string" where
  "strip s = rev (dropWhile isspace (rev (dropWhile isspace s)))"

definition blank :: "string \<Rightarrow> bool" where
  "blank address = (address = [] \<or> strip address = [])"

text \<open>
  One call of \<^verbatim>\<open>cached_geocode\<close> that is not answered by Streamlit's own memoisation:
  it returns the pair \<open>(lat, lon)\<close>, or the exception that leaves it, and the cache file
  as it is afterwards.
\<close>

definition cached_geocode ::
  "geo_env \<Rightarrow> string \<Rightarrow> disk \<Rightarrow> (error + pyfloat option \<times> pyfloat option) \<times> disk" where
  "cached_geocode env address d =
     (if blank address then (Inr (None, None), d)
      else case cache_lookup address d of
             Inl e \<Rightarrow> (Inl e, d)
           | Inr (Some (lat, lon)) \<Rightarrow> (Inr (Some lat, Some lon), d)
           | Inr None \<Rightarrow>
               (case geocode_address env address of
                  (Some lat, Some lon) \<Rightarrow>
                    (Inr (Some lat, Some lon), append_geocode_cache_df address lat lon d)
                | (lat, lon) \<Rightarrow> (Inr (lat, lon), d)))"

section \<open>Dates\<close>

text \<open>
  A point in time is a calendar date with the microseconds since midnight. Comparison of
  timestamps and subtraction of a \<^verbatim>\<open>timedelta\<close> work on the linear count of
  microseconds (\<open>to_micros\<close>, built on the proleptic Gregorian ordinal of the date);
  subtraction of a \<^verbatim>\<open>pd.DateOffset(months=n)\<close> works on the calendar fields: the month
  moves back by \<open>n\<close> and the day is cut down to the length of the month reached.
\<close>

record datetime =
  year :: int
  month :: int
  day :: int
  micros :: int

definition is_leap :: "int \<Rightarrow> bool" where
  "is_leap y = (y mod 4 = 0 \<and> (y mod 100 \<noteq> 0 \<or> y mod 400 = 0))"

definition days_in_month :: "int \<Rightarrow> int \<Rightarrow> int" where
  "days_in_month y m =
     (if m = 2 then (if is_leap y then 29 else 28)
      else if m = 4 \<or> m = 6 \<or> m = 9 \<or> m = 11 then 30 else 31)"

definition days_before_year :: "int \<Rightarrow> int" where
  "days_before_year y = (y - 1) * 365 + (y - 1) div 4 - (y - 1) div 100 + (y - 1) div 400"

definition days_before_month :: "int \<Rightarrow> int \<Rightarrow> int" where
  "days_before_month y m = sum_list (map (days_in_month y) [1..m - 1])"

definition ymd2ord :: "int \<Rightarrow> int \<Rightarrow> int \<Rightarrow> int" where
  "ymd2ord y m d = days_before_year y + days_before_month y m + d"

definition micros_per_day :: int where
  "micros_per_day = 86400000000"

definition to_micros :: "datetime \<Rightarrow> int" where
  "to_micros t = ymd2ord (year t) (month t) (day t) * micros_per_day + micros t"

definition sub_months :: "datetime \<Rightarrow> int \<Rightarrow> datetime" where
  "sub_months t n =
     (let total = year t * 12 + (month t - 1) - n;
          y = total div 12;
          m = total mod 12 + 1
      in t\<lparr>year := y, month := m, day := min (day t) (days_in_month y m)\<rparr>)"

section \<open>Historical sales\<close>

text \<open>
  A row of \<^verbatim>\<open>historical_sales.csv\<close> with the columns the filtering reads. A missing
  number is NaN, a missing date is \<open>None\<close>; a date is its count of microseconds. The frame
  also records which columns the file has.
\<close>

record sale =
  r_lat :: pyfloat
  r_lon :: pyfloat
  r_price :: pyfloat
  r_area :: pyfloat
  r_date :: "int option"

record dataframe =
  columns :: "string list"
  rows :: "sale list"

definition df_empty :: "dataframe \<Rightarrow> bool" where
  "df_empty df = (columns df = [] \<or> rows df = [])"

definition date_ge :: "int option \<Rightarrow> int \<Rightarrow> bool" where
  "date_ge d cutoff = (case d of None \<Rightarrow> False | Some t \<Rightarrow> cutoff \<le> t)"

subsection \<open>Series statistics\<close>

text \<open>
  \<^verbatim>\<open>Series.median\<close> skips NaN and is NaN on what is then empty; otherwise it is the
  middle value of the sorted values, or the mean of the two middle ones, computed in
  double precision. The sorted values are the negative infinities, the finite values in
  order, the positive infinities.
\<close>

fun finite_values :: "pyfloat list \<Rightarrow> real list" where
  "finite_values [] = []"
| "finite_values (Fin x # xs) = x # finite_values xs"
| "finite_values (_ # xs) = finite_values xs"

definition sorted_values :: "pyfloat list \<Rightarrow> pyfloat list" where
  "sorted_values xs =
     filter (\<lambda>x. x = NInf) xs @ map Fin (sort (finite_values xs)) @ filter (\<lambda>x. x = PInf) xs"

definition series_median :: "pyfloat list \<Rightarrow> pyfloat" where
  "series_median xs =
     (let s = sorted_values xs; n = length s
      in if n = 0 then NaN
         else if odd n then s ! (n div 2)
         else np_div (np_add (s ! (n div 2 - 1)) (s ! (n div 2))) (Fin 2))"

section \<open>Valuation\<close>

text \<open>
  The computation of \<^verbatim>\<open>render_valuation\<close> after the form is submitted. The request
  holds the form fields the local adjustment reads. The surroundings of one run are the
  geocoder, the outcome of \<^verbatim>\<open>predict_house_price\<close> (\<open>None\<close> when it raised), the frame
  of \<^verbatim>\<open>load_historical_sales_cached\<close>, the pipeline of \<^verbatim>\<open>load_house_model_cached\<close>
  (\<open>None\<close> when there is no model) and the clock. A pipeline maps the comps to one predicted
  price each, or raises (\<open>None\<close>). An exception that leaves \<^verbatim>\<open>cached_geocode\<close> or the
  distance column ends the run.
\<close>

record request =
  req_address :: string
  req_radius_km :: real
  req_months :: int

type_synonym pipeline = "sale list \<Rightarrow> pyfloat list option"

record world =
  geo :: geo_env
  base_prediction :: "pyfloat option"
  historical_sales :: dataframe
  house_model :: "pipeline option"
  utcnow :: datetime

datatype label = High | Medium | Low

record valuation =
  res_base_price :: "pyfloat option"
  res_factor :: pyfloat
  res_adjusted_price :: "pyfloat option"
  res_comps :: "sale list"
  res_confidence :: "label option"

definition required_columns :: "string list" where
  "required_columns = [''lat'', ''lon'', ''Price'', ''Area'', ''Date'']"

definition dropna :: "sale list \<Rightarrow> sale list" where
  "dropna rs =
     filter (\<lambda>r. \<not> isna (r_lat r) \<and> \<not> isna (r_lon r) \<and> \<not> isna (r_price r)
                 \<and> \<not> isna (r_area r) \<and> r_date r \<noteq> None) rs"

definition cutoff_of :: "datetime \<Rightarrow> int \<Rightarrow> int" where
  "cutoff_of now months = to_micros now - (30 * months) * micros_per_day"

text \<open>
  The column \<open>dist_km\<close>: \<^verbatim>\<open>haversine_km\<close> applied row by row; an exception in any row
  ends the run.
\<close>

fun dist_km :: "pyfloat \<Rightarrow> pyfloat \<Rightarrow> sale list \<Rightarrow> error + pyfloat list" where
  "dist_km lat lon [] = Inr []"
| "dist_km lat lon (r # rs) =
     and_then (haversine_km (Some lat) (Some lon) (Some (r_lat r)) (Some (r_lon r))) (\<lambda>x.
     and_then (dist_km lat lon rs) (\<lambda>xs. Inr (x # xs)))"

text \<open>The selection \<^verbatim>\<open>hist[(hist["Date"] >= cutoff) & (hist["dist_km"] <= radius_km)]\<close>.\<close>

definition select_recent :: "int \<Rightarrow> real \<Rightarrow> sale list \<Rightarrow> pyfloat list \<Rightarrow> sale list" where
  "select_recent cutoff radius_km hist dists =
     map fst (filter (\<lambda>(r, x). date_ge (r_date r) cutoff \<and> py_le x (Fin radius_km)) (zip hist dists))"

text \<open>
  The \<^verbatim>\<open>try\<close> block around \<^verbatim>\<open>house_pipe.predict\<close>: the call may raise, and so does
  storing the predictions as a column when there is not one per comp.
\<close>

definition predict_comps :: "pipeline \<Rightarrow> sale list \<Rightarrow> pyfloat list option" where
  "predict_comps house_pipe recent =
     (case house_pipe recent of
        None \<Rightarrow> None
      | Some preds \<Rightarrow> if length preds = length recent then Some preds else None)"

definition ratio_actual_pred :: "sale list \<Rightarrow> pyfloat list \<Rightarrow> pyfloat list" where
  "ratio_actual_pred recent preds =
     map (\<lambda>(r, pred_price). np_div (r_price r) (np_add pred_price (Fin eps9))) (zip recent preds)"

text \<open>
  The median-price fallback, written twice in the source (no model, and prediction raised):
  it returns factor, adjusted price and comps, which keep their initial values when the
  median or the base price is falsy.
\<close>

definition median_fallback :: "pyfloat \<Rightarrow> sale list \<Rightarrow> pyfloat \<times> pyfloat \<times> sale list" where
  "median_fallback base_price recent =
     (let med = series_median (map r_price recent)
      in if truthy med \<and> truthy base_price
         then (let factor = np_div med base_price in (factor, np_mul base_price factor, recent))
         else (Fin 1, base_price, []))"

text \<open>The branch for a non-empty selection: factor, adjusted price and comps.\<close>

definition adjust :: "pipeline option \<Rightarrow> pyfloat \<Rightarrow> sale list \<Rightarrow> pyfloat \<times> pyfloat \<times> sale list" where
  "adjust house_pipe base_price recent =
     (case house_pipe of
        None \<Rightarrow> median_fallback base_price recent
      | Some pipe \<Rightarrow>
          (case predict_comps pipe recent of
             None \<Rightarrow> median_fallback base_price recent
           | Some preds \<Rightarrow>
               (let factor = series_median (ratio_actual_pred recent preds)
                in if isfinite factor \<and> py_lt (Fin 0) factor
                   then (factor, np_mul base_price factor, recent)
                   else (Fin 1, base_price, recent))))"

definition confidence_of :: "nat \<Rightarrow> label" where
  "confidence_of n = (if 10 \<le> n then High else if 5 \<le> n then Medium else Low)"

definition local_comps :: "pyfloat \<Rightarrow> pyfloat \<Rightarrow> request \<Rightarrow> datetime \<Rightarrow> sale list \<Rightarrow> error + sale list" where
  "local_comps lat lon req now hist_rows =
     (let hist = dropna hist_rows;
          cutoff = cutoff_of now (req_months req)
      in and_then (dist_km lat lon hist) (\<lambda>dists.
         Inr (select_recent cutoff (req_radius_km req) hist dists)))"

definition result :: "pyfloat option \<Rightarrow> pyfloat \<times> pyfloat option \<times> sale list \<Rightarrow> valuation" where
  "result base_price out =
     (case out of (factor, adjusted_price, comps) \<Rightarrow>
        \<lparr>res_base_price = base_price, res_factor = factor, res_adjusted_price = adjusted_price,
         res_comps = comps,
         res_confidence = (case base_price of None \<Rightarrow> None
                           | Some b \<Rightarrow> Some (confidence_of (length comps)))\<rparr>)"

definition render_valuation :: "world \<Rightarrow> request \<Rightarrow> disk \<Rightarrow> error + valuation \<times> disk" where
  "render_valuation w req d =
     (let address = req_address req;
          (geocoded, d') = (if address \<noteq> [] \<and> strip address \<noteq> []
                            then cached_geocode (geo w) address d
                            else (Inr (None, None), d));
          base_price = base_prediction w;
          hist = historical_sales w;
          unadjusted = (Fin 1, base_price, [])
      in case geocoded of Inl e \<Rightarrow> Inl e | Inr coords \<Rightarrow>
         case (coords, base_price) of
           ((Some lat, Some lon), Some b) \<Rightarrow>
             (if \<not> df_empty hist
              then (if set required_columns \<subseteq> set (columns hist)
                    then and_then (local_comps lat lon req (utcnow w) (rows hist)) (\<lambda>recent.
                           if recent \<noteq> []
                           then (case adjust (house_model w) b recent of
                                   (factor, adjusted_price, comps) \<Rightarrow>
                                     Inr (result base_price (factor, Some adjusted_price, comps), d'))
                           else Inr (result base_price unadjusted, d'))
                    else Inr (result base_price unadjusted, d'))
              else Inr (result base_price unadjusted, d'))
         | _ \<Rightarrow> Inr (result base_price unadjusted, d'))"

section \<open>The stand-alone local adjustment\<close>

text \<open>
  The filtering of \<^verbatim>\<open>local_adjustment\<close> of \<^verbatim>\<open>src/local_analysis.py\<close>, on
  the rows of the historical file. Rows without \<open>lat, lon, Price, Date\<close> are dropped, the
  distance is \<^verbatim>\<open>haversine\<close>, and the cutoff is the clock minus a
  \<^verbatim>\<open>DateOffset\<close> of the given number of months.
\<close>

definition dropna_local :: "sale list \<Rightarrow> sale list" where
  "dropna_local rs =
     filter (\<lambda>r. \<not> isna (r_lat r) \<and> \<not> isna (r_lon r) \<and> \<not> isna (r_price r) \<and> r_date r \<noteq> None) rs"

fun distance_km :: "pyfloat \<Rightarrow> pyfloat \<Rightarrow> sale list \<Rightarrow> error + pyfloat list" where
  "distance_km lat lon [] = Inr []"
| "distance_km lat lon (r # rs) =
     and_then (haversine lat lon (r_lat r) (r_lon r)) (\<lambda>x.
     and_then (distance_km lat lon rs) (\<lambda>xs. Inr (x # xs)))"

definition cutoff_local :: "datetime \<Rightarrow> int \<Rightarrow> int" where
  "cutoff_local now months = to_micros (sub_months now months)"

definition select_local :: "int \<Rightarrow> real \<Rightarrow> sale list \<Rightarrow> pyfloat list \<Rightarrow> sale list" where
  "select_local cutoff radius_km df dists =
     map fst (filter (\<lambda>(r, x). py_le x (Fin radius_km) \<and> date_ge (r_date r) cutoff) (zip df dists))"

definition df_filtered ::
  "pyfloat \<Rightarrow> pyfloat \<Rightarrow> real \<Rightarrow> int \<Rightarrow> datetime \<Rightarrow> sale list \<Rightarrow> error + sale list" where
  "df_filtered lat lon radius_km months now file_rows =
     (let df = dropna_local file_rows
      in and_then (distance_km lat lon df) (\<lambda>dists.
         Inr (select_local (cutoff_local now months) radius_km df dists)))"

section \<open>Observations used in the statements\<close>

text \<open>
  The rows the cache functions see. An address has an entry when the selection on it is
  not empty; \<open>entries\<close> counts the selected rows, \<open>stored_rows\<close> the rows of the file.
\<close>

definition rows_read :: "disk \<Rightarrow> cache_row list" where
  "rows_read d = (case read_geocode_cache_df d of WithoutAddress \<Rightarrow> [] | Frame cache_df \<Rightarrow> cache_df)"

definition has_entry :: "string \<Rightarrow> disk \<Rightarrow> bool" where
  "has_entry address d = (matching address (rows_read d) \<noteq> [])"

definition entries :: "string \<Rightarrow> disk \<Rightarrow> nat" where
  "entries address d = length (matching address (rows_read d))"

definition stored_rows :: "disk \<Rightarrow> nat" where
  "stored_rows d = (case cache d of Table file_rows \<Rightarrow> length file_rows | _ \<Rightarrow> 0)"

text \<open>
  The geocoder fails on an address when there is no API key, the request or its status
  check raises, the body is not JSON, or the status is absent or not \<open>OK\<close>.
\<close>

definition geocoder_fails :: "geo_env \<Rightarrow> string \<Rightarrow> bool" where
  "geocoder_fails env address =
     (api_key env = None \<or> api_key env = Some [] \<or>
      (case http_get env address of
         ConnectionFailed \<Rightarrow> True
       | HttpError \<Rightarrow> True
       | NotJson \<Rightarrow> True
       | Json None loc \<Rightarrow> True
       | Json (Some status) loc \<Rightarrow> status \<noteq> ''OK''))"

text \<open>The valuation without local adjustment: factor 1.0, the base price, no comps.\<close>

definition unadjusted :: "world \<Rightarrow> valuation" where
  "unadjusted w = result (base_prediction w) (Fin 1, base_prediction w, [])"

section \<open>Example data\<close>

text \<open>Disks on which every number is read back as it was written.\<close>

definition disk_of :: "cache_file \<Rightarrow> disk" where
  "disk_of file = \<lparr>cache = file, writable = True, csv_float = (\<lambda>c x. x)\<rparr>"

definition empty_disk :: disk where
  "empty_disk = disk_of Missing"

definition corrupt_disk :: disk where
  "corrupt_disk = disk_of Unreadable"

definition headless_disk :: disk where
  "headless_disk = disk_of NoAddressColumn"

definition one_entry_disk :: disk where
  "one_entry_disk = disk_of (Table [(''a'', Some (Fin 1), Some (Fin 2))])"

definition example_geo :: geo_env where
  "example_geo =
     \<lparr>api_key = Some ''key'',
      http_get = (\<lambda>address. Json (Some ''OK'') (Some (Some (Fin 1), Some (Fin 2))))\<rparr>"

definition denied_geo :: geo_env where
  "denied_geo = \<lparr>api_key = Some ''key'', http_get = (\<lambda>address. Json (Some ''REQUEST_DENIED'') None)\<rparr>"

definition example_now :: datetime where
  "example_now = \<lparr>year = 2024, month = 8, day = 15, micros = 0\<rparr>"

definition july_15 :: datetime where
  "july_15 = \<lparr>year = 2024, month = 7, day = 15, micros = 0\<rparr>"

definition july_20 :: datetime where
  "july_20 = \<lparr>year = 2024, month = 7, day = 20, micros = 0\<rparr>"

definition example_sale :: "pyfloat \<Rightarrow> pyfloat \<Rightarrow> datetime \<Rightarrow> sale" where
  "example_sale la p t =
     \<lparr>r_lat = la, r_lon = Fin 2, r_price = p, r_area = Fin 50, r_date = Some (to_micros t)\<rparr>"

definition example_request :: request where
  "example_request = \<lparr>req_address = ''a'', req_radius_km = 2, req_months = 1\<rparr>"

text \<open>A pipeline that predicts every comp's actual price, and one whose prediction raises.\<close>

definition echo_pipeline :: pipeline where
  "echo_pipeline recent = Some (map r_price recent)"

definition raising_pipeline :: pipeline where
  "raising_pipeline recent = None"

definition example_world :: "geo_env \<Rightarrow> pipeline option \<Rightarrow> sale list \<Rightarrow> world" where
  "example_world g house_pipe hist =
     \<lparr>geo = g, base_prediction = Some (Fin 1000),
      historical_sales = \<lparr>columns = required_columns, rows = hist\<rparr>,
      house_model = house_pipe, utcnow = example_now\<rparr>"

text \<open>
  The example run on one comp of price \<open>p\<close> with a given pipeline, and the shape of its
  result: base price, factor, adjusted price and comps.
\<close>

definition example_run :: "pipeline \<Rightarrow> real \<Rightarrow> error + valuation \<times> disk" where
  "example_run house_pipe p =
     render_valuation (example_world example_geo (Some house_pipe) [example_sale (Fin 1) (Fin p) july_20])
       example_request empty_disk"

definition example_result :: "real \<Rightarrow> real \<Rightarrow> real \<Rightarrow> sale list \<Rightarrow> valuation" where
  "example_result b f a comps =
     \<lparr>res_base_price = Some (Fin b), res_factor = Fin f, res_adjusted_price = Some (Fin a),
      res_comps = comps, res_confidence = Some (confidence_of (length comps))\<rparr>"

section \<open>Properties of the distance functions\<close>

lemma sin_half_diff_sq: "(sin ((x - y) / 2))\<^sup>2 = (sin ((y - x) / 2))\<^sup>2" for x y :: real
proof -
  have "(x - y) / 2 = - ((y - x) / 2)" by (simp add: field_simps)
  then have "sin ((x - y) / 2) = - sin ((y - x) / 2)" by (simp only: sin_minus)
  then show ?thesis by simp
qed

lemma hav_a_sym: "hav_a x1 y1 x2 y2 = hav_a x2 y2 x1 y1"
  unfolding hav_a_def
  using sin_half_diff_sq[of x2 x1] sin_half_diff_sq[of y2 y1] by (simp add: mult.commute)

lemma hav_a_self: "hav_a x y x y = 0"
  by (simp add: hav_a_def)

lemma cos_prod_bounds:
  fixes x y :: real
  shows "- (sin ((x - y) / 2))\<^sup>2 \<le> cos x * cos y"
    and "cos x * cos y \<le> 1 - (sin ((x - y) / 2))\<^sup>2"
proof -
  define P where "P = cos x * cos y"
  define S where "S = (sin ((x - y) / 2))\<^sup>2"
  define C where "C = cos (x + y)"
  have "2 * ((x - y) / 2) = x - y" by simp
  then have h: "cos (x - y) = 1 - 2 * S"
    unfolding S_def using cos_double_sin[of "(x - y) / 2"] by (simp only:)
  have "P = (cos (x - y) + C) / 2"
    by (simp add: P_def C_def cos_diff cos_add)
  then have p: "2 * P = 1 - 2 * S + C" using h by simp
  have b: "- 1 \<le> C" "C \<le> 1" by (simp_all add: C_def)
  have "- S \<le> P" using p b(1) by linarith
  then show "- (sin ((x - y) / 2))\<^sup>2 \<le> cos x * cos y" by (simp add: P_def S_def)
  have "P \<le> 1 - S" using p b(2) by linarith
  then show "cos x * cos y \<le> 1 - (sin ((x - y) / 2))\<^sup>2" by (simp add: P_def S_def)
qed

text \<open>In exact arithmetic \<open>a\<close> stays in \<open>[0, 1]\<close>, so neither \<open>sqrt\<close> nor \<open>asin\<close> raises.\<close>

lemma hav_a_range: "0 \<le> hav_a x1 y1 x2 y2 \<and> hav_a x1 y1 x2 y2 \<le> 1"
proof -
  define s where "s = (sin ((x2 - x1) / 2))\<^sup>2"
  define t where "t = (sin ((y2 - y1) / 2))\<^sup>2"
  define k where "k = cos x1 * cos x2"
  have s: "0 \<le> s" "s \<le> 1" by (simp_all add: s_def abs_square_le_1)
  have t: "0 \<le> t" "t \<le> 1" by (simp_all add: t_def abs_square_le_1)
  have k: "- s \<le> k" "k \<le> 1 - s"
    using cos_prod_bounds[of x1 x2] sin_half_diff_sq[of x1 x2] by (simp_all add: k_def s_def)
  have lo: "- s \<le> k * t"
  proof (cases "0 \<le> k")
    case True
    then have "0 \<le> k * t" using t by simp
    then show ?thesis using s by linarith
  next
    case False
    then have "k * 1 \<le> k * t" using t by (intro mult_left_mono_neg) auto
    then show ?thesis using k by simp
  qed
  have hi: "k * t \<le> 1 - s"
  proof (cases "0 \<le> k")
    case True
    then have "k * t \<le> k * 1" using t by (intro mult_left_mono) auto
    then show ?thesis using k by simp
  next
    case False
    then have "k * t \<le> 0" using t by (simp add: mult_le_0_iff)
    then show ?thesis using s by simp
  qed
  have "hav_a x1 y1 x2 y2 = s + k * t" by (simp add: hav_a_def s_def t_def k_def)
  then show ?thesis using lo hi by simp
qed

lemma asin_sqrt_defined:
  assumes "0 \<le> a" "a \<le> 1"
  shows "and_then (math_sqrt (Fin a)) (\<lambda>r. and_then (math_asin r) (\<lambda>t.
           Inr (py_mul (Fin 6371) (py_mul (Fin 2) t))))
         = Inr (Fin (6371 * (2 * arcsin (sqrt a))))"
proof -
  have "0 \<le> sqrt a" "sqrt a \<le> 1" using assms by (simp_all add: real_sqrt_le_1_iff)
  then have "\<not> (sqrt a < - 1 \<or> 1 < sqrt a)" by linarith
  then show ?thesis using assms by simp
qed

lemma haversine_fin:
  "haversine (Fin a) (Fin b) (Fin c) (Fin d)
     = and_then (math_sqrt (Fin (hav_a (rad a) (rad b) (rad c) (rad d)))) (\<lambda>r.
       and_then (math_asin r) (\<lambda>t. Inr (py_mul (Fin 6371) (py_mul (Fin 2) t))))"
  by (simp add: haversine_def radians_def py_sub_def pow2_def Let_def hav_a_def rad_def
        power2_eq_square del: times_divide_eq_right)

lemma haversine_total:
  "haversine (Fin a) (Fin b) (Fin c) (Fin d)
     = Inr (Fin (6371 * (2 * arcsin (sqrt (hav_a (rad a) (rad b) (rad c) (rad d))))))"
  using hav_a_range[of "rad a" "rad b" "rad c" "rad d"]
  by (simp only: haversine_fin asin_sqrt_defined)

lemma haversine_self: "haversine (Fin a) (Fin b) (Fin a) (Fin b) = Inr (Fin 0)"
  by (simp add: haversine_total hav_a_self)

lemma haversine_sym:
  "haversine (Fin a) (Fin b) (Fin c) (Fin d) = haversine (Fin c) (Fin d) (Fin a) (Fin b)"
  by (simp add: haversine_fin hav_a_sym[of "rad a"])

lemma haversine_km_fin:
  "haversine_km (Some (Fin a)) (Some (Fin b)) (Some (Fin c)) (Some (Fin d))
     = haversine (Fin a) (Fin b) (Fin c) (Fin d)"
  by (simp add: haversine_km_def)

lemma haversine_km_missing:
  "missing a \<or> missing b \<or> missing c \<or> missing d \<Longrightarrow> haversine_km a b c d = Inr NaN"
  by (simp add: haversine_km_def)

text \<open>
  Claim C8. Both distance functions, \<open>haversine\<close> and \<open>haversine_km\<close> (Earth radius 6371 km),
  give distance 0 from any point to itself and the same distance from \<open>p\<close> to \<open>q\<close> as
  from \<open>q\<close> to \<open>p\<close>. A point is a pair of finite coordinates.
\<close>

theorem haversine_zero_and_symmetric:
  "haversine (Fin lat1) (Fin lon1) (Fin lat1) (Fin lon1) = Inr (Fin 0)
   \<and> haversine (Fin lat1) (Fin lon1) (Fin lat2) (Fin lon2)
       = haversine (Fin lat2) (Fin lon2) (Fin lat1) (Fin lon1)
   \<and> haversine_km (Some (Fin lat1)) (Some (Fin lon1)) (Some (Fin lat1)) (Some (Fin lon1)) = Inr (Fin 0)
   \<and> haversine_km (Some (Fin lat1)) (Some (Fin lon1)) (Some (Fin lat2)) (Some (Fin lon2))
       = haversine_km (Some (Fin lat2)) (Some (Fin lon2)) (Some (Fin lat1)) (Some (Fin lon1))"
  using haversine_sym[of lat1 lon1 lat2 lon2]
  by (simp add: haversine_km_fin haversine_self)

text \<open>The ordinals of the example dates.\<close>

lemma example_ordinals:
  "ymd2ord 2024 7 15 = 739082" "ymd2ord 2024 7 20 = 739087" "ymd2ord 2024 8 15 = 739113"
  by (simp_all add: ymd2ord_def days_before_year_def days_before_month_def days_in_month_def
      is_leap_def upto_rec1)

lemma example_micros:
  "to_micros july_15 = 739082 * micros_per_day" "to_micros july_20 = 739087 * micros_per_day"
  "to_micros example_now = 739113 * micros_per_day"
  by (simp_all add: to_micros_def july_15_def july_20_def example_now_def example_ordinals)

text \<open>Results of a sequence of calls that may raise.\<close>

lemma and_then_Inr: "and_then m f = Inr y \<longleftrightarrow> (\<exists>x. m = Inr x \<and> f x = Inr y)"
  by (cases m) simp_all

lemma dist_km_zip:
  "dist_km lat lon hist = Inr dists \<Longrightarrow> (r, x) \<in> set (zip hist dists) \<Longrightarrow>
   haversine_km (Some lat) (Some lon) (Some (r_lat r)) (Some (r_lon r)) = Inr x"
proof (induction hist arbitrary: dists)
  case Nil
  then show ?case by simp
next
  case (Cons h hs)
  from Cons.prems(1) obtain y ys where
    y: "haversine_km (Some lat) (Some lon) (Some (r_lat h)) (Some (r_lon h)) = Inr y"
    and ys: "dist_km lat lon hs = Inr ys" and d: "dists = y # ys"
    by (auto simp: and_then_Inr)
  from Cons.prems(2) d have "(r, x) = (h, y) \<or> (r, x) \<in> set (zip hs ys)" by simp
  then show ?case
  proof
    assume "(r, x) = (h, y)" with y show ?thesis by simp
  next
    assume "(r, x) \<in> set (zip hs ys)" with Cons.IH[OF ys] show ?thesis by simp
  qed
qed

lemma dist_km_length: "dist_km lat lon hist = Inr dists \<Longrightarrow> length dists = length hist"
  by (induction hist arbitrary: dists) (auto simp: and_then_Inr)

lemma select_recent_mem:
  "r \<in> set (select_recent cutoff radius_km hist dists) \<longleftrightarrow>
   (\<exists>x. (r, x) \<in> set (zip hist dists) \<and> date_ge (r_date r) cutoff \<and> py_le x (Fin radius_km))"
  by (force simp: select_recent_def)

lemma selected_not_missing:
  assumes "dist_km lat lon hist = Inr dists" "r \<in> set (select_recent cutoff radius_km hist dists)"
  shows "\<not> isna (r_lat r) \<and> \<not> isna (r_lon r) \<and> \<not> isna lat \<and> \<not> isna lon"
proof -
  from assms(2) obtain x where x: "(r, x) \<in> set (zip hist dists)" "py_le x (Fin radius_km)"
    by (auto simp: select_recent_mem)
  have h: "haversine_km (Some lat) (Some lon) (Some (r_lat r)) (Some (r_lon r)) = Inr x"
    using dist_km_zip[OF assms(1) x(1)] .
  have "x \<noteq> NaN" using x(2) by (cases x) auto
  with h show ?thesis
    using haversine_km_missing[of "Some lat" "Some lon" "Some (r_lat r)" "Some (r_lon r)"]
    by auto
qed

text \<open>
  Claim C10. \<open>haversine_km\<close> returns NaN, and does not raise, whenever one of its four
  arguments is \<open>None\<close> or NaN. The comparison of NaN with the radius is false; a row with
  a missing coordinate contributes NaN to the distance column without ending the run, and
  no such row is in the selection.
\<close>

theorem haversine_km_missing_coordinate:
  "(missing lat1 \<or> missing lon1 \<or> missing lat2 \<or> missing lon2 \<longrightarrow>
      haversine_km lat1 lon1 lat2 lon2 = Inr NaN)
   \<and> \<not> py_le NaN (Fin radius_km)
   \<and> (isna (r_lat r) \<or> isna (r_lon r) \<longrightarrow>
        dist_km lat lon (r # rs) = and_then (dist_km lat lon rs) (\<lambda>xs. Inr (NaN # xs)))
   \<and> (dist_km lat lon hist = Inr dists \<and> r' \<in> set (select_recent cutoff radius_km hist dists) \<longrightarrow>
        \<not> isna (r_lat r') \<and> \<not> isna (r_lon r'))"
  using selected_not_missing[of lat lon hist dists r' cutoff radius_km]
  by (auto simp: haversine_km_missing)

theorem haversine_km_missing_coordinate_witness:
  "haversine_km None (Some (Fin 2)) (Some (Fin 1)) (Some (Fin 2)) = Inr NaN
   \<and> isna (r_lat (example_sale NaN (Fin 1000) july_20))
   \<and> dist_km (Fin 1) (Fin 2)
        [example_sale NaN (Fin 1000) july_20, example_sale (Fin 1) (Fin 1000) july_20]
       = Inr [NaN, Fin 0]
   \<and> example_sale (Fin 1) (Fin 1000) july_20
       \<in> set (select_recent 5 2
                [example_sale NaN (Fin 1000) july_20, example_sale (Fin 1) (Fin 1000) july_20]
                [NaN, Fin 0])
   \<and> \<not> isna (r_lat (example_sale (Fin 1) (Fin 1000) july_20))
   \<and> \<not> isna (r_lon (example_sale (Fin 1) (Fin 1000) july_20))"
proof -
  let ?bad = "example_sale NaN (Fin 1000) july_20"
  let ?good = "example_sale (Fin 1) (Fin 1000) july_20"
  have n: "isna (r_lat ?bad)" by (simp add: example_sale_def)
  have g: "dist_km (Fin 1) (Fin 2) [?good] = Inr [Fin 0]"
    by (simp add: example_sale_def haversine_km_fin haversine_self)
  have s: "?good \<in> set (select_recent 5 2 [?bad, ?good] [NaN, Fin 0])"
    by (simp add: select_recent_def date_ge_def example_sale_def example_micros micros_per_day_def)
  have m: "missing None \<or> missing (Some (Fin 2)) \<or> missing (Some (Fin 1)) \<or> missing (Some (Fin 2))"
    by simp
  note t = haversine_km_missing_coordinate[of None "Some (Fin 2)" "Some (Fin 1)" "Some (Fin 2)" 2
      ?bad "Fin 1" "Fin 2" "[?good]" "[?bad, ?good]" "[NaN, Fin 0]" ?good 5]
  have d: "dist_km (Fin 1) (Fin 2) [?bad, ?good] = Inr [NaN, Fin 0]"
    using t n g by simp
  from m n d s t show ?thesis by blast
qed

section \<open>Properties of double rounding\<close>

lemma rne_cases: "rne x = \<lfloor>x\<rfloor> \<or> rne x = \<lfloor>x\<rfloor> + 1"
  by (simp add: rne_def Let_def)

lemma rne_of_int [simp]: "rne (of_int k) = k"
  by (simp add: rne_def Let_def)

lemma rne_near:
  assumes "\<bar>x - of_int q\<bar> < 1 / 2"
  shows "rne x = q"
proof (cases "of_int q \<le> x")
  case True
  with assms have f: "\<lfloor>x\<rfloor> = q" by (intro floor_unique) (auto simp: abs_if split: if_splits)
  with assms True show ?thesis by (simp add: rne_def Let_def)
next
  case False
  with assms have f: "\<lfloor>x\<rfloor> = q - 1" by (intro floor_unique) (auto simp: abs_if split: if_splits)
  with assms False show ?thesis by (simp add: rne_def Let_def)
qed

lemma rne_mono:
  assumes "x \<le> y"
  shows "rne x \<le> rne y"
proof (cases "\<lfloor>x\<rfloor> = \<lfloor>y\<rfloor>")
  case True
  with assms show ?thesis by (auto simp: rne_def Let_def)
next
  case False
  with assms have "\<lfloor>x\<rfloor> < \<lfloor>y\<rfloor>" using floor_mono[OF assms] by linarith
  moreover have "rne x \<le> \<lfloor>x\<rfloor> + 1" using rne_cases[of x] by linarith
  moreover have "\<lfloor>y\<rfloor> \<le> rne y" using rne_cases[of y] by linarith
  ultimately show ?thesis by linarith
qed

lemma rne_nonneg: "0 \<le> x \<Longrightarrow> 0 \<le> rne x"
  using rne_mono[of 0 x] rne_of_int[of 0] by simp

lemma powr_powi: "2 powr (of_int k) = (2::real) powi k"
  by (simp add: powr_real_of_int')

lemma binade_eqI:
  assumes "2 powi e \<le> \<bar>x\<bar>" "\<bar>x\<bar> < 2 powi (e + 1)" "- 1022 \<le> e"
  shows "binade x = e"
proof -
  have pos: "0 < \<bar>x\<bar>" using assms(1) by (smt (verit) zero_less_power_int)
  have "\<lfloor>log 2 \<bar>x\<bar>\<rfloor> = e"
    using assms(1,2) floor_log_eq_powr_iff[of "\<bar>x\<bar>" 2 e] pos powr_powi[of e] powr_powi[of "e + 1"]
    by simp
  with assms(3) show ?thesis by (simp add: binade_def)
qed

lemma binade_small:
  assumes "x \<noteq> 0" "\<bar>x\<bar> < 2 powi (- 1022)"
  shows "binade x = - 1022"
proof -
  have pos: "0 < \<bar>x\<bar>" using assms(1) by simp
  have "log 2 \<bar>x\<bar> < of_int (- 1022)"
    using assms(2) pos powr_powi[of "- 1022"] by (simp add: log_less_iff)
  then have "\<lfloor>log 2 \<bar>x\<bar>\<rfloor> < - 1022" by (simp add: floor_less_iff)
  then show ?thesis by (simp add: binade_def)
qed

lemma binade_upper:
  assumes "x \<noteq> 0"
  shows "\<bar>x\<bar> < 2 powi (binade x + 1)"
proof -
  have pos: "0 < \<bar>x\<bar>" using assms by simp
  define k where "k = \<lfloor>log 2 \<bar>x\<bar>\<rfloor>"
  have "\<bar>x\<bar> < 2 powr (of_int (k + 1))"
    using floor_log_eq_powr_iff[of "\<bar>x\<bar>" 2 k] pos by (simp add: k_def)
  then have a: "\<bar>x\<bar> < 2 powi (k + 1)" by (simp only: powr_powi)
  have "k \<le> binade x" by (simp add: binade_def k_def)
  then have "(2::real) powi (k + 1) \<le> 2 powi (binade x + 1)"
    by (intro power_int_increasing) auto
  with a show ?thesis by linarith
qed

lemma binade_lower:
  assumes "x \<noteq> 0" "- 1022 < binade x"
  shows "2 powi (binade x) \<le> \<bar>x\<bar>"
proof -
  have pos: "0 < \<bar>x\<bar>" using assms by simp
  define k where "k = \<lfloor>log 2 \<bar>x\<bar>\<rfloor>"
  have kb: "binade x = k" using assms(2) by (simp add: binade_def k_def max_def split: if_splits)
  have "2 powr (of_int k) \<le> \<bar>x\<bar>"
    using floor_log_eq_powr_iff[of "\<bar>x\<bar>" 2 k] pos by (simp add: k_def)
  then show ?thesis by (simp only: powr_powi kb)
qed

lemma binade_mono:
  assumes "0 < x" "x \<le> y"
  shows "binade x \<le> binade y"
proof -
  have "log 2 \<bar>x\<bar> \<le> log 2 \<bar>y\<bar>" using assms by simp
  then have "\<lfloor>log 2 \<bar>x\<bar>\<rfloor> \<le> \<lfloor>log 2 \<bar>y\<bar>\<rfloor>" by (rule floor_mono)
  then show ?thesis by (simp add: binade_def)
qed


lemma ulp_pos [simp]: "0 < ulp x"
  by (simp add: ulp_def)

lemma ulp_nonneg [simp]: "0 \<le> ulp x"
  by (simp add: ulp_def)

lemma two_powi_lessD: "(2::real) powi a < 2 powi b \<Longrightarrow> a < b"
proof (rule ccontr)
  assume "(2::real) powi a < 2 powi b" and "\<not> a < b"
  then have "(2::real) powi b \<le> 2 powi a" by (intro power_int_increasing) auto
  with \<open>(2::real) powi a < 2 powi b\<close> show False by simp
qed

lemma ulp_times: "ulp x * 2 ^ 52 = 2 powi (binade x)" "ulp x * 2 ^ 53 = 2 powi (binade x + 1)"
proof -
  have "(2::real) powi (binade x - 52) * 2 powi 52 = 2 powi (binade x - 52 + 52)"
    by (subst power_int_add) auto
  then show "ulp x * 2 ^ 52 = 2 powi (binade x)" by (simp add: ulp_def)
  have "(2::real) powi (binade x - 52) * 2 powi 53 = 2 powi (binade x - 52 + 53)"
    by (subst power_int_add) auto
  then show "ulp x * 2 ^ 53 = 2 powi (binade x + 1)" by (simp add: ulp_def add.commute)
qed

lemma nearest_nonneg: "0 \<le> nearest x"
  by (simp add: nearest_def rne_nonneg)

lemma nearest_le_top:
  assumes "x \<noteq> 0"
  shows "nearest x \<le> 2 powi (binade x + 1)"
proof -
  have "\<bar>x\<bar> / ulp x \<le> 2 ^ 53"
    using binade_upper[OF assms] ulp_times(2)[of x] by (simp add: field_simps)
  then have "rne (\<bar>x\<bar> / ulp x) \<le> rne (of_int (2 ^ 53))" by (intro rne_mono) simp
  then have "of_int (rne (\<bar>x\<bar> / ulp x)) \<le> (2 ^ 53 :: real)"
    by (simp only: rne_of_int) (metis of_int_le_iff of_int_numeral of_int_power)
  then have "nearest x \<le> 2 ^ 53 * ulp x"
    unfolding nearest_def by (intro mult_right_mono) auto
  then show ?thesis using ulp_times(2)[of x] by (simp add: mult.commute)
qed

lemma nearest_ge_bot:
  assumes "2 powi (binade x) \<le> \<bar>x\<bar>"
  shows "2 powi (binade x) \<le> nearest x"
proof -
  have "2 ^ 52 \<le> \<bar>x\<bar> / ulp x"
    using assms ulp_times(1)[of x] by (simp add: field_simps)
  then have "rne (of_int (2 ^ 52)) \<le> rne (\<bar>x\<bar> / ulp x)" by (intro rne_mono) simp
  then have "(2 ^ 52 :: real) \<le> of_int (rne (\<bar>x\<bar> / ulp x))"
    by (simp only: rne_of_int) (metis of_int_le_iff of_int_numeral of_int_power)
  then have "2 ^ 52 * ulp x \<le> nearest x"
    unfolding nearest_def by (intro mult_right_mono) auto
  then show ?thesis using ulp_times(1)[of x] by (simp add: mult.commute)
qed

lemma nearest_mono:
  assumes "0 < x" "x \<le> y"
  shows "nearest x \<le> nearest y"
proof (cases "binade x = binade y")
  case True
  then have u: "ulp x = ulp y" by (simp add: ulp_def)
  have "\<bar>x\<bar> / ulp y \<le> \<bar>y\<bar> / ulp y" using assms by (simp add: divide_right_mono)
  then have "rne (\<bar>x\<bar> / ulp y) \<le> rne (\<bar>y\<bar> / ulp y)" by (rule rne_mono)
  then show ?thesis unfolding nearest_def u by (intro mult_right_mono) auto
next
  case False
  with binade_mono[OF assms] have lt: "binade x < binade y" by simp
  have "- 1022 \<le> binade x" by (simp add: binade_def)
  with lt have "- 1022 < binade y" by simp
  with assms have "2 powi (binade y) \<le> \<bar>y\<bar>" by (intro binade_lower) auto
  then have a: "2 powi (binade y) \<le> nearest y" by (rule nearest_ge_bot)
  have b: "nearest x \<le> 2 powi (binade x + 1)" using assms by (intro nearest_le_top) auto
  have "(2::real) powi (binade x + 1) \<le> 2 powi (binade y)"
    using lt by (intro power_int_increasing) auto
  with a b show ?thesis by linarith
qed

lemma round_double_pos:
  assumes "0 < x"
  shows "round_double x = (if 2 powi 1024 \<le> nearest x then PInf else Fin (nearest x))"
  using assms by (simp add: round_double_def)

lemma round_double_mono:
  assumes "0 < x" "x \<le> y"
  shows "py_le (round_double x) (round_double y)"
proof -
  have y: "0 < y" using assms by simp
  show ?thesis
    using nearest_mono[OF assms] by (simp add: round_double_pos[OF assms(1)] round_double_pos[OF y])
qed

lemma round_double_neg: "round_double (- x) = (case round_double x of Fin y \<Rightarrow> Fin (- y)
     | PInf \<Rightarrow> NInf | NInf \<Rightarrow> PInf | NaN \<Rightarrow> NaN)"
proof -
  have "binade (- x) = binade x" by (simp add: binade_def)
  then have "nearest (- x) = nearest x" by (simp add: nearest_def ulp_def)
  then show ?thesis by (auto simp: round_double_def)
qed

text \<open>Rounding a value that sits within half a unit of a grid point of its binade.\<close>

lemma round_double_near:
  assumes "2 powi e \<le> x" "x < 2 powi (e + 1)" "- 1022 \<le> e"
    and "\<bar>x / 2 powi (e - 52) - of_int q\<bar> < 1 / 2"
    and "of_int q * 2 powi (e - 52) < (2::real) powi 1024"
  shows "round_double x = Fin (of_int q * 2 powi (e - 52))"
proof -
  have pos: "0 < x" using assms(1) by (smt (verit) zero_less_power_int)
  have b: "binade x = e" using assms(1,2,3) pos by (intro binade_eqI) auto
  have "rne (\<bar>x\<bar> / ulp x) = q" using assms(4) pos by (intro rne_near) (simp add: ulp_def b)
  then have "nearest x = of_int q * 2 powi (e - 52)" by (simp add: nearest_def ulp_def b)
  with assms(5) pos show ?thesis by (simp add: round_double_pos)
qed

text \<open>Below the normal range the grid is that of the lowest binade.\<close>

lemma round_double_near_subnormal:
  assumes "0 < x" "x < 2 powi (- 1022)"
    and "\<bar>x / 2 powi (- 1074) - of_int q\<bar> < 1 / 2"
  shows "round_double x = Fin (of_int q * 2 powi (- 1074))"
proof -
  have b: "binade x = - 1022" using assms(1,2) by (intro binade_small) auto
  have "rne (\<bar>x\<bar> / ulp x) = q" using assms(1,3) by (intro rne_near) (simp add: ulp_def b)
  then have n: "nearest x = of_int q * 2 powi (- 1074)" by (simp add: nearest_def ulp_def b)
  have "nearest x \<le> 2 powi (- 1021)" using nearest_le_top[of x] assms(1) b by simp
  also have "\<dots> < (2::real) powi 1024" by (intro power_int_strict_increasing) auto
  finally show ?thesis using n assms(1) by (simp add: round_double_pos)
qed

lemma is_double_posD:
  assumes "is_double p" "0 < p"
  shows "nearest p = p" and "p < 2 powi 1024"
  using assms by (auto simp: is_double_def round_double_pos split: if_splits)

lemma is_double_posI: "0 < p \<Longrightarrow> nearest p = p \<Longrightarrow> p < 2 powi 1024 \<Longrightarrow> is_double p"
  by (simp add: is_double_def round_double_pos)

text \<open>A positive multiple of a power of two with a significand below \<open>2^53\<close> is a double.\<close>

lemma is_double_multiple:
  assumes "0 < m" "m < 2 ^ 53" "- 1074 \<le> k" "of_int m * 2 powi k < (2::real) powi 1024"
  shows "is_double (of_int m * 2 powi k)"
proof -
  define x :: real where "x = of_int m * 2 powi k"
  have pos: "0 < x" using assms(1) by (simp add: x_def)
  have "x < 2 ^ 53 * 2 powi k"
    unfolding x_def using assms(2) by (intro mult_strict_right_mono) (auto simp: of_int_less_iff[symmetric] simp del: of_int_less_iff)
  also have "\<dots> = 2 powi (k + 53)" by (subst power_int_add) (auto simp: mult.commute)
  finally have xlt: "x < 2 powi (k + 53)" .
  have bk: "binade x - 52 \<le> k"
  proof (cases "- 1022 < binade x")
    case True
    then have "2 powi (binade x) \<le> \<bar>x\<bar>" using pos by (intro binade_lower) auto
    with xlt pos have "(2::real) powi (binade x) < 2 powi (k + 53)" by simp
    then have "binade x < k + 53" by (rule two_powi_lessD)
    then show ?thesis by simp
  next
    case False
    moreover have "- 1022 \<le> binade x" by (simp add: binade_def)
    ultimately show ?thesis using assms(3) by simp
  qed
  define j where "j = nat (k - (binade x - 52))"
  have "(2::real) powi k = 2 powi (binade x - 52) * 2 powi (int j)"
    using bk by (subst power_int_add[symmetric]) (auto simp: j_def)
  then have ku: "(2::real) powi k = ulp x * 2 ^ j" by (simp add: ulp_def)
  have x1: "x = of_int m * (ulp x * 2 ^ j)" using ku by (simp add: x_def)
  have "of_int m * (ulp x * 2 ^ j) = of_int (m * 2 ^ j) * ulp x" by simp
  with x1 have "x = of_int (m * 2 ^ j) * ulp x" by (rule trans)
  then have q: "\<bar>x\<bar> / ulp x = of_int (m * 2 ^ j)"
    using pos ulp_pos[of x] by (metis abs_of_pos nonzero_eq_divide_eq less_numeral_extra(3))
  then have "rne (\<bar>x\<bar> / ulp x) = m * 2 ^ j" by (simp only: rne_of_int)
  then have "nearest x = of_int (m * 2 ^ j) * ulp x" by (simp add: nearest_def)
  also have "\<dots> = \<bar>x\<bar>" using q ulp_pos[of x] by (simp add: field_simps)
  finally have "nearest x = x" using pos by simp
  then show ?thesis using pos assms(4) unfolding x_def[symmetric] by (intro is_double_posI) auto
qed


lemma is_double_pos_ge:
  assumes "is_double p" "0 < p"
  shows "2 powi (- 1074) \<le> p"
proof -
  define q where "q = rne (\<bar>p\<bar> / ulp p)"
  have p: "p = of_int q * ulp p" using is_double_posD(1)[OF assms] by (simp add: nearest_def q_def)
  have "0 < of_int q * ulp p" using p assms(2) by simp
  then have "0 < q" using ulp_pos[of p] by (auto simp: zero_less_mult_iff)
  then have "1 \<le> (of_int q :: real)" by simp
  then have "1 * ulp p \<le> of_int q * ulp p" by (intro mult_right_mono) auto
  then have "ulp p \<le> p" using p by simp
  moreover have "- 1022 \<le> binade p" by (simp add: binade_def)
  then have "(2::real) powi (- 1074) \<le> ulp p"
    unfolding ulp_def by (intro power_int_increasing) auto
  ultimately show ?thesis by linarith
qed

text \<open>From \<open>2^24\<close> on, adding less than \<open>2^-29\<close> to a double gives the same double.\<close>

lemma round_double_absorb:
  assumes "is_double p" "2 ^ 24 \<le> p" "0 \<le> e" "e < 2 powi (- 29)"
  shows "round_double (p + e) = Fin p"
proof -
  have pos: "0 < p" using assms(2) by (smt (verit) zero_less_power)
  define q where "q = rne (\<bar>p\<bar> / ulp p)"
  have p: "p = of_int q * ulp p" using is_double_posD(1)[OF assms(1) pos] by (simp add: nearest_def q_def)
  have b24: "binade (2 ^ 24) = 24"
    by (rule binade_eqI) simp_all
  have "binade (2 ^ 24) \<le> binade p" using assms(2) by (intro binade_mono) auto
  with b24 have b: "24 \<le> binade p" by linarith
  then have lo: "2 powi (binade p) \<le> \<bar>p\<bar>" using pos by (intro binade_lower) auto
  have "(2::real) powi (- 28) \<le> ulp p"
    unfolding ulp_def using b by (intro power_int_increasing) auto
  then have eu: "e < ulp p / 2" using assms(4) by (simp add: power_int_minus field_simps)
  have "of_int q * ulp p < 2 ^ 53 * ulp p"
    using binade_upper[of p] pos p ulp_times(2)[of p] by (simp add: mult.commute)
  then have "of_int q < (2 ^ 53 :: real)" by (simp add: mult_less_cancel_right)
  then have "q < 2 ^ 53" by (metis of_int_less_iff of_int_numeral of_int_power)
  then have "q + 1 \<le> 2 ^ 53" by simp
  then have "of_int (q + 1) \<le> (2 ^ 53 :: real)" by (metis of_int_le_iff of_int_numeral of_int_power)
  then have "of_int (q + 1) * ulp p \<le> 2 ^ 53 * ulp p" by (intro mult_right_mono) auto
  then have "p + ulp p \<le> 2 powi (binade p + 1)"
    using p ulp_times(2)[of p] by (simp add: algebra_simps)
  with eu have up: "p + e < 2 powi (binade p + 1)" using ulp_pos[of p] by linarith
  have be: "binade (p + e) = binade p"
    using lo pos assms(3) up b by (intro binade_eqI) auto
  have ue: "ulp (p + e) = ulp p" by (simp add: ulp_def be)
  have "p / ulp p = of_int q"
    using p ulp_pos[of p] by (metis nonzero_eq_divide_eq less_numeral_extra(3))
  then have "(p + e) / ulp p = of_int q + e / ulp p"
    by (simp add: add_divide_distrib)
  moreover have "0 \<le> e / ulp p" "e / ulp p < 1 / 2"
    using assms(3) eu ulp_pos[of p] by (simp_all add: field_simps)
  ultimately have "\<bar>(p + e) / ulp p - of_int q\<bar> < 1 / 2" by linarith
  then have "rne (\<bar>p + e\<bar> / ulp (p + e)) = q"
    using pos assms(3) by (intro rne_near) (simp add: ue)
  then have "nearest (p + e) = p" using p by (simp add: nearest_def ue)
  then show ?thesis
    using pos assms(3) is_double_posD(2)[OF assms(1) pos] by (simp add: round_double_pos)
qed

lemma round_literal: "round_double (1 / 10 ^ 9) = Fin eps9"
  unfolding eps9_def
  using round_double_near[of "- 30" "1 / 10 ^ 9" 4835703278458517]
  by (simp add: power_int_minus)

lemma is_double_eps9: "is_double eps9"
  unfolding eps9_def
  using is_double_multiple[of 4835703278458517 "- 82"] by (simp add: power_int_minus)

lemma is_double_one: "is_double 1"
  using is_double_multiple[of 1 0] by simp

lemma round_1000_plus: "round_double (1000 + eps9) = Fin (1000 + 8796 * 2 powi (- 43))"
  unfolding eps9_def
  using round_double_near[of 9 "1000 + 4835703278458517 * 2 powi (- 82)" "1000 * 2 ^ 43 + 8796"]
  by (simp add: power_int_minus field_simps)

lemma round_ratio_1000:
  "round_double (1000 / (1000 + 8796 * 2 powi (- 43))) = Fin (1 - 9007 * 2 powi (- 53))"
  using round_double_near[of "- 1" "1000 / (1000 + 8796 * 2 powi (- 43))" "2 ^ 53 - 9007"]
  by (simp add: power_int_minus field_simps)

text \<open>Rounding gives a double, and a double stays one when it is doubled.\<close>

lemma nearest_is_double:
  assumes "0 < x" "nearest x < 2 powi 1024"
  shows "is_double (nearest x)"
proof (cases "nearest x = 0")
  case True
  then show ?thesis by (simp add: is_double_def round_double_def)
next
  case False
  define q where "q = rne (\<bar>x\<bar> / ulp x)"
  have n: "nearest x = of_int q * ulp x" by (simp add: nearest_def q_def)
  have "0 < nearest x" using False nearest_nonneg[of x] by linarith
  then have "0 < of_int q * ulp x" using n by simp
  then have qpos: "0 < q" using ulp_pos[of x] by (auto simp: zero_less_mult_iff)
  have "of_int q * ulp x \<le> 2 ^ 53 * ulp x"
    using nearest_le_top[of x] assms(1) n ulp_times(2)[of x] by (simp add: mult.commute)
  then have "of_int q \<le> (2 ^ 53 :: real)" using ulp_pos[of x] by (simp add: mult_le_cancel_right)
  then have qle: "q \<le> 2 ^ 53" by (metis of_int_le_iff of_int_numeral of_int_power)
  have k: "- 1074 \<le> binade x - 52" by (simp add: binade_def)
  show ?thesis
  proof (cases "q < 2 ^ 53")
    case True
    have "is_double (of_int q * 2 powi (binade x - 52))"
      using qpos True k assms(2) n by (intro is_double_multiple) (auto simp: ulp_def)
    then show ?thesis by (simp add: n ulp_def)
  next
    case False
    with qle have "q = 2 ^ 53" by simp
    then have e: "nearest x = of_int 1 * 2 powi (binade x + 1)"
      using n ulp_times(2)[of x] by (simp add: mult.commute)
    have "is_double (of_int 1 * 2 powi (binade x + 1))"
      using k assms(2) e by (intro is_double_multiple) auto
    then show ?thesis by (simp add: e)
  qed
qed

lemma round_double_is_double:
  assumes "0 < x" "round_double x = Fin y"
  shows "is_double y"
  using assms nearest_is_double[of x]
  by (auto simp: round_double_pos split: if_splits simp: not_le)

lemma is_double_decomp:
  assumes "is_double p" "0 < p"
  shows "\<exists>m k. p = of_int m * 2 powi k \<and> 0 < m \<and> m \<le> 2 ^ 53 \<and> - 1074 \<le> k"
proof -
  define q where "q = rne (\<bar>p\<bar> / ulp p)"
  have p: "p = of_int q * ulp p" using is_double_posD(1)[OF assms] by (simp add: nearest_def q_def)
  have "0 < of_int q * ulp p" using p assms(2) by simp
  then have qpos: "0 < q" using ulp_pos[of p] by (auto simp: zero_less_mult_iff)
  have "of_int q * ulp p \<le> 2 ^ 53 * ulp p"
    using binade_upper[of p] assms(2) p ulp_times(2)[of p] by (simp add: mult.commute)
  then have "of_int q \<le> (2 ^ 53 :: real)" using ulp_pos[of p] by (simp add: mult_le_cancel_right)
  then have qle: "q \<le> 2 ^ 53" by (metis of_int_le_iff of_int_numeral of_int_power)
  have k: "- 1074 \<le> binade p - 52" by (simp add: binade_def)
  from p have "p = of_int q * 2 powi (binade p - 52)" by (simp add: ulp_def)
  with qpos qle k show ?thesis by blast
qed

lemma is_double_multiple_le:
  assumes "0 < m" "m \<le> 2 ^ 53" "- 1074 \<le> k" "of_int m * 2 powi k < (2::real) powi 1024"
  shows "is_double (of_int m * 2 powi k)"
proof (cases "m < 2 ^ 53")
  case True
  with assms show ?thesis by (intro is_double_multiple) auto
next
  case False
  with assms(2) have m: "m = 2 ^ 53" by simp
  have "(2::real) powi 53 * 2 powi k = 2 powi (53 + k)" by (subst power_int_add) auto
  then have e: "of_int m * 2 powi k = of_int 1 * (2::real) powi (k + 53)"
    by (simp add: m add.commute)
  have "is_double (of_int 1 * 2 powi (k + 53))"
    using assms(3,4) e by (intro is_double_multiple) auto
  then show ?thesis by (simp only: e)
qed

lemma is_double_twice:
  assumes "is_double p" "0 < p" "2 * p < 2 powi 1024"
  shows "is_double (2 * p)"
proof -
  from is_double_decomp[OF assms(1,2)] obtain m k where
    p: "p = of_int m * 2 powi k" and m: "0 < m" "m \<le> 2 ^ 53" and k: "- 1074 \<le> k" by blast
  have "(2::real) powi k * 2 powi 1 = 2 powi (k + 1)" by (subst power_int_add) auto
  then have e: "2 * p = of_int m * 2 powi (k + 1)" by (simp add: p)
  have "is_double (of_int m * 2 powi (k + 1))"
    using m k assms(3) e by (intro is_double_multiple_le) auto
  then show ?thesis by (simp only: e)
qed

text \<open>Rounding keeps a value between two doubles that enclose it.\<close>

lemma round_double_between:
  assumes "is_double l" "is_double u" "0 < l" "l \<le> x" "x \<le> u"
  shows "\<exists>y. round_double x = Fin y \<and> l \<le> y \<and> y \<le> u"
proof -
  have x: "0 < x" using assms(3,4) by simp
  have "py_le (round_double l) (round_double x)" using assms(3,4) by (rule round_double_mono)
  then have a: "py_le (Fin l) (round_double x)" using assms(1) by (simp add: is_double_def)
  have "py_le (round_double x) (round_double u)" using x assms(5) by (rule round_double_mono)
  then have b: "py_le (round_double x) (Fin u)" using assms(2) by (simp add: is_double_def)
  from a b show ?thesis by (cases "round_double x") auto
qed

lemma is_double_least: "is_double (2 powi (- 1074))"
  using is_double_multiple[of 1 "- 1074"] by (simp add: power_int_minus)

lemma is_double_two_eps9: "is_double (2 * eps9)"
  using is_double_twice[OF is_double_eps9] by (simp add: eps9_def power_int_minus)

lemma is_double_numerals:
  "is_double 2" "is_double 1000" "is_double 2000" "is_double 5000000" "is_double (2 ^ 25)"
proof -
  show "is_double 2" using is_double_multiple[of 2 0] by simp
  show "is_double 1000" using is_double_multiple[of 1000 0] by simp
  show "is_double 2000" using is_double_multiple[of 2000 0] by simp
  show "is_double 5000000" using is_double_multiple[of 5000000 0] by simp
  show "is_double (2 ^ 25)" using is_double_multiple[of 33554432 0] by simp
qed

lemma round_double_minus:
  "is_double x \<Longrightarrow> round_double (- x) = Fin (- x)"
  by (simp add: round_double_neg is_double_def)

text \<open>The roundings of the example runs.\<close>

lemma round_adjusted_1000:
  "round_double (1000 * (1 - 9007 * 2 powi (- 53))) = Fin (1000 - 8796 * 2 powi (- 43))"
  using round_double_near[of 9 "1000 * (1 - 9007 * 2 powi (- 53))" "1000 * 2 ^ 43 - 8796"]
  by (simp add: power_int_minus field_simps)

lemma round_5000000_plus: "round_double (5000000 + eps9) = Fin (5000000 + 2 powi (- 30))"
  unfolding eps9_def
  using round_double_near[of 22 "5000000 + 4835703278458517 * 2 powi (- 82)" "5000000 * 2 ^ 30 + 1"]
  by (simp add: power_int_minus field_simps)

lemma round_ratio_5000000:
  "round_double (5000000 / (5000000 + 2 powi (- 30))) = Fin (1 - 2 powi (- 52))"
  using round_double_near[of "- 1" "5000000 / (5000000 + 2 powi (- 30))" "2 ^ 53 - 2"]
  by (simp add: power_int_minus field_simps)

lemma round_adjusted_5000000:
  "round_double (1000 * (1 - 2 powi (- 52))) = Fin (1000 - 2 powi (- 42))"
  using round_double_near[of 9 "1000 * (1 - 2 powi (- 52))" "1000 * 2 ^ 43 - 2"]
  by (simp add: power_int_minus field_simps)

lemma round_adjusted_mean:
  "round_double (1000 * (1 - 2 powi (- 53))) = Fin (1000 - 2 powi (- 43))"
  using round_double_near[of 9 "1000 * (1 - 2 powi (- 53))" "1000 * 2 ^ 43 - 1"]
  by (simp add: power_int_minus field_simps)

lemma round_high_plus: "round_double (2 ^ 25 + eps9) = Fin (2 ^ 25)"
  using round_double_absorb[of "2 ^ 25" eps9] is_double_numerals(5)
  by (simp add: eps9_def power_int_minus)

lemma round_mean_of_ratios:
  "round_double (1 - 2 powi (- 52) + 1) = Fin (2 - 2 powi (- 52))"
  "round_double ((2 - 2 powi (- 52)) / 2) = Fin (1 - 2 powi (- 53))"
proof -
  have "is_double (of_int (2 ^ 53 - 1) * 2 powi (- 52))"
    by (intro is_double_multiple) (simp_all add: power_int_minus)
  then show "round_double (1 - 2 powi (- 52) + 1) = Fin (2 - 2 powi (- 52))"
    by (simp add: is_double_def power_int_minus field_simps)
  have "is_double (of_int (2 ^ 53 - 1) * 2 powi (- 53))"
    by (intro is_double_multiple) (simp_all add: power_int_minus)
  then show "round_double ((2 - 2 powi (- 52)) / 2) = Fin (1 - 2 powi (- 53))"
    by (simp add: is_double_def power_int_minus field_simps)
qed

section \<open>Properties of the geocode cache\<close>

lemma rows_read_simps:
  "cache d = Missing \<Longrightarrow> rows_read d = []"
  "cache d = Unreadable \<Longrightarrow> rows_read d = []"
  "cache d = NoAddressColumn \<Longrightarrow> rows_read d = []"
  by (simp_all add: rows_read_def read_geocode_cache_df_def)

lemma read_frame:
  "cache d \<noteq> NoAddressColumn \<Longrightarrow> read_geocode_cache_df d = Frame (rows_read d)"
  by (cases "cache d") (simp_all add: rows_read_def read_geocode_cache_df_def)

lemma read_headless: "cache d = NoAddressColumn \<Longrightarrow> read_geocode_cache_df d = WithoutAddress"
  by (simp add: read_geocode_cache_df_def)

lemma has_entry_frame: "has_entry address d \<Longrightarrow> cache d \<noteq> NoAddressColumn"
  by (auto simp: has_entry_def rows_read_simps matching_def)

text \<open>A missing address is written as the empty field, which is read as missing again.\<close>

lemma read_write_address:
  "read_address (write_address a)
     = (case a of None \<Rightarrow> None | Some s \<Rightarrow> if s \<in> set na_values then None else Some s)"
  by (cases a) (simp_all add: read_address_def write_address_def na_values_def)

lemma rows_after_write:
  "rows_read (d\<lparr>cache := to_csv d updated\<rparr>)
     = map (\<lambda>(a, lat, lon). (read_address (write_address a),
              map_option (csv_float d Lat) lat, map_option (csv_float d Lon) lon)) updated"
  by (simp add: rows_read_def read_geocode_cache_df_def to_csv_def comp_def case_prod_beta)

lemma cache_after_write: "cache (d\<lparr>cache := to_csv d updated\<rparr>) \<noteq> NoAddressColumn"
  by (simp add: to_csv_def)

lemma lookup_rows:
  "cache d \<noteq> NoAddressColumn \<Longrightarrow>
   cache_lookup address d
     = Inr (case matching address (rows_read d) of
              [] \<Rightarrow> None
            | (a, Some lat, Some lon) # rest \<Rightarrow> Some (lat, lon)
            | _ \<Rightarrow> None)"
  by (simp add: cache_lookup_def read_frame)

lemma lookup_headless: "cache d = NoAddressColumn \<Longrightarrow> cache_lookup address d = Inl KeyError"
  by (simp add: cache_lookup_def read_headless)

lemma append_present: "has_entry address d \<Longrightarrow> append_geocode_cache_df address lat lon d = d"
  using has_entry_frame[of address d]
  by (simp add: append_geocode_cache_df_def read_frame has_entry_def)

lemma append_headless:
  "cache d = NoAddressColumn \<Longrightarrow> append_geocode_cache_df address lat lon d = d"
  by (simp add: append_geocode_cache_df_def read_headless)

lemma append_readonly: "\<not> writable d \<Longrightarrow> append_geocode_cache_df address lat lon d = d"
  by (simp add: append_geocode_cache_df_def split: cache_frame.splits)

lemma append_absent:
  "cache d \<noteq> NoAddressColumn \<Longrightarrow> \<not> has_entry address d \<Longrightarrow> writable d \<Longrightarrow>
   append_geocode_cache_df address lat lon d
     = d\<lparr>cache := to_csv d (rows_read d @ [(Some address, Some lat, Some lon)])\<rparr>"
  by (simp add: append_geocode_cache_df_def read_frame has_entry_def)

text \<open>Rewriting the file never gives a row an address it did not have.\<close>

lemma matching_rewritten:
  assumes "matching address cache_df = []"
  shows "matching address
           (map (\<lambda>(a, lat, lon). (read_address (write_address a),
                   map_option f lat, map_option g lon)) cache_df) = []"
  using assms
  by (induction cache_df)
     (auto simp: matching_def read_write_address split: option.splits if_splits)

lemma lookup_after_first_store:
  assumes "cache d \<noteq> NoAddressColumn" "\<not> has_entry address d" "writable d"
    and "address \<notin> set na_values"
  shows "cache_lookup address (append_geocode_cache_df address lat lon d)
           = Inr (Some (csv_float d Lat lat, csv_float d Lon lon))"
proof -
  let ?d' = "d\<lparr>cache := to_csv d (rows_read d @ [(Some address, Some lat, Some lon)])\<rparr>"
  have old: "matching address
           (map (\<lambda>(a, lat, lon). (read_address (write_address a),
                   map_option (csv_float d Lat) lat, map_option (csv_float d Lon) lon)) (rows_read d)) = []"
    using assms(2) by (intro matching_rewritten) (simp add: has_entry_def)
  have "matching address (rows_read ?d')
          = [(Some address, Some (csv_float d Lat lat), Some (csv_float d Lon lon))]"
    using old assms(4) by (simp add: rows_after_write matching_def read_write_address)
  then have "cache_lookup address ?d' = Inr (Some (csv_float d Lat lat, csv_float d Lon lon))"
    by (simp only: lookup_rows[OF cache_after_write]) simp
  then show ?thesis using assms(1,2,3) by (simp add: append_absent)
qed

lemma entries_after_store:
  assumes "address \<notin> set na_values"
  shows "entries address (append_geocode_cache_df address lat lon d)
           = (if has_entry address d \<or> \<not> writable d \<or> cache d = NoAddressColumn
              then entries address d else 1)"
proof (cases "has_entry address d \<or> \<not> writable d \<or> cache d = NoAddressColumn")
  case True
  then show ?thesis by (auto simp: append_present append_readonly append_headless)
next
  case False
  then have old: "matching address
           (map (\<lambda>(a, lat, lon). (read_address (write_address a),
                   map_option (csv_float d Lat) lat, map_option (csv_float d Lon) lon)) (rows_read d)) = []"
    by (intro matching_rewritten) (simp add: has_entry_def)
  show ?thesis
    using False old assms
    by (simp add: append_absent entries_def rows_after_write matching_def read_write_address)
qed

lemma has_entry_after_store:
  assumes "cache d \<noteq> NoAddressColumn" "writable d" "address \<notin> set na_values"
  shows "has_entry address (append_geocode_cache_df address lat lon d)"
proof (cases "has_entry address d")
  case True
  then show ?thesis by (simp add: append_present)
next
  case False
  then show ?thesis
    using assms
    by (simp add: append_absent has_entry_def rows_after_write matching_def read_write_address)
qed

lemma disk_of_fields:
  "cache (disk_of file) = file" "writable (disk_of file)" "csv_float (disk_of file) c x = x"
  by (simp_all add: disk_of_def)

lemma plain_addresses: "''a'' \<notin> set na_values" "''NA'' \<in> set na_values"
  by (simp_all add: na_values_def)

lemma store_on_empty_disk:
  "append_geocode_cache_df ''a'' (Fin 1) (Fin 2) empty_disk = one_entry_disk"
  by (simp add: append_geocode_cache_df_def read_geocode_cache_df_def matching_def to_csv_def
      write_address_def empty_disk_def one_entry_disk_def disk_of_def)

lemma one_entry_disk_facts:
  "has_entry ''a'' one_entry_disk" "entries ''a'' one_entry_disk = 1"
  "cache_lookup ''a'' one_entry_disk = Inr (Some (Fin 1, Fin 2))"
  by (simp_all add: has_entry_def entries_def cache_lookup_def rows_read_def
      read_geocode_cache_df_def read_address_def plain_addresses matching_def one_entry_disk_def
      disk_of_def)

lemma empty_disk_facts:
  "\<not> has_entry ''a'' empty_disk" "writable empty_disk" "cache_lookup ''a'' empty_disk = Inr None"
  "cache empty_disk \<noteq> NoAddressColumn"
  by (simp_all add: has_entry_def cache_lookup_def rows_read_def read_geocode_cache_df_def
      matching_def empty_disk_def disk_of_def)

text \<open>
  Claim C4, as amended. A store keeps the first entry of an address, so the round trip
  holds for an address without an entry, in a file that is missing, unreadable or a table:
  when the address is none of the missing-value markers, after a store that writes, the
  lookup returns the stored coordinates as the file reads them back, which are the stored
  pair itself when both numbers are read back as written. For an address that already has
  an entry the lookup returns what it returned before the store.
\<close>

theorem store_lookup_roundtrip:
  "(cache d \<noteq> NoAddressColumn \<and> \<not> has_entry address d \<and> writable d \<and> address \<notin> set na_values \<longrightarrow>
      cache_lookup address (append_geocode_cache_df address lat lon d)
        = Inr (Some (csv_float d Lat lat, csv_float d Lon lon))
      \<and> (csv_float d Lat lat = lat \<and> csv_float d Lon lon = lon \<longrightarrow>
           cache_lookup address (append_geocode_cache_df address lat lon d) = Inr (Some (lat, lon))))
   \<and> (has_entry address d \<longrightarrow>
      cache_lookup address (append_geocode_cache_df address lat lon d) = cache_lookup address d)"
  using lookup_after_first_store[of d address lat lon]
  by (auto simp: append_present)

theorem store_lookup_roundtrip_witness:
  "cache empty_disk \<noteq> NoAddressColumn \<and> \<not> has_entry ''a'' empty_disk \<and> writable empty_disk
   \<and> ''a'' \<notin> set na_values
   \<and> csv_float empty_disk Lat (Fin 1) = Fin 1 \<and> csv_float empty_disk Lon (Fin 2) = Fin 2
   \<and> cache_lookup ''a'' (append_geocode_cache_df ''a'' (Fin 1) (Fin 2) empty_disk)
       = Inr (Some (Fin 1, Fin 2))
   \<and> has_entry ''a'' one_entry_disk
   \<and> cache_lookup ''a'' (append_geocode_cache_df ''a'' (Fin 3) (Fin 4) one_entry_disk)
       = Inr (Some (Fin 1, Fin 2))"
proof -
  have c: "csv_float empty_disk Lat (Fin 1) = Fin 1" "csv_float empty_disk Lon (Fin 2) = Fin 2"
    by (simp_all add: empty_disk_def disk_of_fields)
  note t1 = store_lookup_roundtrip[of empty_disk "''a''" "Fin 1" "Fin 2"]
  note t2 = store_lookup_roundtrip[of one_entry_disk "''a''" "Fin 3" "Fin 4"]
  from t1 empty_disk_facts plain_addresses(1) c
  have r1: "cache_lookup ''a'' (append_geocode_cache_df ''a'' (Fin 1) (Fin 2) empty_disk)
       = Inr (Some (Fin 1, Fin 2))" by blast
  from t2 one_entry_disk_facts
  have r2: "cache_lookup ''a'' (append_geocode_cache_df ''a'' (Fin 3) (Fin 4) one_entry_disk)
       = Inr (Some (Fin 1, Fin 2))" by simp
  from r1 r2 empty_disk_facts plain_addresses(1) c one_entry_disk_facts(1) show ?thesis by blast
qed

text \<open>
  The claim as stated fails where the address already has an entry with other
  coordinates: after \<open>store(a, 3, 4)\<close> on a cache holding \<open>(a, 1, 2)\<close> the lookup does not
  return \<open>(3, 4)\<close>.
\<close>

theorem store_lookup_roundtrip_counterexample:
  "cache_lookup ''a'' (append_geocode_cache_df ''a'' (Fin 3) (Fin 4) one_entry_disk)
     \<noteq> Inr (Some (Fin 3, Fin 4))"
  by (simp add: append_present one_entry_disk_facts)

text \<open>
  For an address that is none of the missing-value markers a store on an address with an
  entry changes nothing: a second store after a first one that wrote leaves the file of the
  first, the lookup returns the first pair as read back, and the address has one entry.
\<close>

lemma store_keeps_first_entry:
  "(has_entry address d \<longrightarrow> append_geocode_cache_df address lat' lon' d = d)
   \<and> (cache d \<noteq> NoAddressColumn \<and> \<not> has_entry address d \<and> writable d \<and> address \<notin> set na_values \<longrightarrow>
        append_geocode_cache_df address lat' lon' (append_geocode_cache_df address lat lon d)
          = append_geocode_cache_df address lat lon d
        \<and> cache_lookup address
            (append_geocode_cache_df address lat' lon' (append_geocode_cache_df address lat lon d))
          = Inr (Some (csv_float d Lat lat, csv_float d Lon lon))
        \<and> entries address
            (append_geocode_cache_df address lat' lon' (append_geocode_cache_df address lat lon d)) = 1)"
proof (intro conjI impI)
  show "append_geocode_cache_df address lat' lon' d = d" if "has_entry address d"
    using that by (rule append_present)
next
  assume a: "cache d \<noteq> NoAddressColumn \<and> \<not> has_entry address d \<and> writable d \<and> address \<notin> set na_values"
  let ?d1 = "append_geocode_cache_df address lat lon d"
  have h: "has_entry address ?d1" using a by (simp add: has_entry_after_store)
  show e: "append_geocode_cache_df address lat' lon' ?d1 = ?d1" using h by (rule append_present)
  show "cache_lookup address (append_geocode_cache_df address lat' lon' ?d1)
          = Inr (Some (csv_float d Lat lat, csv_float d Lon lon))"
    using a by (simp add: e lookup_after_first_store)
  show "entries address (append_geocode_cache_df address lat' lon' ?d1) = 1"
    using a by (simp add: e entries_after_store)
qed

text \<open>
  Claim C5, at the address \<open>NA\<close>. The first store writes the row \<open>NA,1,2\<close>, which is
  read back with a missing address. So the second store finds no entry and is not a no-op:
  it rewrites the file with two rows. The lookup misses, and the first pair is no entry of
  the address any more.
\<close>

theorem store_twice_at_missing_marker:
  "append_geocode_cache_df ''NA'' (Fin 1) (Fin 2) empty_disk
     = disk_of (Table [(''NA'', Some (Fin 1), Some (Fin 2))])
   \<and> \<not> has_entry ''NA'' (append_geocode_cache_df ''NA'' (Fin 1) (Fin 2) empty_disk)
   \<and> append_geocode_cache_df ''NA'' (Fin 3) (Fin 4)
        (append_geocode_cache_df ''NA'' (Fin 1) (Fin 2) empty_disk)
     = disk_of (Table [([], Some (Fin 1), Some (Fin 2)), (''NA'', Some (Fin 3), Some (Fin 4))])
   \<and> stored_rows (append_geocode_cache_df ''NA'' (Fin 3) (Fin 4)
        (append_geocode_cache_df ''NA'' (Fin 1) (Fin 2) empty_disk)) = 2
   \<and> cache_lookup ''NA'' (append_geocode_cache_df ''NA'' (Fin 3) (Fin 4)
        (append_geocode_cache_df ''NA'' (Fin 1) (Fin 2) empty_disk)) = Inr None"
proof -
  have s1: "append_geocode_cache_df ''NA'' (Fin 1) (Fin 2) empty_disk
     = disk_of (Table [(''NA'', Some (Fin 1), Some (Fin 2))])"
    by (simp add: append_geocode_cache_df_def read_geocode_cache_df_def matching_def to_csv_def
        write_address_def empty_disk_def disk_of_def)
  have r1: "rows_read (disk_of (Table [(''NA'', Some (Fin 1), Some (Fin 2))]))
              = [(None, Some (Fin 1), Some (Fin 2))]"
    by (simp add: rows_read_def read_geocode_cache_df_def read_address_def plain_addresses
        disk_of_def)
  have h1: "\<not> has_entry ''NA'' (disk_of (Table [(''NA'', Some (Fin 1), Some (Fin 2))]))"
    by (simp add: has_entry_def r1 matching_def)
  have s2: "append_geocode_cache_df ''NA'' (Fin 3) (Fin 4)
        (disk_of (Table [(''NA'', Some (Fin 1), Some (Fin 2))]))
     = disk_of (Table [([], Some (Fin 1), Some (Fin 2)), (''NA'', Some (Fin 3), Some (Fin 4))])"
    using h1
    by (simp add: append_absent disk_of_fields r1)
       (simp add: to_csv_def write_address_def disk_of_def)
  have r2: "rows_read (disk_of (Table [([], Some (Fin 1), Some (Fin 2)),
                                       (''NA'', Some (Fin 3), Some (Fin 4))]))
              = [(None, Some (Fin 1), Some (Fin 2)), (None, Some (Fin 3), Some (Fin 4))]"
    by (simp add: rows_read_def read_geocode_cache_df_def read_address_def na_values_def
        disk_of_def)
  have l2: "cache_lookup ''NA'' (disk_of (Table [([], Some (Fin 1), Some (Fin 2)),
                                       (''NA'', Some (Fin 3), Some (Fin 4))])) = Inr None"
    by (simp add: lookup_rows disk_of_fields r2 matching_def)
  have n2: "stored_rows (disk_of (Table [([], Some (Fin 1), Some (Fin 2)),
                                       (''NA'', Some (Fin 3), Some (Fin 4))])) = 2"
    by (simp add: stored_rows_def disk_of_def)
  show ?thesis by (simp add: s1 s2 h1 l2 n2)
qed

text \<open>
  On a cache file that \<open>read_csv\<close> cannot read, every lookup misses and
  \<open>cached_geocode\<close> answers as on an empty cache (nothing for a blank address, the
  geocoder's answer otherwise); a store that the file system accepts replaces the file by
  a table holding exactly the stored entry.
\<close>

lemma unreadable_cache_is_empty:
  assumes "cache d = Unreadable"
  shows "cache_lookup address d = Inr None
         \<and> fst (cached_geocode env address d)
             = Inr (if blank address then (None, None) else geocode_address env address)
         \<and> (writable d \<longrightarrow>
              cache (append_geocode_cache_df address lat lon d)
                = Table [(address, Some (csv_float d Lat lat), Some (csv_float d Lon lon))])"
proof -
  have f: "cache d \<noteq> NoAddressColumn" using assms by simp
  have r: "rows_read d = []" using assms by (rule rows_read_simps)
  have l: "cache_lookup address d = Inr None" by (simp add: lookup_rows f r matching_def)
  have n: "\<not> has_entry address d" by (simp add: has_entry_def r matching_def)
  have g: "fst (cached_geocode env address d)
             = Inr (if blank address then (None, None) else geocode_address env address)"
    by (auto simp: cached_geocode_def l split: prod.splits option.splits)
  have w: "cache (append_geocode_cache_df address lat lon d)
             = Table [(address, Some (csv_float d Lat lat), Some (csv_float d Lon lon))]"
    if "writable d"
    using that n f by (simp add: append_absent r to_csv_def write_address_def)
  show ?thesis using l g w by simp
qed

lemma unreadable_cache_example:
  "cache corrupt_disk = Unreadable
   \<and> cache_lookup ''a'' corrupt_disk = Inr None
   \<and> cache (append_geocode_cache_df ''a'' (Fin 1) (Fin 2) corrupt_disk)
       = Table [(''a'', Some (Fin 1), Some (Fin 2))]"
  using unreadable_cache_is_empty[of corrupt_disk "''a''" example_geo "Fin 1" "Fin 2"]
  by (simp add: corrupt_disk_def disk_of_fields)

section \<open>Properties of the valuation\<close>

lemma py_mul_one: "py_mul b (Fin 1) = b"
  by (cases b) simp_all

lemma geocode_address_fails:
  "geocoder_fails env address \<Longrightarrow> geocode_address env address = (None, None)"
  by (auto simp: geocoder_fails_def geocode_address_def split: http_outcome.splits option.splits)

lemma cached_geocode_fails:
  assumes "geocoder_fails env address"
  shows "snd (cached_geocode env address d) = d"
    and "cache_lookup address d = Inr None \<Longrightarrow> cached_geocode env address d = (Inr (None, None), d)"
  using geocode_address_fails[OF assms]
  by (auto simp: cached_geocode_def split: option.splits prod.splits sum.splits)

lemma render_valuation_raises:
  assumes "\<not> blank (req_address req)"
    and "cached_geocode (geo w) (req_address req) d = (Inl e, d1)"
  shows "render_valuation w req d = Inl e"
  using assms by (simp add: render_valuation_def Let_def blank_def)

lemma render_valuation_located:
  assumes "\<not> blank (req_address req)"
    and "cached_geocode (geo w) (req_address req) d = (Inr (Some lat, Some lon), d1)"
    and "base_prediction w = Some b"
  shows "render_valuation w req d =
           (if \<not> df_empty (historical_sales w) \<and>
               set required_columns \<subseteq> set (columns (historical_sales w))
            then and_then (local_comps lat lon req (utcnow w) (rows (historical_sales w))) (\<lambda>recent.
                   if recent \<noteq> []
                   then (case adjust (house_model w) b recent of
                           (factor, adjusted_price, comps) \<Rightarrow>
                             Inr (result (Some b) (factor, Some adjusted_price, comps), d1))
                   else Inr (unadjusted w, d1))
            else Inr (unadjusted w, d1))"
  using assms by (simp add: render_valuation_def Let_def blank_def unadjusted_def cong: if_cong)

lemma render_valuation_unlocated:
  assumes "(if blank (req_address req) then (Inr (None, None), d)
            else cached_geocode (geo w) (req_address req) d) = (Inr (la, lo), d1)"
    and "la = None \<or> lo = None \<or> base_prediction w = None"
  shows "render_valuation w req d = Inr (unadjusted w, d1)"
  using assms
  by (auto simp: render_valuation_def Let_def blank_def unadjusted_def
      split: prod.splits option.splits if_splits)

lemma render_valuation_Inr:
  assumes "render_valuation w req d = Inr (v, d')"
  shows "v = unadjusted w \<or>
         (\<exists>lat lon b recent factor adjusted_price comps.
            base_prediction w = Some b \<and>
            fst (cached_geocode (geo w) (req_address req) d) = Inr (Some lat, Some lon) \<and>
            local_comps lat lon req (utcnow w) (rows (historical_sales w)) = Inr recent \<and>
            recent \<noteq> [] \<and>
            adjust (house_model w) b recent = (factor, adjusted_price, comps) \<and>
            v = result (Some b) (factor, Some adjusted_price, comps))"
proof -
  obtain g d1 where gd: "(if blank (req_address req) then (Inr (None, None), d)
            else cached_geocode (geo w) (req_address req) d) = (g, d1)"
    by (cases "if blank (req_address req) then (Inr (None, None), d)
            else cached_geocode (geo w) (req_address req) d") auto
  show ?thesis
  proof (cases g)
    case (Inl e)
    with gd have "\<not> blank (req_address req)"
      and "cached_geocode (geo w) (req_address req) d = (Inl e, d1)"
      by (auto split: if_splits)
    from render_valuation_raises[OF this] assms show ?thesis by simp
  next
    case (Inr coords)
    obtain la lo where c: "coords = (la, lo)" by (cases coords) auto
    show ?thesis
    proof (cases "la = None \<or> lo = None \<or> base_prediction w = None")
      case True
      from render_valuation_unlocated[OF gd[unfolded Inr c] True] assms show ?thesis by simp
    next
      case False
      then obtain lat lon b where l: "la = Some lat" "lo = Some lon"
        and b: "base_prediction w = Some b" by auto
      from gd Inr c l have nb: "\<not> blank (req_address req)"
        and g: "cached_geocode (geo w) (req_address req) d = (Inr (Some lat, Some lon), d1)"
        by (auto split: if_splits)
      note eq = render_valuation_located[OF nb g b]
      show ?thesis
      proof (cases "\<not> df_empty (historical_sales w) \<and>
               set required_columns \<subseteq> set (columns (historical_sales w))")
        case False
        then have "render_valuation w req d = Inr (unadjusted w, d1)"
          unfolding eq by (rule if_not_P)
        then show ?thesis using assms by simp
      next
        case True
        then have "render_valuation w req d =
               and_then (local_comps lat lon req (utcnow w) (rows (historical_sales w))) (\<lambda>recent.
                   if recent \<noteq> []
                   then (case adjust (house_model w) b recent of
                           (factor, adjusted_price, comps) \<Rightarrow>
                             Inr (result (Some b) (factor, Some adjusted_price, comps), d1))
                   else Inr (unadjusted w, d1))"
          unfolding eq by (rule if_P)
        with assms have e3: "and_then (local_comps lat lon req (utcnow w) (rows (historical_sales w))) (\<lambda>recent.
                   if recent \<noteq> []
                   then (case adjust (house_model w) b recent of
                           (factor, adjusted_price, comps) \<Rightarrow>
                             Inr (result (Some b) (factor, Some adjusted_price, comps), d1))
                   else Inr (unadjusted w, d1)) = Inr (v, d')"
          by metis
        show ?thesis
        proof (cases "local_comps lat lon req (utcnow w) (rows (historical_sales w))")
          case (Inl e)
          with e3 show ?thesis by simp
        next
          case (Inr recent)
          show ?thesis
          proof (cases "recent = []")
            case True
            with e3 Inr show ?thesis by simp
          next
            case False
            obtain f a c where adj: "adjust (house_model w) b recent = (f, a, c)"
              by (cases "adjust (house_model w) b recent") auto
            with False e3 Inr have "v = result (Some b) (f, Some a, c)" by simp
            with adj Inr False b g show ?thesis by auto
          qed
        qed
      qed
    qed
  qed
qed

text \<open>A located run with a base price, usable history and a non-empty selection.\<close>

lemma render_valuation_adjusted:
  assumes "\<not> blank (req_address req)"
    and "cached_geocode (geo w) (req_address req) d = (Inr (Some lat, Some lon), d1)"
    and "base_prediction w = Some b"
    and "\<not> df_empty (historical_sales w)"
    and "set required_columns \<subseteq> set (columns (historical_sales w))"
    and "local_comps lat lon req (utcnow w) (rows (historical_sales w)) = Inr recent"
    and "recent \<noteq> []"
    and "adjust (house_model w) b recent = (f, a, c)"
  shows "render_valuation w req d = Inr (result (Some b) (f, Some a, c), d1)"
proof -
  have "render_valuation w req d =
               and_then (local_comps lat lon req (utcnow w) (rows (historical_sales w))) (\<lambda>recent.
                   if recent \<noteq> []
                   then (case adjust (house_model w) b recent of
                           (factor, adjusted_price, comps) \<Rightarrow>
                             Inr (result (Some b) (factor, Some adjusted_price, comps), d1))
                   else Inr (unadjusted w, d1))"
    unfolding render_valuation_located[OF assms(1,2,3)] using assms(4,5) by (intro if_P conjI)
  then show ?thesis using assms(6,7,8) by simp
qed

lemma result_fields:
  "res_base_price (result bp (f, a, c)) = bp" "res_factor (result bp (f, a, c)) = f"
  "res_adjusted_price (result bp (f, a, c)) = a" "res_comps (result bp (f, a, c)) = c"
  by (simp_all add: result_def)

lemma median_fallback_eq:
  "median_fallback b recent =
     (if truthy (series_median (map r_price recent)) \<and> truthy b
      then (np_div (series_median (map r_price recent)) b,
            np_mul b (np_div (series_median (map r_price recent)) b), recent)
      else (Fin 1, b, []))"
  by (simp add: median_fallback_def Let_def)

lemma adjust_model:
  assumes "predict_comps pipe recent = Some preds"
  shows "adjust (Some pipe) b recent =
     (if isfinite (series_median (ratio_actual_pred recent preds))
         \<and> py_lt (Fin 0) (series_median (ratio_actual_pred recent preds))
      then (series_median (ratio_actual_pred recent preds),
            np_mul b (series_median (ratio_actual_pred recent preds)), recent)
      else (Fin 1, b, recent))"
  using assms by (simp add: adjust_def Let_def)

lemma adjust_fallback:
  assumes "hp = None \<or> (\<exists>pipe. hp = Some pipe \<and> predict_comps pipe recent = None)"
  shows "adjust hp b recent = median_fallback b recent"
  using assms by (auto simp: adjust_def)

lemma adjust_cases:
  assumes "adjust hp b recent = (f, a, c)"
  shows "(\<exists>pipe preds. hp = Some pipe \<and> predict_comps pipe recent = Some preds \<and> c = recent \<and>
            isfinite f \<and> py_lt (Fin 0) f \<and>
            (f = series_median (ratio_actual_pred recent preds) \<and> a = np_mul b f
             \<or> f = Fin 1 \<and> a = b))
         \<or> ((hp = None \<or> (\<exists>pipe. hp = Some pipe \<and> predict_comps pipe recent = None)) \<and>
             median_fallback b recent = (f, a, c))"
  using assms
  by (auto simp: adjust_def Let_def split: option.splits if_splits)

text \<open>What one run returns, by the path that set the factor.\<close>

lemma render_valuation_paths:
  assumes "render_valuation w req d = Inr (v, d')" and "res_base_price v = Some b"
  shows "base_prediction w = Some b \<and>
         ((res_factor v = Fin 1 \<and> res_adjusted_price v = Some b \<and> res_comps v = [])
          \<or> (\<exists>pipe. house_model w = Some pipe \<and> predict_comps pipe (res_comps v) \<noteq> None \<and>
                res_comps v \<noteq> [] \<and>
                (res_adjusted_price v = Some (np_mul b (res_factor v))
                 \<or> res_factor v = Fin 1 \<and> res_adjusted_price v = Some b) \<and>
                isfinite (res_factor v) \<and> py_lt (Fin 0) (res_factor v))
          \<or> ((house_model w = None \<or>
                (\<exists>pipe. house_model w = Some pipe \<and> predict_comps pipe (res_comps v) = None)) \<and>
              res_comps v \<noteq> [] \<and>
              res_factor v = np_div (series_median (map r_price (res_comps v))) b \<and>
              res_adjusted_price v = Some (np_mul b (res_factor v))))"
proof -
  from render_valuation_Inr[OF assms(1)] show ?thesis
  proof
    assume "v = unadjusted w"
    with assms(2) show ?thesis by (simp add: unadjusted_def result_def)
  next
    assume "\<exists>lat lon b recent factor adjusted_price comps.
            base_prediction w = Some b \<and>
            fst (cached_geocode (geo w) (req_address req) d) = Inr (Some lat, Some lon) \<and>
            local_comps lat lon req (utcnow w) (rows (historical_sales w)) = Inr recent \<and>
            recent \<noteq> [] \<and>
            adjust (house_model w) b recent = (factor, adjusted_price, comps) \<and>
            v = result (Some b) (factor, Some adjusted_price, comps)"
    then obtain b' recent f a c where
      bp: "base_prediction w = Some b'" and ne: "recent \<noteq> []"
      and adj: "adjust (house_model w) b' recent = (f, a, c)"
      and v: "v = result (Some b') (f, Some a, c)"
      by blast
    from v assms(2) have bb: "b' = b" by (simp add: result_def)
    have fields: "res_factor v = f" "res_adjusted_price v = Some a" "res_comps v = c"
      using v by (simp_all add: result_def)
    from adjust_cases[OF adj] show ?thesis
    proof
      assume "\<exists>pipe preds. house_model w = Some pipe \<and> predict_comps pipe recent = Some preds \<and>
            c = recent \<and> isfinite f \<and> py_lt (Fin 0) f \<and>
            (f = series_median (ratio_actual_pred recent preds) \<and> a = np_mul b' f
             \<or> f = Fin 1 \<and> a = b')"
      then show ?thesis using bp bb fields ne by auto
    next
      assume fb: "(house_model w = None \<or>
              (\<exists>pipe. house_model w = Some pipe \<and> predict_comps pipe recent = None)) \<and>
             median_fallback b' recent = (f, a, c)"
      then have "(f = Fin 1 \<and> a = b' \<and> c = []) \<or>
            (f = np_div (series_median (map r_price recent)) b' \<and> a = np_mul b' f \<and> c = recent)"
        by (auto simp: median_fallback_eq split: if_splits)
      then show ?thesis
      proof
        assume "f = Fin 1 \<and> a = b' \<and> c = []"
        then show ?thesis using bp bb fields by simp
      next
        assume "f = np_div (series_median (map r_price recent)) b' \<and> a = np_mul b' f \<and> c = recent"
        then show ?thesis using bp bb fields ne fb by auto
      qed
    qed
  qed
qed

lemma render_valuation_gate:
  assumes "\<not> blank (req_address req)"
    and "cached_geocode (geo w) (req_address req) d = (Inr (Some lat, Some lon), d1)"
    and "base_prediction w = Some b"
    and "\<not> df_empty (historical_sales w)"
    and "set required_columns \<subseteq> set (columns (historical_sales w))"
    and "local_comps lat lon req (utcnow w) (rows (historical_sales w)) = Inr recent"
    and "recent \<noteq> []"
  shows "\<exists>v. render_valuation w req d = Inr (v, d1) \<and> res_base_price v = Some b \<and>
           (\<forall>pipe preds. house_model w = Some pipe \<and> predict_comps pipe recent = Some preds \<longrightarrow>
              res_comps v = recent \<and>
              (if isfinite (series_median (ratio_actual_pred recent preds))
                  \<and> py_lt (Fin 0) (series_median (ratio_actual_pred recent preds))
               then res_factor v = series_median (ratio_actual_pred recent preds)
                    \<and> res_adjusted_price v
                        = Some (np_mul b (series_median (ratio_actual_pred recent preds)))
               else res_factor v = Fin 1 \<and> res_adjusted_price v = Some b)) \<and>
           (house_model w = None
            \<or> (\<exists>pipe. house_model w = Some pipe \<and> predict_comps pipe recent = None) \<longrightarrow>
              (if truthy (series_median (map r_price recent)) \<and> truthy b
               then res_factor v = np_div (series_median (map r_price recent)) b
                    \<and> res_adjusted_price v
                        = Some (np_mul b (np_div (series_median (map r_price recent)) b))
                    \<and> res_comps v = recent
               else res_factor v = Fin 1 \<and> res_adjusted_price v = Some b \<and> res_comps v = []))"
proof -
  obtain f a c where adj: "adjust (house_model w) b recent = (f, a, c)"
    by (cases "adjust (house_model w) b recent") auto
  let ?v = "result (Some b) (f, Some a, c)"
  have r: "render_valuation w req d = Inr (?v, d1)"
    using assms adj by (rule render_valuation_adjusted)
  have m: "res_comps ?v = recent \<and>
              (if isfinite (series_median (ratio_actual_pred recent preds))
                  \<and> py_lt (Fin 0) (series_median (ratio_actual_pred recent preds))
               then res_factor ?v = series_median (ratio_actual_pred recent preds)
                    \<and> res_adjusted_price ?v
                        = Some (np_mul b (series_median (ratio_actual_pred recent preds)))
               else res_factor ?v = Fin 1 \<and> res_adjusted_price ?v = Some b)"
    if "house_model w = Some pipe" "predict_comps pipe recent = Some preds" for pipe preds
    using adj adjust_model[OF that(2), of b] that(1)
    by (auto simp: result_fields split: if_splits)
  have fb: "(if truthy (series_median (map r_price recent)) \<and> truthy b
               then res_factor ?v = np_div (series_median (map r_price recent)) b
                    \<and> res_adjusted_price ?v
                        = Some (np_mul b (np_div (series_median (map r_price recent)) b))
                    \<and> res_comps ?v = recent
               else res_factor ?v = Fin 1 \<and> res_adjusted_price ?v = Some b \<and> res_comps ?v = [])"
    if "house_model w = None
            \<or> (\<exists>pipe. house_model w = Some pipe \<and> predict_comps pipe recent = None)"
    using adj adjust_fallback[OF that, of b]
    by (auto simp: result_fields median_fallback_eq split: if_splits)
  have b: "res_base_price ?v = Some b" by (simp add: result_fields)
  from r b m fb show ?thesis by blast
qed

text \<open>
  Claim C1, as amended. In every run that has a base price, the adjusted price is the base
  price times the factor, or the base price itself with factor 1.0; and when the comps
  shown were re-predicted by the model, the factor is finite and strictly positive.

  In a run that reaches a non-empty selection \<open>recent\<close> (the address is geocoded, there
  is a base price \<open>b\<close>, the history has rows and the required columns): when the model
  is there and its prediction succeeds, the factor is the median ratio and the adjusted
  price \<open>b\<close> times it if that median is finite and strictly positive, and otherwise the
  factor is 1.0 and the adjusted price is \<open>b\<close>. When the model is missing or its
  prediction raised, the factor is the median comp price divided by \<open>b\<close>, taken as it
  is, and the adjusted price \<open>b\<close> times it, if neither the median nor \<open>b\<close> is zero;
  otherwise the factor is 1.0, the adjusted price is \<open>b\<close> and there are no comps.
\<close>

theorem valuation_factor_gate:
  "(render_valuation w req d = Inr (v, d') \<and> res_base_price v = Some b \<longrightarrow>
      (res_adjusted_price v = Some (np_mul b (res_factor v))
       \<or> res_factor v = Fin 1 \<and> res_adjusted_price v = Some b)
      \<and> ((\<exists>pipe. house_model w = Some pipe \<and> predict_comps pipe (res_comps v) \<noteq> None) \<longrightarrow>
           isfinite (res_factor v) \<and> py_lt (Fin 0) (res_factor v)))
   \<and> (\<not> blank (req_address req)
      \<and> cached_geocode (geo w) (req_address req) d = (Inr (Some lat, Some lon), d1)
      \<and> base_prediction w = Some b
      \<and> \<not> df_empty (historical_sales w)
      \<and> set required_columns \<subseteq> set (columns (historical_sales w))
      \<and> local_comps lat lon req (utcnow w) (rows (historical_sales w)) = Inr recent
      \<and> recent \<noteq> [] \<longrightarrow>
      (\<exists>v. render_valuation w req d = Inr (v, d1) \<and> res_base_price v = Some b \<and>
           (\<forall>pipe preds. house_model w = Some pipe \<and> predict_comps pipe recent = Some preds \<longrightarrow>
              res_comps v = recent \<and>
              (if isfinite (series_median (ratio_actual_pred recent preds))
                  \<and> py_lt (Fin 0) (series_median (ratio_actual_pred recent preds))
               then res_factor v = series_median (ratio_actual_pred recent preds)
                    \<and> res_adjusted_price v
                        = Some (np_mul b (series_median (ratio_actual_pred recent preds)))
               else res_factor v = Fin 1 \<and> res_adjusted_price v = Some b)) \<and>
           (house_model w = None
            \<or> (\<exists>pipe. house_model w = Some pipe \<and> predict_comps pipe recent = None) \<longrightarrow>
              (if truthy (series_median (map r_price recent)) \<and> truthy b
               then res_factor v = np_div (series_median (map r_price recent)) b
                    \<and> res_adjusted_price v
                        = Some (np_mul b (np_div (series_median (map r_price recent)) b))
                    \<and> res_comps v = recent
               else res_factor v = Fin 1 \<and> res_adjusted_price v = Some b \<and> res_comps v = []))))"
proof -
  have A: "(res_adjusted_price v = Some (np_mul b (res_factor v))
       \<or> res_factor v = Fin 1 \<and> res_adjusted_price v = Some b)
      \<and> ((\<exists>pipe. house_model w = Some pipe \<and> predict_comps pipe (res_comps v) \<noteq> None) \<longrightarrow>
           isfinite (res_factor v) \<and> py_lt (Fin 0) (res_factor v))"
    if "render_valuation w req d = Inr (v, d')" "res_base_price v = Some b"
    using render_valuation_paths[OF that] by auto
  show ?thesis
    using A render_valuation_gate[of req w d lat lon d1 b recent] by blast
qed

lemma render_valuation_confidence:
  assumes "render_valuation w req d = Inr (v, d')"
  shows "res_confidence v
           = (case res_base_price v of None \<Rightarrow> None
              | Some b \<Rightarrow> Some (confidence_of (length (res_comps v))))"
  using render_valuation_Inr[OF assms]
  by (auto simp: unadjusted_def result_def split: option.splits)

text \<open>
  Claim C9. The label is High exactly from 10 comps on, Medium exactly from 5 to 9, Low
  exactly below 5, and every run that has a base price reports the label of the number of
  its comps.
\<close>

theorem confidence_from_comp_count:
  "(confidence_of n = High \<longleftrightarrow> 10 \<le> n)
   \<and> (confidence_of n = Medium \<longleftrightarrow> 5 \<le> n \<and> n < 10)
   \<and> (confidence_of n = Low \<longleftrightarrow> n < 5)
   \<and> (render_valuation w req d = Inr (v, d') \<and> res_base_price v \<noteq> None \<longrightarrow>
        res_confidence v = Some (confidence_of (length (res_comps v))))"
proof -
  have "res_confidence v = Some (confidence_of (length (res_comps v)))"
    if "render_valuation w req d = Inr (v, d')" "res_base_price v \<noteq> None"
    using render_valuation_confidence[OF that(1)] that(2) by (auto split: option.splits)
  then show ?thesis by (auto simp: confidence_of_def)
qed

text \<open>
  Claim C6. When the geocoder fails on the address, \<open>geocode_address\<close> returns
  \<open>(None, None)\<close> and \<open>cached_geocode\<close> leaves the cache file as it was; when the
  address is not already cached, so that the geocoder is asked, \<open>cached_geocode\<close> returns
  \<open>(None, None)\<close> and the valuation returns the base prediction as adjusted price, factor
  1.0 and no comps.
\<close>

theorem geocoder_failure_degrades:
  assumes "geocoder_fails (geo w) (req_address req)"
  shows "geocode_address (geo w) (req_address req) = (None, None)
         \<and> snd (cached_geocode (geo w) (req_address req) d) = d
         \<and> (cache_lookup (req_address req) d = Inr None \<longrightarrow>
              cached_geocode (geo w) (req_address req) d = (Inr (None, None), d)
              \<and> (\<exists>v. render_valuation w req d = Inr (v, d)
                     \<and> res_base_price v = base_prediction w
                     \<and> res_adjusted_price v = base_prediction w
                     \<and> res_factor v = Fin 1 \<and> res_comps v = []))"
proof -
  have r: "render_valuation w req d = Inr (unadjusted w, d)"
    if "cache_lookup (req_address req) d = Inr None"
    using render_valuation_unlocated[of req d w None None d] cached_geocode_fails(2)[OF assms that]
    by simp
  have u: "res_base_price (unadjusted w) = base_prediction w"
    "res_adjusted_price (unadjusted w) = base_prediction w"
    "res_factor (unadjusted w) = Fin 1" "res_comps (unadjusted w) = []"
    by (simp_all add: unadjusted_def result_def)
  show ?thesis
    using geocode_address_fails[OF assms] cached_geocode_fails[OF assms] r u by auto
qed

section \<open>The selections\<close>

lemma dist_km_total_zip:
  "dist_km lat lon hist = Inr dists \<Longrightarrow> r \<in> set hist \<Longrightarrow> \<exists>x. (r, x) \<in> set (zip hist dists)"
proof -
  assume d: "dist_km lat lon hist = Inr dists" and r: "r \<in> set hist"
  from r obtain i where i: "i < length hist" "hist ! i = r" by (auto simp: in_set_conv_nth)
  with dist_km_length[OF d] have "(r, dists ! i) \<in> set (zip hist dists)"
    by (auto simp: set_zip)
  then show ?thesis by blast
qed

lemma local_comps_mem:
  assumes "local_comps lat lon req now hist = Inr recent"
  shows "r \<in> set recent \<longleftrightarrow>
         r \<in> set (dropna hist) \<and>
         date_ge (r_date r) (to_micros now - 30 * req_months req * micros_per_day) \<and>
         (\<exists>x. haversine_km (Some lat) (Some lon) (Some (r_lat r)) (Some (r_lon r)) = Inr x \<and>
              py_le x (Fin (req_radius_km req)))"
proof -
  from assms obtain dists where d: "dist_km lat lon (dropna hist) = Inr dists"
    and rec: "recent = select_recent (cutoff_of now (req_months req)) (req_radius_km req) (dropna hist) dists"
    by (auto simp: local_comps_def Let_def and_then_Inr)
  have c: "cutoff_of now (req_months req) = to_micros now - 30 * req_months req * micros_per_day"
    by (simp add: cutoff_of_def)
  show ?thesis
  proof
    assume "r \<in> set recent"
    then obtain x where x: "(r, x) \<in> set (zip (dropna hist) dists)"
      "date_ge (r_date r) (cutoff_of now (req_months req))" "py_le x (Fin (req_radius_km req))"
      unfolding rec select_recent_mem by blast
    from x(1) have "r \<in> set (dropna hist)" by (rule set_zip_leftD)
    with x dist_km_zip[OF d x(1)] c show "r \<in> set (dropna hist) \<and>
         date_ge (r_date r) (to_micros now - 30 * req_months req * micros_per_day) \<and>
         (\<exists>x. haversine_km (Some lat) (Some lon) (Some (r_lat r)) (Some (r_lon r)) = Inr x \<and>
              py_le x (Fin (req_radius_km req)))" by auto
  next
    assume a: "r \<in> set (dropna hist) \<and>
         date_ge (r_date r) (to_micros now - 30 * req_months req * micros_per_day) \<and>
         (\<exists>x. haversine_km (Some lat) (Some lon) (Some (r_lat r)) (Some (r_lon r)) = Inr x \<and>
              py_le x (Fin (req_radius_km req)))"
    then obtain x where x: "haversine_km (Some lat) (Some lon) (Some (r_lat r)) (Some (r_lon r)) = Inr x"
      "py_le x (Fin (req_radius_km req))" by blast
    from a dist_km_total_zip[OF d] obtain y where y: "(r, y) \<in> set (zip (dropna hist) dists)" by blast
    from dist_km_zip[OF d y] x(1) have "y = x" by simp
    with y x(2) a c show "r \<in> set recent" unfolding rec select_recent_mem by auto
  qed
qed

lemma distance_km_zip:
  "distance_km lat lon df = Inr dists \<Longrightarrow> (r, x) \<in> set (zip df dists) \<Longrightarrow>
   haversine lat lon (r_lat r) (r_lon r) = Inr x"
proof (induction df arbitrary: dists)
  case Nil
  then show ?case by simp
next
  case (Cons h hs)
  from Cons.prems(1) obtain y ys where
    y: "haversine lat lon (r_lat h) (r_lon h) = Inr y"
    and ys: "distance_km lat lon hs = Inr ys" and d: "dists = y # ys"
    by (auto simp: and_then_Inr)
  from Cons.prems(2) d have "(r, x) = (h, y) \<or> (r, x) \<in> set (zip hs ys)" by simp
  then show ?case
  proof
    assume "(r, x) = (h, y)" with y show ?thesis by simp
  next
    assume "(r, x) \<in> set (zip hs ys)" with Cons.IH[OF ys] show ?thesis by simp
  qed
qed

lemma distance_km_length: "distance_km lat lon df = Inr dists \<Longrightarrow> length dists = length df"
  by (induction df arbitrary: dists) (auto simp: and_then_Inr)

lemma select_local_mem:
  "r \<in> set (select_local cutoff radius_km df dists) \<longleftrightarrow>
   (\<exists>x. (r, x) \<in> set (zip df dists) \<and> py_le x (Fin radius_km) \<and> date_ge (r_date r) cutoff)"
  by (force simp: select_local_def)

lemma df_filtered_mem:
  assumes "df_filtered lat lon radius_km months now file_rows = Inr comps"
  shows "r \<in> set comps \<longleftrightarrow>
         r \<in> set (dropna_local file_rows) \<and>
         date_ge (r_date r) (to_micros (sub_months now months)) \<and>
         (\<exists>x. haversine lat lon (r_lat r) (r_lon r) = Inr x \<and> py_le x (Fin radius_km))"
proof -
  from assms obtain dists where d: "distance_km lat lon (dropna_local file_rows) = Inr dists"
    and rec: "comps = select_local (cutoff_local now months) radius_km (dropna_local file_rows) dists"
    by (auto simp: df_filtered_def Let_def and_then_Inr)
  have c: "cutoff_local now months = to_micros (sub_months now months)"
    by (simp add: cutoff_local_def)
  show ?thesis
  proof
    assume "r \<in> set comps"
    then obtain x where x: "(r, x) \<in> set (zip (dropna_local file_rows) dists)"
      "date_ge (r_date r) (cutoff_local now months)" "py_le x (Fin radius_km)"
      unfolding rec select_local_mem by blast
    from x(1) have "r \<in> set (dropna_local file_rows)" by (rule set_zip_leftD)
    with x distance_km_zip[OF d x(1)] c show "r \<in> set (dropna_local file_rows) \<and>
         date_ge (r_date r) (to_micros (sub_months now months)) \<and>
         (\<exists>x. haversine lat lon (r_lat r) (r_lon r) = Inr x \<and> py_le x (Fin radius_km))" by auto
  next
    assume a: "r \<in> set (dropna_local file_rows) \<and>
         date_ge (r_date r) (to_micros (sub_months now months)) \<and>
         (\<exists>x. haversine lat lon (r_lat r) (r_lon r) = Inr x \<and> py_le x (Fin radius_km))"
    then obtain x where x: "haversine lat lon (r_lat r) (r_lon r) = Inr x"
      "py_le x (Fin radius_km)" by blast
    from a obtain i where i: "i < length (dropna_local file_rows)" "dropna_local file_rows ! i = r"
      by (auto simp: in_set_conv_nth)
    with distance_km_length[OF d] have y: "(r, dists ! i) \<in> set (zip (dropna_local file_rows) dists)"
      by (auto simp: set_zip)
    from distance_km_zip[OF d y] x(1) have "dists ! i = x" by simp
    with y x(2) a c show "r \<in> set comps" unfolding rec select_local_mem by auto
  qed
qed

lemma render_valuation_comps:
  assumes "render_valuation w req d = Inr (v, d')" and "r \<in> set (res_comps v)"
  shows "\<exists>lat lon recent.
           fst (cached_geocode (geo w) (req_address req) d) = Inr (Some lat, Some lon) \<and>
           local_comps lat lon req (utcnow w) (rows (historical_sales w)) = Inr recent \<and>
           r \<in> set recent"
proof -
  from render_valuation_Inr[OF assms(1)] show ?thesis
  proof
    assume "v = unadjusted w"
    with assms(2) show ?thesis by (simp add: unadjusted_def result_def)
  next
    assume "\<exists>lat lon b recent factor adjusted_price comps.
            base_prediction w = Some b \<and>
            fst (cached_geocode (geo w) (req_address req) d) = Inr (Some lat, Some lon) \<and>
            local_comps lat lon req (utcnow w) (rows (historical_sales w)) = Inr recent \<and>
            recent \<noteq> [] \<and>
            adjust (house_model w) b recent = (factor, adjusted_price, comps) \<and>
            v = result (Some b) (factor, Some adjusted_price, comps)"
    then obtain lat lon b recent f a c where
      g: "fst (cached_geocode (geo w) (req_address req) d) = Inr (Some lat, Some lon)"
      and l: "local_comps lat lon req (utcnow w) (rows (historical_sales w)) = Inr recent"
      and adj: "adjust (house_model w) b recent = (f, a, c)"
      and v: "v = result (Some b) (f, Some a, c)"
      by blast
    have "c = recent \<or> c = []"
      using adjust_cases[OF adj] by (auto simp: median_fallback_eq split: if_splits)
    with assms(2) v have "r \<in> set recent" by (auto simp: result_def)
    with g l show ?thesis by blast
  qed
qed

text \<open>
  Claim C3, as amended. In \<open>render_valuation\<close> the cutoff is the clock minus 30 days
  per month of lookback; a row is selected exactly when it has none of the five fields
  missing, its date is at or after the cutoff and its \<open>haversine_km\<close> distance is a
  number at most the radius, and every comp of a run is such a row. In
  \<open>local_adjustment\<close> the cutoff is the clock moved back by calendar months; a row is
  selected exactly when it has none of its four fields missing, its date is at or after
  that cutoff and its \<open>haversine\<close> distance is at most the radius.
\<close>

theorem comps_time_and_distance_filter:
  "(local_comps lat lon req now hist = Inr recent \<longrightarrow>
      (r \<in> set recent \<longleftrightarrow>
         r \<in> set (dropna hist) \<and>
         date_ge (r_date r) (to_micros now - 30 * req_months req * micros_per_day) \<and>
         (\<exists>x. haversine_km (Some lat) (Some lon) (Some (r_lat r)) (Some (r_lon r)) = Inr x \<and>
              py_le x (Fin (req_radius_km req)))))
   \<and> (render_valuation w req d = Inr (v, d') \<and> r \<in> set (res_comps v) \<longrightarrow>
        date_ge (r_date r) (to_micros (utcnow w) - 30 * req_months req * micros_per_day) \<and>
        (\<exists>qlat qlon x.
           fst (cached_geocode (geo w) (req_address req) d) = Inr (Some qlat, Some qlon) \<and>
           haversine_km (Some qlat) (Some qlon) (Some (r_lat r)) (Some (r_lon r)) = Inr x \<and>
           py_le x (Fin (req_radius_km req))))
   \<and> (df_filtered lat lon radius_km months now file_rows = Inr comps \<longrightarrow>
        (r \<in> set comps \<longleftrightarrow>
           r \<in> set (dropna_local file_rows) \<and>
           date_ge (r_date r) (to_micros (sub_months now months)) \<and>
           (\<exists>x. haversine lat lon (r_lat r) (r_lon r) = Inr x \<and> py_le x (Fin radius_km))))"
proof -
  have app_filter: "r \<in> set recent \<longleftrightarrow>
         r \<in> set (dropna hist) \<and>
         date_ge (r_date r) (to_micros now - 30 * req_months req * micros_per_day) \<and>
         (\<exists>x. haversine_km (Some lat) (Some lon) (Some (r_lat r)) (Some (r_lon r)) = Inr x \<and>
              py_le x (Fin (req_radius_km req)))"
    if "local_comps lat lon req now hist = Inr recent"
    using that by (rule local_comps_mem)
  have app_run: "date_ge (r_date r) (to_micros (utcnow w) - 30 * req_months req * micros_per_day) \<and>
        (\<exists>qlat qlon x.
           fst (cached_geocode (geo w) (req_address req) d) = Inr (Some qlat, Some qlon) \<and>
           haversine_km (Some qlat) (Some qlon) (Some (r_lat r)) (Some (r_lon r)) = Inr x \<and>
           py_le x (Fin (req_radius_km req)))"
    if a: "render_valuation w req d = Inr (v, d') \<and> r \<in> set (res_comps v)"
  proof -
    from a obtain qlat qlon recent where
      g: "fst (cached_geocode (geo w) (req_address req) d) = Inr (Some qlat, Some qlon)"
      and l: "local_comps qlat qlon req (utcnow w) (rows (historical_sales w)) = Inr recent"
      and r: "r \<in> set recent"
      using render_valuation_comps[of w req d v d' r] by blast
    from r local_comps_mem[OF l, of r] g show ?thesis by blast
  qed
  have local_filter: "r \<in> set comps \<longleftrightarrow>
           r \<in> set (dropna_local file_rows) \<and>
           date_ge (r_date r) (to_micros (sub_months now months)) \<and>
           (\<exists>x. haversine lat lon (r_lat r) (r_lon r) = Inr x \<and> py_le x (Fin radius_km))"
    if "df_filtered lat lon radius_km months now file_rows = Inr comps"
    using that by (rule df_filtered_mem)
  from app_filter app_run local_filter show ?thesis by blast
qed

section \<open>Comps predicted at their actual price\<close>

subsection \<open>Median of finite values\<close>

lemma finite_values_Fin: "finite_values (map Fin rs) = rs"
  by (induction rs) simp_all

lemma sorted_values_Fin: "sorted_values (map Fin rs) = map Fin (sort rs)"
  by (simp add: sorted_values_def finite_values_Fin filter_map comp_def)

lemma series_median_single: "series_median [Fin x] = Fin x"
  using sorted_values_Fin[of "[x]"] by (simp add: series_median_def)

text \<open>
  The median of doubles in \<open>(0, 1]\<close> is a number between the two middle values of the
  sorted list: the rounded mean of two doubles lies between them.
\<close>

lemma rounded_mean_between:
  assumes "is_double a" "is_double b" "0 < a" "a \<le> b" "b \<le> 1"
  shows "\<exists>f. np_div (np_add (Fin a) (Fin b)) (Fin 2) = Fin f \<and> a \<le> f \<and> f \<le> b"
proof -
  have b: "0 < b" using assms(3,4) by simp
  have top: "(2::real) < 2 powi 1024"
    using power_int_strict_increasing[of 1 1024 "2::real"] by simp
  have a2: "is_double (2 * a)" using assms top by (intro is_double_twice) auto
  have b2: "is_double (2 * b)" using assms b top by (intro is_double_twice) auto
  from round_double_between[OF a2 b2, of "a + b"] assms(3,4)
  obtain s where s: "round_double (a + b) = Fin s" "2 * a \<le> s" "s \<le> 2 * b" by auto
  from round_double_between[OF assms(1,2,3), of "s / 2"] s(2,3)
  obtain f where f: "round_double (s / 2) = Fin f" "a \<le> f" "f \<le> b" by auto
  have "np_div (np_add (Fin a) (Fin b)) (Fin 2) = Fin f"
    by (simp add: np_div_def np_add_def s(1) f(1))
  with f(2,3) show ?thesis by blast
qed

lemma median_of_doubles:
  assumes "rs \<noteq> []" and "\<forall>r\<in>set rs. is_double r \<and> 0 < r \<and> r \<le> 1"
  shows "\<exists>f. series_median (map Fin rs) = Fin f
             \<and> Fin f = (if odd (length rs) then Fin (sort rs ! (length rs div 2))
                        else np_div (np_add (Fin (sort rs ! (length rs div 2 - 1)))
                                            (Fin (sort rs ! (length rs div 2)))) (Fin 2))
             \<and> sort rs ! ((length rs - 1) div 2) \<le> f \<and> f \<le> sort rs ! (length rs div 2)"
proof -
  let ?s = "sort rs"
  let ?n = "length rs"
  have n: "0 < ?n" using assms(1) by simp
  have "length ?s = ?n" by simp
  with n have ne: "?s \<noteq> []" by (metis length_0_conv less_numeral_extra(3))
  have mem: "is_double (?s ! i) \<and> 0 < ?s ! i \<and> ?s ! i \<le> 1" if "i < ?n" for i
  proof -
    from that have "i < length ?s" by simp
    then have "?s ! i \<in> set ?s" by (rule nth_mem)
    then show ?thesis using assms(2) by simp
  qed
  show ?thesis
  proof (cases "odd ?n")
    case True
    have i: "?n div 2 < ?n" using n by simp
    have e: "(?n - 1) div 2 = ?n div 2" using True by presburger
    have "series_median (map Fin rs) = Fin (?s ! (?n div 2))"
      using True n ne i by (simp add: series_median_def sorted_values_Fin Let_def)
    then show ?thesis using True e by simp
  next
    case False
    then have two: "2 \<le> ?n" using n by presburger
    then have i1: "?n div 2 - 1 < ?n" and i2: "?n div 2 < ?n" by simp_all
    have e: "(?n - 1) div 2 = ?n div 2 - 1" using False two by presburger
    have m: "series_median (map Fin rs)
               = np_div (np_add (Fin (?s ! (?n div 2 - 1))) (Fin (?s ! (?n div 2)))) (Fin 2)"
      using False n ne i1 i2 by (simp add: series_median_def sorted_values_Fin Let_def)
    have "sorted ?s" by simp
    moreover have "?n div 2 - 1 \<le> ?n div 2" by simp
    moreover have "?n div 2 < length ?s" using i2 by simp
    ultimately have le: "?s ! (?n div 2 - 1) \<le> ?s ! (?n div 2)" by (rule sorted_nth_mono)
    from rounded_mean_between[of "?s ! (?n div 2 - 1)" "?s ! (?n div 2)"] mem[OF i1] mem[OF i2] le
    obtain f where f: "np_div (np_add (Fin (?s ! (?n div 2 - 1))) (Fin (?s ! (?n div 2)))) (Fin 2) = Fin f"
      "?s ! (?n div 2 - 1) \<le> f" "f \<le> ?s ! (?n div 2)" by blast
    show ?thesis using m f False e by auto
  qed
qed

text \<open>
  A number between the two middle values of the sorted list has at least half of the
  values at or below it and at least half at or above it.
\<close>

lemma median_counts:
  fixes rs :: "real list"
  assumes "rs \<noteq> []" and "sort rs ! ((length rs - 1) div 2) \<le> f"
    and "f \<le> sort rs ! (length rs div 2)"
  shows "length rs \<le> 2 * length (filter (\<lambda>r. r \<le> f) rs)"
    and "length rs \<le> 2 * length (filter (\<lambda>r. f \<le> r) rs)"
proof -
  let ?s = "sort rs"
  let ?n = "length rs"
  have n: "0 < ?n" using assms(1) by simp
  have len: "length ?s = ?n" by simp
  have srt: "sorted ?s" by simp
  have cnt: "length (filter P rs) = length (filter P ?s)" for P
  proof -
    have "filter P ?s = sort (filter P rs)" by (rule filter_sort)
    then show ?thesis by simp
  qed
  have below: "{i. i \<le> (?n - 1) div 2} \<subseteq> {i. i < length ?s \<and> ?s ! i \<le> f}"
  proof
    fix i assume "i \<in> {i. i \<le> (?n - 1) div 2}"
    then have i: "i \<le> (?n - 1) div 2" by simp
    have "(?n - 1) div 2 < ?n" using n by presburger
    then have k: "(?n - 1) div 2 < length ?s" by (simp only: len)
    from srt i k have "?s ! i \<le> ?s ! ((?n - 1) div 2)" by (rule sorted_nth_mono)
    with assms(2) i k show "i \<in> {i. i < length ?s \<and> ?s ! i \<le> f}" by simp
  qed
  have "card {i. i \<le> (?n - 1) div 2} \<le> card {i. i < length ?s \<and> ?s ! i \<le> f}"
    using below by (intro card_mono) auto
  then have "(?n - 1) div 2 + 1 \<le> length (filter (\<lambda>r. r \<le> f) ?s)"
    by (simp add: length_filter_conv_card)
  moreover have "?n \<le> 2 * ((?n - 1) div 2 + 1)" by presburger
  ultimately show "length rs \<le> 2 * length (filter (\<lambda>r. r \<le> f) rs)"
    unfolding cnt[of "\<lambda>r. r \<le> f"] by linarith
  have above: "{?n div 2..<?n} \<subseteq> {i. i < length ?s \<and> f \<le> ?s ! i}"
  proof
    fix i assume "i \<in> {?n div 2..<?n}"
    then have i: "?n div 2 \<le> i" "i < length ?s" by simp_all
    from srt i have "?s ! (?n div 2) \<le> ?s ! i" by (rule sorted_nth_mono)
    with assms(3) i show "i \<in> {i. i < length ?s \<and> f \<le> ?s ! i}" by simp
  qed
  have "card {?n div 2..<?n} \<le> card {i. i < length ?s \<and> f \<le> ?s ! i}"
    using above by (intro card_mono) auto
  then have "?n - ?n div 2 \<le> length (filter (\<lambda>r. f \<le> r) ?s)"
    by (simp add: length_filter_conv_card)
  moreover have "?n \<le> 2 * (?n - ?n div 2)" by presburger
  ultimately show "length rs \<le> 2 * length (filter (\<lambda>r. f \<le> r) rs)"
    unfolding cnt[of "\<lambda>r. f \<le> r"] by linarith
qed

subsection \<open>The ratio of a comp predicted at its price\<close>

lemma ratio_of_equal_prediction:
  "ratio_actual_pred recent (map r_price recent)
     = map (\<lambda>x. np_div x (np_add x (Fin eps9))) (map r_price recent)"
  by (induction recent) (simp_all add: ratio_actual_pred_def)

lemma eps9_bounds: "0 < eps9" "eps9 < 2 powi (- 29)" "2 * eps9 \<le> 1"
  by (simp_all add: eps9_def power_int_minus)

lemma is_double_half_one: "is_double (1 / 2)"
  using is_double_multiple[of 1 "- 1"] by (simp add: power_int_minus)

lemma echo_ratio_range:
  assumes "is_double p" "0 < p"
  shows "\<exists>r. np_div (Fin p) (np_add (Fin p) (Fin eps9)) = Fin r \<and> is_double r
             \<and> 0 < r \<and> r \<le> 1 \<and> (eps9 \<le> p \<longrightarrow> 1 / 2 \<le> r) \<and> (2 ^ 24 \<le> p \<longrightarrow> r = 1)"
proof (cases "2 ^ 24 \<le> p")
  case True
  have "round_double (p + eps9) = Fin p"
    using assms(1) True eps9_bounds(1,2) by (intro round_double_absorb) auto
  then have "np_div (Fin p) (np_add (Fin p) (Fin eps9)) = Fin 1"
    using assms(2) is_double_one by (simp add: np_div_def np_add_def is_double_def)
  then show ?thesis using is_double_one by simp
next
  case False
  define u where "u = 2 * max p eps9"
  have top: "(2::real) ^ 25 < 2 powi 1024"
    using power_int_strict_increasing[of 25 1024 "2::real"] by simp
  have du: "is_double u"
  proof (cases "p \<le> eps9")
    case True
    then show ?thesis using is_double_two_eps9 by (simp add: u_def max_def)
  next
    case False
    have "2 * p < 2 powi 1024" using \<open>\<not> 2 ^ 24 \<le> p\<close> top by simp
    then have "is_double (2 * p)" using assms by (intro is_double_twice) auto
    then show ?thesis using False by (simp add: u_def max_def)
  qed
  have le1: "p \<le> p + eps9" using eps9_bounds(1) by simp
  have le2: "p + eps9 \<le> u" unfolding u_def by simp
  from round_double_between[OF assms(1) du assms(2) le1 le2]
  obtain s where s: "round_double (p + eps9) = Fin s" "p \<le> s" "s \<le> u" by blast
  have spos: "0 < s" using s(2) assms(2) by simp
  have d: "np_div (Fin p) (np_add (Fin p) (Fin eps9)) = round_double (p / s)"
    using spos by (simp add: np_div_def np_add_def s(1))
  have q: "0 < p / s" using spos assms(2) by simp
  have up: "p / s \<le> 1" using spos s(2) by simp
  have lo: "2 powi (- 1074) \<le> p / s"
  proof (cases "eps9 \<le> p")
    case True
    then have "s \<le> 2 * p" using s(3) by (simp add: u_def)
    then have "1 / 2 \<le> p / s" using spos by (simp add: field_simps)
    moreover have "(2::real) powi (- 1074) \<le> 1 / 2"
      using is_double_pos_ge[OF is_double_half_one] by simp
    ultimately show ?thesis by linarith
  next
    case False
    then have "s \<le> 1" using s(3) eps9_bounds(3) by (simp add: u_def max_def)
    then have "p \<le> p / s" using spos assms(2) by (simp add: field_simps)
    with is_double_pos_ge[OF assms] show ?thesis by linarith
  qed
  have lpos: "(0::real) < 2 powi (- 1074)" by simp
  from round_double_between[OF is_double_least is_double_one lpos lo up]
  obtain r where r: "round_double (p / s) = Fin r" "2 powi (- 1074) \<le> r" "r \<le> 1" by blast
  have rd: "is_double r" using q r(1) by (rule round_double_is_double)
  have rpos: "0 < r" using r(2) lpos by linarith
  have half: "1 / 2 \<le> r" if "eps9 \<le> p"
  proof -
    from that have "s \<le> 2 * p" using s(3) by (simp add: u_def)
    then have h: "1 / 2 \<le> p / s" using spos by (simp add: field_simps)
    have "(0::real) < 1 / 2" by simp
    from round_double_between[OF is_double_half_one is_double_one this h up] r(1)
    show ?thesis by auto
  qed
  from d r rd rpos half False show ?thesis by auto
qed

lemma echo_ratio_list:
  assumes "\<forall>p\<in>set ps. is_double p \<and> 0 < p"
  shows "\<exists>rs. map (\<lambda>x. np_div x (np_add x (Fin eps9))) (map Fin ps) = map Fin rs
              \<and> (\<forall>r\<in>set rs. is_double r \<and> 0 < r \<and> r \<le> 1)
              \<and> ((\<forall>p\<in>set ps. eps9 \<le> p) \<longrightarrow> (\<forall>r\<in>set rs. 1 / 2 \<le> r))
              \<and> ((\<forall>p\<in>set ps. 2 ^ 24 \<le> p) \<longrightarrow> (\<forall>r\<in>set rs. r = 1))"
  using assms
proof (induction ps)
  case Nil
  then show ?case by simp
next
  case (Cons p ps)
  then have p: "is_double p" "0 < p" and rest: "\<forall>p\<in>set ps. is_double p \<and> 0 < p" by simp_all
  from echo_ratio_range[OF p] obtain r where
    r: "np_div (Fin p) (np_add (Fin p) (Fin eps9)) = Fin r" "is_double r" "0 < r" "r \<le> 1"
       "eps9 \<le> p \<longrightarrow> 1 / 2 \<le> r" "2 ^ 24 \<le> p \<longrightarrow> r = 1" by blast
  from Cons.IH[OF rest] obtain rs where
    rs: "map (\<lambda>x. np_div x (np_add x (Fin eps9))) (map Fin ps) = map Fin rs"
        "\<forall>r\<in>set rs. is_double r \<and> 0 < r \<and> r \<le> 1"
        "(\<forall>p\<in>set ps. eps9 \<le> p) \<longrightarrow> (\<forall>r\<in>set rs. 1 / 2 \<le> r)"
        "(\<forall>p\<in>set ps. 2 ^ 24 \<le> p) \<longrightarrow> (\<forall>r\<in>set rs. r = 1)" by blast
  have "map (\<lambda>x. np_div x (np_add x (Fin eps9))) (map Fin (p # ps)) = map Fin (r # rs)"
    using r(1) rs(1) by simp
  moreover have "\<forall>x\<in>set (r # rs). is_double x \<and> 0 < x \<and> x \<le> 1" using r(2,3,4) rs(2) by simp
  moreover have "(\<forall>q\<in>set (p # ps). eps9 \<le> q) \<longrightarrow> (\<forall>x\<in>set (r # rs). 1 / 2 \<le> x)"
    using r(5) rs(3) by simp
  moreover have "(\<forall>q\<in>set (p # ps). 2 ^ 24 \<le> q) \<longrightarrow> (\<forall>x\<in>set (r # rs). x = 1)"
    using r(6) rs(4) by simp
  ultimately show ?case by blast
qed

lemma np_mul_one: "np_mul b (Fin 1) = rnd b"
  by (simp add: np_mul_def py_mul_one)

text \<open>
  Claim C2, as amended. For a non-empty comp set whose prices are positive doubles, and a
  model that predicts every comp's actual price, every ratio
  \<open>p / (p + 1e-9)\<close>, computed in double precision, is a number in \<open>(0, 1]\<close>. The
  factor is their median: the middle one of the sorted ratios, or the rounded mean of the
  two middle ones, so that at least half of the ratios are at or below it and at least half
  at or above it. It lies in \<open>(0, 1]\<close>, passes the validity gate, and the adjusted price
  is the base price times it. The factor is at least 0.5 when no price is below the
  epsilon, and it is exactly 1.0, the adjusted price being the base price as a double,
  when every price is at least \<open>2^24\<close>, where adding the epsilon is absorbed by rounding.
\<close>

theorem equal_predictions_factor:
  assumes "recent \<noteq> []" and "map r_price recent = map Fin ps"
    and "\<forall>p\<in>set ps. is_double p \<and> 0 < p"
    and "house_pipe recent = Some (map r_price recent)"
  shows "\<exists>rs f. ratio_actual_pred recent (map r_price recent) = map Fin rs
           \<and> (\<forall>r\<in>set rs. 0 < r \<and> r \<le> 1)
           \<and> Fin f = (if odd (length rs) then Fin (sort rs ! (length rs div 2))
                      else np_div (np_add (Fin (sort rs ! (length rs div 2 - 1)))
                                          (Fin (sort rs ! (length rs div 2)))) (Fin 2))
           \<and> length rs \<le> 2 * length (filter (\<lambda>r. r \<le> f) rs)
           \<and> length rs \<le> 2 * length (filter (\<lambda>r. f \<le> r) rs)
           \<and> 0 < f \<and> f \<le> 1
           \<and> adjust (Some house_pipe) base_price recent
               = (Fin f, np_mul base_price (Fin f), recent)
           \<and> ((\<forall>p\<in>set ps. eps9 \<le> p) \<longrightarrow> 1 / 2 \<le> f)
           \<and> ((\<forall>p\<in>set ps. 2 ^ 24 \<le> p) \<longrightarrow>
                f = 1 \<and> adjust (Some house_pipe) base_price recent = (Fin 1, rnd base_price, recent))"
proof -
  from echo_ratio_list[OF assms(3)] obtain rs where
    rs: "map (\<lambda>x. np_div x (np_add x (Fin eps9))) (map Fin ps) = map Fin rs"
        "\<forall>r\<in>set rs. is_double r \<and> 0 < r \<and> r \<le> 1"
        "(\<forall>p\<in>set ps. eps9 \<le> p) \<longrightarrow> (\<forall>r\<in>set rs. 1 / 2 \<le> r)"
        "(\<forall>p\<in>set ps. 2 ^ 24 \<le> p) \<longrightarrow> (\<forall>r\<in>set rs. r = 1)" by blast
  have ratio: "ratio_actual_pred recent (map r_price recent) = map Fin rs"
    by (subst ratio_of_equal_prediction) (simp only: assms(2) rs(1))
  have "length rs = length recent"
    using ratio by (metis length_map ratio_of_equal_prediction)
  with assms(1) have ne: "rs \<noteq> []" by auto
  from median_of_doubles[OF ne rs(2)] obtain f where
    f: "series_median (map Fin rs) = Fin f"
       "Fin f = (if odd (length rs) then Fin (sort rs ! (length rs div 2))
                      else np_div (np_add (Fin (sort rs ! (length rs div 2 - 1)))
                                          (Fin (sort rs ! (length rs div 2)))) (Fin 2))"
       "sort rs ! ((length rs - 1) div 2) \<le> f" "f \<le> sort rs ! (length rs div 2)" by blast
  note counts = median_counts[OF ne f(3,4)]
  have n: "0 < length rs" using ne by simp
  have mem: "sort rs ! i \<in> set rs" if "i < length rs" for i
  proof -
    from that have "i < length (sort rs)" by simp
    then have "sort rs ! i \<in> set (sort rs)" by (rule nth_mem)
    then show ?thesis by simp
  qed
  have "(length rs - 1) div 2 < length rs" using n by presburger
  then have lo_mem: "sort rs ! ((length rs - 1) div 2) \<in> set rs" by (rule mem)
  have hi_mem: "sort rs ! (length rs div 2) \<in> set rs" using n by (intro mem) simp
  have fpos: "0 < f" using rs(2) lo_mem f(3) by (smt (verit))
  have fle: "f \<le> 1" using rs(2) hi_mem f(4) by (smt (verit))
  have pc: "predict_comps house_pipe recent = Some (map r_price recent)"
    using assms(4) by (simp add: predict_comps_def)
  have adj: "adjust (Some house_pipe) base_price recent
               = (Fin f, np_mul base_price (Fin f), recent)"
    using pc ratio f(1) fpos by (simp add: adjust_def Let_def)
  have half: "1 / 2 \<le> f" if "\<forall>p\<in>set ps. eps9 \<le> p"
    using rs(3) that lo_mem f(3) by (smt (verit))
  have one: "f = 1 \<and> adjust (Some house_pipe) base_price recent = (Fin 1, rnd base_price, recent)"
    if "\<forall>p\<in>set ps. 2 ^ 24 \<le> p"
  proof -
    from rs(4) that lo_mem have "sort rs ! ((length rs - 1) div 2) = 1" by blast
    with f(3) fle have "f = 1" by linarith
    with adj show ?thesis by (simp add: np_mul_one)
  qed
  have range: "\<forall>r\<in>set rs. 0 < r \<and> r \<le> 1" using rs(2) by blast
  from ratio range f(2) counts fpos fle adj half one show ?thesis by blast
qed

section \<open>The example runs\<close>

lemma np_add_Fin: "np_add (Fin a) (Fin b) = round_double (a + b)"
  by (simp add: np_add_def)

lemma np_mul_Fin: "np_mul (Fin a) (Fin b) = round_double (a * b)"
  by (simp add: np_mul_def)

lemma np_div_Fin: "b \<noteq> 0 \<Longrightarrow> np_div (Fin a) (Fin b) = round_double (a / b)"
  by (simp add: np_div_def)

lemma map_Fin_eq: "map Fin xs = map Fin ys \<longleftrightarrow> xs = ys"
  by (rule inj_map_eq_map) (simp add: inj_def)

lemma not_blank_a: "\<not> blank ''a''"
  by (simp add: blank_def strip_def isspace_def)

lemma example_geocode:
  "cached_geocode example_geo ''a'' empty_disk = (Inr (Some (Fin 1), Some (Fin 2)), one_entry_disk)"
  by (simp add: cached_geocode_def not_blank_a empty_disk_facts geocode_address_def
      example_geo_def store_on_empty_disk)

lemma denied_geo_fails: "geocoder_fails denied_geo ''a''"
  by (simp add: geocoder_fails_def denied_geo_def)

lemma example_local_comps:
  "local_comps (Fin 1) (Fin 2) example_request example_now [example_sale (Fin 1) (Fin p) july_20]
     = Inr [example_sale (Fin 1) (Fin p) july_20]"
proof -
  have d: "dropna [example_sale (Fin 1) (Fin p) july_20] = [example_sale (Fin 1) (Fin p) july_20]"
    by (simp add: dropna_def example_sale_def)
  have k: "dist_km (Fin 1) (Fin 2) [example_sale (Fin 1) (Fin p) july_20] = Inr [Fin 0]"
    by (simp add: example_sale_def haversine_km_fin haversine_self)
  have c: "cutoff_of example_now (req_months example_request) = 739083 * micros_per_day"
    by (simp add: cutoff_of_def example_request_def example_micros)
  have s: "select_recent (739083 * micros_per_day) 2 [example_sale (Fin 1) (Fin p) july_20] [Fin 0]
             = [example_sale (Fin 1) (Fin p) july_20]"
    by (simp add: select_recent_def date_ge_def example_sale_def example_micros micros_per_day_def)
  have rq: "req_radius_km example_request = 2" by (simp add: example_request_def)
  show ?thesis
    by (simp only: local_comps_def Let_def d k c and_then.simps rq s)
qed

lemma example_world_fields:
  "geo (example_world g hp hist) = g" "base_prediction (example_world g hp hist) = Some (Fin 1000)"
  "rows (historical_sales (example_world g hp hist)) = hist"
  "columns (historical_sales (example_world g hp hist)) = required_columns"
  "house_model (example_world g hp hist) = hp" "utcnow (example_world g hp hist) = example_now"
  "df_empty (historical_sales (example_world g hp hist)) \<longleftrightarrow> hist = []"
  by (simp_all add: example_world_def df_empty_def required_columns_def)

text \<open>The example run is geocoded, has a base price and selects its one sale.\<close>

lemma example_located:
  "\<not> blank (req_address example_request)
   \<and> cached_geocode (geo (example_world example_geo hp [example_sale (Fin 1) (Fin p) july_20]))
       (req_address example_request) empty_disk
      = (Inr (Some (Fin 1), Some (Fin 2)), one_entry_disk)
   \<and> base_prediction (example_world example_geo hp [example_sale (Fin 1) (Fin p) july_20])
      = Some (Fin 1000)
   \<and> \<not> df_empty (historical_sales (example_world example_geo hp [example_sale (Fin 1) (Fin p) july_20]))
   \<and> set required_columns
      \<subseteq> set (columns (historical_sales
              (example_world example_geo hp [example_sale (Fin 1) (Fin p) july_20])))
   \<and> local_comps (Fin 1) (Fin 2) example_request
        (utcnow (example_world example_geo hp [example_sale (Fin 1) (Fin p) july_20]))
        (rows (historical_sales (example_world example_geo hp [example_sale (Fin 1) (Fin p) july_20])))
      = Inr [example_sale (Fin 1) (Fin p) july_20]
   \<and> [example_sale (Fin 1) (Fin p) july_20] \<noteq> []"
proof -
  have a: "req_address example_request = ''a''" by (simp add: example_request_def)
  show ?thesis
    by (simp add: a not_blank_a example_world_fields example_geocode example_local_comps)
qed

lemma example_run_eq:
  assumes "adjust (Some hp) (Fin 1000) [example_sale (Fin 1) (Fin p) july_20] = (Fin f, Fin a, c)"
  shows "example_run hp p = Inr (example_result 1000 f a c, one_entry_disk)"
proof -
  let ?w = "example_world example_geo (Some hp) [example_sale (Fin 1) (Fin p) july_20]"
  note l = example_located[of "Some hp" p]
  have h: "house_model ?w = Some hp" by (simp add: example_world_fields)
  have "render_valuation ?w example_request empty_disk
          = Inr (result (Some (Fin 1000)) (Fin f, Some (Fin a), c), one_entry_disk)"
    using l assms by (intro render_valuation_adjusted[where lat = "Fin 1" and lon = "Fin 2"])
      (simp_all add: h)
  then show ?thesis by (simp add: example_run_def result_def example_result_def)
qed

lemma example_prices:
  "map r_price [example_sale (Fin 1) (Fin p) july_20] = [Fin p]"
  "r_price (example_sale la (Fin p) t) = Fin p"
  by (simp_all add: example_sale_def)

lemma echo_predicts:
  "predict_comps echo_pipeline recent = Some (map r_price recent)"
  "echo_pipeline recent = Some (map r_price recent)"
  by (simp_all add: predict_comps_def echo_pipeline_def)

lemma raising_predicts: "predict_comps raising_pipeline recent = None"
  by (simp add: predict_comps_def raising_pipeline_def)

text \<open>The ratios of the example prices, and the median of one ratio.\<close>

lemma echo_ratio_1000:
  "np_div (Fin 1000) (np_add (Fin 1000) (Fin eps9)) = Fin (1 - 9007 * 2 powi (- 53))"
proof -
  have nz: "(1000 + 8796 * 2 powi (- 43) :: real) \<noteq> 0" by (simp add: power_int_minus)
  show ?thesis
    by (simp only: np_add_Fin round_1000_plus np_div_Fin[OF nz] round_ratio_1000)
qed

lemma echo_ratio_5000000:
  "np_div (Fin 5000000) (np_add (Fin 5000000) (Fin eps9)) = Fin (1 - 2 powi (- 52))"
proof -
  have nz: "(5000000 + 2 powi (- 30) :: real) \<noteq> 0" by (simp add: power_int_minus)
  show ?thesis
    by (simp only: np_add_Fin round_5000000_plus np_div_Fin[OF nz] round_ratio_5000000)
qed

lemma echo_ratio_high:
  "np_div (Fin (2 ^ 25)) (np_add (Fin (2 ^ 25)) (Fin eps9)) = Fin 1"
proof -
  have nz: "(2 ^ 25 :: real) \<noteq> 0" by simp
  have "round_double (2 ^ 25 / 2 ^ 25) = Fin 1" using is_double_one by (simp add: is_double_def)
  then show ?thesis
    by (simp only: np_add_Fin round_high_plus np_div_Fin[OF nz])
qed

lemma echo_ratio_zero: "np_div (Fin 0) (np_add (Fin 0) (Fin eps9)) = Fin 0"
proof -
  have nz: "eps9 \<noteq> 0" using eps9_bounds(1) by simp
  have s: "round_double (0 + eps9) = Fin eps9" using is_double_eps9 by (simp add: is_double_def)
  have "round_double (0 / eps9) = Fin 0" by (simp add: round_double_def)
  then show ?thesis
    by (simp only: np_add_Fin s np_div_Fin[OF nz])
qed

lemma example_ratio:
  "ratio_actual_pred [example_sale (Fin 1) (Fin p) july_20] [Fin p]
     = [np_div (Fin p) (np_add (Fin p) (Fin eps9))]"
  by (simp add: ratio_actual_pred_def example_prices)

lemma example_median_price:
  "series_median (map r_price [example_sale (Fin 1) (Fin p) july_20]) = Fin p"
  by (simp only: example_prices series_median_single)

lemma example_fallback:
  "median_fallback (Fin 1000) [example_sale (Fin 1) (Fin p) july_20]
     = (if p \<noteq> 0
        then (np_div (Fin p) (Fin 1000), np_mul (Fin 1000) (np_div (Fin p) (Fin 1000)),
              [example_sale (Fin 1) (Fin p) july_20])
        else (Fin 1, Fin 1000, []))"
  unfolding median_fallback_eq example_median_price by simp

lemma small_values:
  "(0::real) < 1 - 9007 * 2 powi (- 53)" "(1 - 9007 * 2 powi (- 53) :: real) \<noteq> 1"
  "(1000 - 8796 * 2 powi (- 43) :: real) \<noteq> 1000"
  "(0::real) < 1 - 2 powi (- 52)" "(0::real) < 1 - 2 powi (- 53)"
  by (simp_all add: power_int_minus)

lemma fallback_roundings:
  "np_div (Fin 2000) (Fin 1000) = Fin 2" "np_mul (Fin 1000) (Fin 2) = Fin 2000"
  "np_div (Fin (- 1000)) (Fin 1000) = Fin (- 1)" "np_mul (Fin 1000) (Fin (- 1)) = Fin (- 1000)"
  "np_mul (Fin 1000) (Fin (1 - 9007 * 2 powi (- 53))) = Fin (1000 - 8796 * 2 powi (- 43))"
  "np_mul (Fin 1000) (Fin (1 - 2 powi (- 52))) = Fin (1000 - 2 powi (- 42))"
  "rnd (Fin 1000) = Fin 1000"
proof -
  show "np_div (Fin 2000) (Fin 1000) = Fin 2"
    using is_double_numerals(1) by (simp add: np_div_def is_double_def)
  show "np_mul (Fin 1000) (Fin 2) = Fin 2000"
    using is_double_numerals(3) by (simp add: np_mul_def is_double_def)
  show "np_div (Fin (- 1000)) (Fin 1000) = Fin (- 1)"
    using round_double_minus[OF is_double_one] by (simp add: np_div_def)
  show "np_mul (Fin 1000) (Fin (- 1)) = Fin (- 1000)"
    using round_double_minus[OF is_double_numerals(2)] by (simp add: np_mul_def)
  show "np_mul (Fin 1000) (Fin (1 - 9007 * 2 powi (- 53))) = Fin (1000 - 8796 * 2 powi (- 43))"
    by (simp only: np_mul_Fin round_adjusted_1000)
  show "np_mul (Fin 1000) (Fin (1 - 2 powi (- 52))) = Fin (1000 - 2 powi (- 42))"
    by (simp only: np_mul_Fin round_adjusted_5000000)
  show "rnd (Fin 1000) = Fin 1000" using is_double_numerals(2) by (simp add: is_double_def)
qed

text \<open>
  The runs on one comp with base price 1000. With the model that predicts the actual
  price: a comp of price 1000 gives a factor just below 1, a comp of price 0 gives the
  ratio 0, which the gate resets. With the model that raises: a comp of price 2000 gives
  the factor 2, a comp of price -1000 the factor -1, and a comp of price 0 leaves the
  initial values.
\<close>

lemma echo_run_1000:
  "example_run echo_pipeline 1000
     = Inr (example_result 1000 (1 - 9007 * 2 powi (- 53)) (1000 - 8796 * 2 powi (- 43))
              [example_sale (Fin 1) (Fin 1000) july_20], one_entry_disk)"
proof (rule example_run_eq)
  show "adjust (Some echo_pipeline) (Fin 1000) [example_sale (Fin 1) (Fin 1000) july_20]
          = (Fin (1 - 9007 * 2 powi (- 53)), Fin (1000 - 8796 * 2 powi (- 43)),
             [example_sale (Fin 1) (Fin 1000) july_20])"
    unfolding adjust_model[OF echo_predicts(1)] example_prices(1) example_ratio echo_ratio_1000
      series_median_single
    by (simp only: fallback_roundings isfinite.simps py_lt.simps small_values simp_thms if_True)
qed

lemma echo_run_zero:
  "example_run echo_pipeline 0
     = Inr (example_result 1000 1 1000 [example_sale (Fin 1) (Fin 0) july_20], one_entry_disk)"
proof (rule example_run_eq)
  show "adjust (Some echo_pipeline) (Fin 1000) [example_sale (Fin 1) (Fin 0) july_20]
          = (Fin 1, Fin 1000, [example_sale (Fin 1) (Fin 0) july_20])"
    unfolding adjust_model[OF echo_predicts(1)] example_prices(1) example_ratio echo_ratio_zero
      series_median_single
    by simp
qed

lemma raising_run_2000:
  "example_run raising_pipeline 2000
     = Inr (example_result 1000 2 2000 [example_sale (Fin 1) (Fin 2000) july_20], one_entry_disk)"
proof (rule example_run_eq)
  have "adjust (Some raising_pipeline) (Fin 1000) [example_sale (Fin 1) (Fin 2000) july_20]
          = median_fallback (Fin 1000) [example_sale (Fin 1) (Fin 2000) july_20]"
    by (intro adjust_fallback) (simp add: raising_predicts)
  then show "adjust (Some raising_pipeline) (Fin 1000) [example_sale (Fin 1) (Fin 2000) july_20]
          = (Fin 2, Fin 2000, [example_sale (Fin 1) (Fin 2000) july_20])"
    by (simp add: example_fallback fallback_roundings)
qed

lemma raising_run_negative:
  "example_run raising_pipeline (- 1000)
     = Inr (example_result 1000 (- 1) (- 1000) [example_sale (Fin 1) (Fin (- 1000)) july_20],
            one_entry_disk)"
proof (rule example_run_eq)
  have "adjust (Some raising_pipeline) (Fin 1000) [example_sale (Fin 1) (Fin (- 1000)) july_20]
          = median_fallback (Fin 1000) [example_sale (Fin 1) (Fin (- 1000)) july_20]"
    by (intro adjust_fallback) (simp add: raising_predicts)
  then show "adjust (Some raising_pipeline) (Fin 1000) [example_sale (Fin 1) (Fin (- 1000)) july_20]
          = (Fin (- 1), Fin (- 1000), [example_sale (Fin 1) (Fin (- 1000)) july_20])"
    by (simp add: example_fallback fallback_roundings)
qed

lemma raising_run_zero:
  "example_run raising_pipeline 0 = Inr (example_result 1000 1 1000 [], one_entry_disk)"
proof (rule example_run_eq)
  have "adjust (Some raising_pipeline) (Fin 1000) [example_sale (Fin 1) (Fin 0) july_20]
          = median_fallback (Fin 1000) [example_sale (Fin 1) (Fin 0) july_20]"
    by (intro adjust_fallback) (simp add: raising_predicts)
  then show "adjust (Some raising_pipeline) (Fin 1000) [example_sale (Fin 1) (Fin 0) july_20]
          = (Fin 1, Fin 1000, [])"
    by (simp add: example_fallback)
qed

lemma example_result_fields:
  "res_base_price (example_result b f a c) = Some (Fin b)" "res_factor (example_result b f a c) = Fin f"
  "res_adjusted_price (example_result b f a c) = Some (Fin a)" "res_comps (example_result b f a c) = c"
  "res_confidence (example_result b f a c) = Some (confidence_of (length c))"
  by (simp_all add: example_result_def)

section \<open>Instances of the valuation theorems\<close>

text \<open>
  Four runs on one comp with base price 1000: the model path with a factor that passes the
  gate and with one that is reset, the fallback with both values non-zero and with a zero
  median.
\<close>

theorem valuation_factor_gate_witness:
  "(\<exists>v. example_run echo_pipeline 1000 = Inr (v, one_entry_disk)
        \<and> res_base_price v = Some (Fin 1000)
        \<and> res_factor v = Fin (1 - 9007 * 2 powi (- 53))
        \<and> res_adjusted_price v = Some (Fin (1000 - 8796 * 2 powi (- 43)))
        \<and> res_comps v = [example_sale (Fin 1) (Fin 1000) july_20])
   \<and> (\<exists>v. example_run echo_pipeline 0 = Inr (v, one_entry_disk)
        \<and> res_base_price v = Some (Fin 1000)
        \<and> res_factor v = Fin 1
        \<and> res_adjusted_price v = Some (Fin 1000)
        \<and> res_comps v = [example_sale (Fin 1) (Fin 0) july_20])
   \<and> (\<exists>v. example_run raising_pipeline 2000 = Inr (v, one_entry_disk)
        \<and> res_base_price v = Some (Fin 1000)
        \<and> res_factor v = Fin 2
        \<and> res_adjusted_price v = Some (Fin 2000)
        \<and> res_comps v = [example_sale (Fin 1) (Fin 2000) july_20])
   \<and> (\<exists>v. example_run raising_pipeline 0 = Inr (v, one_entry_disk)
        \<and> res_base_price v = Some (Fin 1000)
        \<and> res_factor v = Fin 1
        \<and> res_adjusted_price v = Some (Fin 1000)
        \<and> res_comps v = [])
   \<and> isfinite (Fin (1 - 9007 * 2 powi (- 53))) \<and> py_lt (Fin 0) (Fin (1 - 9007 * 2 powi (- 53)))"
proof -
  have echo: "house_model (example_world example_geo (Some echo_pipeline) hist) = Some echo_pipeline
      \<and> predict_comps echo_pipeline [example_sale (Fin 1) (Fin p) july_20] = Some [Fin p]" for hist p
    by (simp add: example_world_fields echo_predicts example_prices)
  have raising: "house_model (example_world example_geo (Some raising_pipeline) hist) = None
      \<or> (\<exists>pipe. house_model (example_world example_geo (Some raising_pipeline) hist) = Some pipe
            \<and> predict_comps pipe [example_sale (Fin 1) (Fin p) july_20] = None)" for hist p
    by (simp add: example_world_fields raising_predicts)
  have m1: "series_median (ratio_actual_pred [example_sale (Fin 1) (Fin 1000) july_20] [Fin 1000])
              = Fin (1 - 9007 * 2 powi (- 53))"
    by (simp only: example_ratio echo_ratio_1000 series_median_single)
  have m2: "series_median (ratio_actual_pred [example_sale (Fin 1) (Fin 0) july_20] [Fin 0]) = Fin 0"
    by (simp only: example_ratio echo_ratio_zero series_median_single)
  have g1: "isfinite (Fin (1 - 9007 * 2 powi (- 53))) \<and> py_lt (Fin 0) (Fin (1 - 9007 * 2 powi (- 53)))"
    by (simp only: isfinite.simps py_lt.simps small_values simp_thms)
  have g2: "\<not> (isfinite (Fin 0) \<and> py_lt (Fin 0) (Fin 0))" by simp
  have t3: "truthy (Fin 2000) \<and> truthy (Fin 1000)" by simp
  have t4: "\<not> (truthy (Fin 0) \<and> truthy (Fin 1000))" by simp
  have r1: "\<exists>v. example_run echo_pipeline 1000 = Inr (v, one_entry_disk)
        \<and> res_base_price v = Some (Fin 1000)
        \<and> res_factor v = Fin (1 - 9007 * 2 powi (- 53))
        \<and> res_adjusted_price v = Some (Fin (1000 - 8796 * 2 powi (- 43)))
        \<and> res_comps v = [example_sale (Fin 1) (Fin 1000) july_20]"
  proof -
    from valuation_factor_gate[THEN conjunct2, THEN mp, OF example_located[of "Some echo_pipeline" 1000]]
    obtain v where v: "render_valuation
          (example_world example_geo (Some echo_pipeline) [example_sale (Fin 1) (Fin 1000) july_20])
          example_request empty_disk = Inr (v, one_entry_disk)"
      "res_base_price v = Some (Fin 1000)"
      and model: "\<forall>pipe preds.
          house_model (example_world example_geo (Some echo_pipeline)
             [example_sale (Fin 1) (Fin 1000) july_20]) = Some pipe
          \<and> predict_comps pipe [example_sale (Fin 1) (Fin 1000) july_20] = Some preds \<longrightarrow>
          res_comps v = [example_sale (Fin 1) (Fin 1000) july_20] \<and>
          (if isfinite (series_median (ratio_actual_pred [example_sale (Fin 1) (Fin 1000) july_20] preds))
              \<and> py_lt (Fin 0) (series_median (ratio_actual_pred [example_sale (Fin 1) (Fin 1000) july_20] preds))
           then res_factor v = series_median (ratio_actual_pred [example_sale (Fin 1) (Fin 1000) july_20] preds)
                \<and> res_adjusted_price v
                    = Some (np_mul (Fin 1000)
                        (series_median (ratio_actual_pred [example_sale (Fin 1) (Fin 1000) july_20] preds)))
           else res_factor v = Fin 1 \<and> res_adjusted_price v = Some (Fin 1000))"
      by blast
    from model[rule_format, OF echo[of _ 1000]] g1
    have "res_comps v = [example_sale (Fin 1) (Fin 1000) july_20]
          \<and> res_factor v = Fin (1 - 9007 * 2 powi (- 53))
          \<and> res_adjusted_price v = Some (np_mul (Fin 1000) (Fin (1 - 9007 * 2 powi (- 53))))"
      unfolding m1 by (simp only: if_True simp_thms)
    with v show ?thesis by (simp only: example_run_def fallback_roundings) blast
  qed
  have r2: "\<exists>v. example_run echo_pipeline 0 = Inr (v, one_entry_disk)
        \<and> res_base_price v = Some (Fin 1000)
        \<and> res_factor v = Fin 1
        \<and> res_adjusted_price v = Some (Fin 1000)
        \<and> res_comps v = [example_sale (Fin 1) (Fin 0) july_20]"
  proof -
    from valuation_factor_gate[THEN conjunct2, THEN mp, OF example_located[of "Some echo_pipeline" 0]]
    obtain v where v: "render_valuation
          (example_world example_geo (Some echo_pipeline) [example_sale (Fin 1) (Fin 0) july_20])
          example_request empty_disk = Inr (v, one_entry_disk)"
      "res_base_price v = Some (Fin 1000)"
      and model: "\<forall>pipe preds.
          house_model (example_world example_geo (Some echo_pipeline)
             [example_sale (Fin 1) (Fin 0) july_20]) = Some pipe
          \<and> predict_comps pipe [example_sale (Fin 1) (Fin 0) july_20] = Some preds \<longrightarrow>
          res_comps v = [example_sale (Fin 1) (Fin 0) july_20] \<and>
          (if isfinite (series_median (ratio_actual_pred [example_sale (Fin 1) (Fin 0) july_20] preds))
              \<and> py_lt (Fin 0) (series_median (ratio_actual_pred [example_sale (Fin 1) (Fin 0) july_20] preds))
           then res_factor v = series_median (ratio_actual_pred [example_sale (Fin 1) (Fin 0) july_20] preds)
                \<and> res_adjusted_price v
                    = Some (np_mul (Fin 1000)
                        (series_median (ratio_actual_pred [example_sale (Fin 1) (Fin 0) july_20] preds)))
           else res_factor v = Fin 1 \<and> res_adjusted_price v = Some (Fin 1000))"
      by blast
    from model[rule_format, OF echo[of _ 0]] g2
    have "res_comps v = [example_sale (Fin 1) (Fin 0) july_20]
          \<and> res_factor v = Fin 1 \<and> res_adjusted_price v = Some (Fin 1000)"
      unfolding m2 by (simp only: if_False simp_thms)
    with v show ?thesis by (simp only: example_run_def) blast
  qed
  have r3: "\<exists>v. example_run raising_pipeline 2000 = Inr (v, one_entry_disk)
        \<and> res_base_price v = Some (Fin 1000)
        \<and> res_factor v = Fin 2
        \<and> res_adjusted_price v = Some (Fin 2000)
        \<and> res_comps v = [example_sale (Fin 1) (Fin 2000) july_20]"
  proof -
    from valuation_factor_gate[THEN conjunct2, THEN mp, OF example_located[of "Some raising_pipeline" 2000]]
    obtain v where v: "render_valuation
          (example_world example_geo (Some raising_pipeline) [example_sale (Fin 1) (Fin 2000) july_20])
          example_request empty_disk = Inr (v, one_entry_disk)"
      "res_base_price v = Some (Fin 1000)"
      and fb: "house_model (example_world example_geo (Some raising_pipeline)
                 [example_sale (Fin 1) (Fin 2000) july_20]) = None
          \<or> (\<exists>pipe. house_model (example_world example_geo (Some raising_pipeline)
                 [example_sale (Fin 1) (Fin 2000) july_20]) = Some pipe
                \<and> predict_comps pipe [example_sale (Fin 1) (Fin 2000) july_20] = None) \<longrightarrow>
          (if truthy (series_median (map r_price [example_sale (Fin 1) (Fin 2000) july_20]))
              \<and> truthy (Fin 1000)
           then res_factor v
                  = np_div (series_median (map r_price [example_sale (Fin 1) (Fin 2000) july_20])) (Fin 1000)
                \<and> res_adjusted_price v
                    = Some (np_mul (Fin 1000)
                        (np_div (series_median (map r_price [example_sale (Fin 1) (Fin 2000) july_20]))
                           (Fin 1000)))
                \<and> res_comps v = [example_sale (Fin 1) (Fin 2000) july_20]
           else res_factor v = Fin 1 \<and> res_adjusted_price v = Some (Fin 1000) \<and> res_comps v = [])"
      by blast
    from fb[rule_format, OF raising[of _ 2000]] t3
    have "res_factor v = Fin 2 \<and> res_adjusted_price v = Some (Fin 2000)
          \<and> res_comps v = [example_sale (Fin 1) (Fin 2000) july_20]"
      unfolding example_median_price by (simp only: if_True simp_thms fallback_roundings)
    with v show ?thesis by (simp only: example_run_def) blast
  qed
  have r4: "\<exists>v. example_run raising_pipeline 0 = Inr (v, one_entry_disk)
        \<and> res_base_price v = Some (Fin 1000)
        \<and> res_factor v = Fin 1
        \<and> res_adjusted_price v = Some (Fin 1000)
        \<and> res_comps v = []"
  proof -
    from valuation_factor_gate[THEN conjunct2, THEN mp, OF example_located[of "Some raising_pipeline" 0]]
    obtain v where v: "render_valuation
          (example_world example_geo (Some raising_pipeline) [example_sale (Fin 1) (Fin 0) july_20])
          example_request empty_disk = Inr (v, one_entry_disk)"
      "res_base_price v = Some (Fin 1000)"
      and fb: "house_model (example_world example_geo (Some raising_pipeline)
                 [example_sale (Fin 1) (Fin 0) july_20]) = None
          \<or> (\<exists>pipe. house_model (example_world example_geo (Some raising_pipeline)
                 [example_sale (Fin 1) (Fin 0) july_20]) = Some pipe
                \<and> predict_comps pipe [example_sale (Fin 1) (Fin 0) july_20] = None) \<longrightarrow>
          (if truthy (series_median (map r_price [example_sale (Fin 1) (Fin 0) july_20]))
              \<and> truthy (Fin 1000)
           then res_factor v
                  = np_div (series_median (map r_price [example_sale (Fin 1) (Fin 0) july_20])) (Fin 1000)
                \<and> res_adjusted_price v
                    = Some (np_mul (Fin 1000)
                        (np_div (series_median (map r_price [example_sale (Fin 1) (Fin 0) july_20]))
                           (Fin 1000)))
                \<and> res_comps v = [example_sale (Fin 1) (Fin 0) july_20]
           else res_factor v = Fin 1 \<and> res_adjusted_price v = Some (Fin 1000) \<and> res_comps v = [])"
      by blast
    from fb[rule_format, OF raising[of _ 0]] t4
    have "res_factor v = Fin 1 \<and> res_adjusted_price v = Some (Fin 1000) \<and> res_comps v = []"
      unfolding example_median_price by (simp only: if_False simp_thms)
    with v show ?thesis by (simp only: example_run_def) blast
  qed
  have a: "isfinite (Fin (1 - 9007 * 2 powi (- 53))) \<and> py_lt (Fin 0) (Fin (1 - 9007 * 2 powi (- 53)))"
  proof -
    let ?w = "example_world example_geo (Some echo_pipeline) [example_sale (Fin 1) (Fin 1000) july_20]"
    let ?v = "example_result 1000 (1 - 9007 * 2 powi (- 53)) (1000 - 8796 * 2 powi (- 43))
                [example_sale (Fin 1) (Fin 1000) july_20]"
    have run: "render_valuation ?w example_request empty_disk = Inr (?v, one_entry_disk)
               \<and> res_base_price ?v = Some (Fin 1000)"
      using echo_run_1000 by (simp add: example_run_def example_result_fields)
    have path: "\<exists>pipe. house_model ?w = Some pipe \<and> predict_comps pipe (res_comps ?v) \<noteq> None"
      by (simp add: example_world_fields echo_predicts example_result_fields)
    from valuation_factor_gate[THEN conjunct1, THEN mp, OF run, THEN conjunct2, THEN mp, OF path]
    show ?thesis by (simp only: example_result_fields)
  qed
  from r1 r2 r3 r4 a show ?thesis by (intro conjI) (erule conjunct1 conjunct2 | assumption)+
qed

text \<open>
  The claim as stated fails on the fallback: with a prediction that raises and a comp of
  price -1000 against a base price of 1000, the run returns factor -1 and adjusted price
  -1000.
\<close>

theorem valuation_factor_gate_counterexample:
  "example_run raising_pipeline (- 1000)
     = Inr (example_result 1000 (- 1) (- 1000) [example_sale (Fin 1) (Fin (- 1000)) july_20],
            one_entry_disk)
   \<and> res_factor (example_result 1000 (- 1) (- 1000) [example_sale (Fin 1) (Fin (- 1000)) july_20])
       = Fin (- 1)
   \<and> res_adjusted_price
        (example_result 1000 (- 1) (- 1000) [example_sale (Fin 1) (Fin (- 1000)) july_20])
       = Some (Fin (- 1000))
   \<and> \<not> py_lt (Fin 0) (Fin (- 1))"
  using raising_run_negative by (simp add: example_result_fields)

text \<open>
  Three comp sets predicted at their actual prices, against a base price of 1000. Prices
  \<open>2^25\<close>, 1000 and 5000000 give the ratios 1, \<open>1 - 9007 * 2^-53\<close> and
  \<open>1 - 2^-52\<close>, whose median is \<open>1 - 2^-52\<close>. Prices 5000000 and \<open>2^25\<close> give
  the rounded mean \<open>1 - 2^-53\<close> of the two ratios. The price \<open>2^25\<close> alone
  gives the factor 1 and the base price.
\<close>

theorem equal_predictions_factor_witness:
  "[example_sale (Fin 1) (Fin (2 ^ 25)) july_20, example_sale (Fin 1) (Fin 1000) july_20,
    example_sale (Fin 1) (Fin 5000000) july_20] \<noteq> []
   \<and> map r_price [example_sale (Fin 1) (Fin (2 ^ 25)) july_20, example_sale (Fin 1) (Fin 1000) july_20,
                   example_sale (Fin 1) (Fin 5000000) july_20]
      = map Fin [2 ^ 25, 1000, 5000000]
   \<and> is_double (2 ^ 25) \<and> is_double 1000 \<and> is_double 5000000
   \<and> adjust (Some echo_pipeline) (Fin 1000)
        [example_sale (Fin 1) (Fin (2 ^ 25)) july_20, example_sale (Fin 1) (Fin 1000) july_20,
         example_sale (Fin 1) (Fin 5000000) july_20]
      = (Fin (1 - 2 powi (- 52)), Fin (1000 - 2 powi (- 42)),
         [example_sale (Fin 1) (Fin (2 ^ 25)) july_20, example_sale (Fin 1) (Fin 1000) july_20,
          example_sale (Fin 1) (Fin 5000000) july_20])
   \<and> adjust (Some echo_pipeline) (Fin 1000)
        [example_sale (Fin 1) (Fin 5000000) july_20, example_sale (Fin 1) (Fin (2 ^ 25)) july_20]
      = (Fin (1 - 2 powi (- 53)), Fin (1000 - 2 powi (- 43)),
         [example_sale (Fin 1) (Fin 5000000) july_20, example_sale (Fin 1) (Fin (2 ^ 25)) july_20])
   \<and> adjust (Some echo_pipeline) (Fin 1000) [example_sale (Fin 1) (Fin (2 ^ 25)) july_20]
      = (Fin 1, Fin 1000, [example_sale (Fin 1) (Fin (2 ^ 25)) july_20])"
proof -
  let ?h = "example_sale (Fin 1) (Fin (2 ^ 25)) july_20"
  let ?k = "example_sale (Fin 1) (Fin 1000) july_20"
  let ?m = "example_sale (Fin 1) (Fin 5000000) july_20"
  have d: "is_double (2 ^ 25)" "is_double 1000" "is_double 5000000"
    by (rule is_double_numerals)+
  have three: "adjust (Some echo_pipeline) (Fin 1000) [?h, ?k, ?m]
      = (Fin (1 - 2 powi (- 52)), Fin (1000 - 2 powi (- 42)), [?h, ?k, ?m])"
  proof -
    have h1: "[?h, ?k, ?m] \<noteq> []" by simp
    have h2: "map r_price [?h, ?k, ?m] = map Fin [2 ^ 25, 1000, 5000000]"
      by (simp add: example_prices)
    have h3: "\<forall>p\<in>set [2 ^ 25, 1000, 5000000]. is_double p \<and> 0 < p" using d by simp
    from equal_predictions_factor[where house_pipe = echo_pipeline and base_price = "Fin 1000",
        OF h1 h2 h3 echo_predicts(2)]
    obtain rs f where
      ratio: "ratio_actual_pred [?h, ?k, ?m] (map r_price [?h, ?k, ?m]) = map Fin rs"
      and f: "Fin f = (if odd (length rs) then Fin (sort rs ! (length rs div 2))
                      else np_div (np_add (Fin (sort rs ! (length rs div 2 - 1)))
                                          (Fin (sort rs ! (length rs div 2)))) (Fin 2))"
      and adj: "adjust (Some echo_pipeline) (Fin 1000) [?h, ?k, ?m]
               = (Fin f, np_mul (Fin 1000) (Fin f), [?h, ?k, ?m])"
      by blast
    have "ratio_actual_pred [?h, ?k, ?m] (map r_price [?h, ?k, ?m])
            = map Fin [1, 1 - 9007 * 2 powi (- 53), 1 - 2 powi (- 52)]"
      by (simp only: ratio_actual_pred_def list.map zip_Cons_Cons zip_Nil prod.case
          example_prices echo_ratio_high echo_ratio_1000 echo_ratio_5000000)
    with ratio have "map Fin rs = map Fin [1, 1 - 9007 * 2 powi (- 53), 1 - 2 powi (- 52)]"
      by simp
    then have rs: "rs = [1, 1 - 9007 * 2 powi (- 53), 1 - 2 powi (- 52)]"
      by (simp only: map_Fin_eq)
    have "sort rs ! (length rs div 2) = 1 - 2 powi (- 52)"
      unfolding rs by (simp add: power_int_minus)
    with f have "f = 1 - 2 powi (- 52)" by (simp add: rs)
    with adj show ?thesis by (simp only: fallback_roundings)
  qed
  have two: "adjust (Some echo_pipeline) (Fin 1000) [?m, ?h]
      = (Fin (1 - 2 powi (- 53)), Fin (1000 - 2 powi (- 43)), [?m, ?h])"
  proof -
    have h1: "[?m, ?h] \<noteq> []" by simp
    have h2: "map r_price [?m, ?h] = map Fin [5000000, 2 ^ 25]"
      by (simp add: example_prices)
    have h3: "\<forall>p\<in>set [5000000, 2 ^ 25]. is_double p \<and> 0 < p" using d by simp
    from equal_predictions_factor[where house_pipe = echo_pipeline and base_price = "Fin 1000",
        OF h1 h2 h3 echo_predicts(2)]
    obtain rs f where
      ratio: "ratio_actual_pred [?m, ?h] (map r_price [?m, ?h]) = map Fin rs"
      and f: "Fin f = (if odd (length rs) then Fin (sort rs ! (length rs div 2))
                      else np_div (np_add (Fin (sort rs ! (length rs div 2 - 1)))
                                          (Fin (sort rs ! (length rs div 2)))) (Fin 2))"
      and adj: "adjust (Some echo_pipeline) (Fin 1000) [?m, ?h]
               = (Fin f, np_mul (Fin 1000) (Fin f), [?m, ?h])"
      by blast
    have "ratio_actual_pred [?m, ?h] (map r_price [?m, ?h])
            = map Fin [1 - 2 powi (- 52), 1]"
      by (simp only: ratio_actual_pred_def list.map zip_Cons_Cons zip_Nil prod.case
          example_prices echo_ratio_high echo_ratio_5000000)
    with ratio have "map Fin rs = map Fin [1 - 2 powi (- 52), 1]" by simp
    then have rs: "rs = [1 - 2 powi (- 52), 1]"
      by (simp only: map_Fin_eq)
    have s: "sort rs = [1 - 2 powi (- 52), 1]" unfolding rs by (simp add: power_int_minus)
    have nz: "(2::real) \<noteq> 0" by simp
    have "Fin f = np_div (np_add (Fin (1 - 2 powi (- 52))) (Fin 1)) (Fin 2)"
      using f by (simp add: s rs)
    then have "f = 1 - 2 powi (- 53)"
      by (simp only: np_add_Fin round_mean_of_ratios np_div_Fin[OF nz] pyfloat.inject)
    with adj show ?thesis by (simp only: np_mul_Fin round_adjusted_mean)
  qed
  have one: "adjust (Some echo_pipeline) (Fin 1000) [?h] = (Fin 1, Fin 1000, [?h])"
  proof -
    have h1: "[?h] \<noteq> []" by simp
    have h2: "map r_price [?h] = map Fin [2 ^ 25]" by (simp add: example_prices)
    have h3: "\<forall>p\<in>set [2 ^ 25]. is_double p \<and> 0 < p" using d by simp
    have h4: "\<forall>p\<in>set [(2::real) ^ 25]. 2 ^ 24 \<le> p" by simp
    from equal_predictions_factor[where house_pipe = echo_pipeline and base_price = "Fin 1000",
        OF h1 h2 h3 echo_predicts(2)] h4
    have "adjust (Some echo_pipeline) (Fin 1000) [?h] = (Fin 1, rnd (Fin 1000), [?h])"
      by blast
    then show ?thesis by (simp only: fallback_roundings)
  qed
  have h1: "[?h, ?k, ?m] \<noteq> []" by simp
  have h2: "map r_price [?h, ?k, ?m] = map Fin [2 ^ 25, 1000, 5000000]"
    by (simp add: example_prices)
  from h1 h2 d three two one show ?thesis by (intro conjI)
qed

text \<open>
  The claim as stated fails on one comp of price 1000 predicted at 1000 with base price
  1000: the run returns the factor \<open>1 - 9007 * 2^-53\<close>, not 1.0, and the adjusted price
  \<open>1000 - 8796 * 2^-43\<close>, not the base price.
\<close>

theorem equal_predictions_factor_counterexample:
  "example_run echo_pipeline 1000
     = Inr (example_result 1000 (1 - 9007 * 2 powi (- 53)) (1000 - 8796 * 2 powi (- 43))
              [example_sale (Fin 1) (Fin 1000) july_20], one_entry_disk)
   \<and> echo_pipeline [example_sale (Fin 1) (Fin 1000) july_20]
       = Some (map r_price [example_sale (Fin 1) (Fin 1000) july_20])
   \<and> map r_price [example_sale (Fin 1) (Fin 1000) july_20] = [Fin 1000]
   \<and> res_factor (example_result 1000 (1 - 9007 * 2 powi (- 53)) (1000 - 8796 * 2 powi (- 43))
              [example_sale (Fin 1) (Fin 1000) july_20]) \<noteq> Fin 1
   \<and> res_adjusted_price (example_result 1000 (1 - 9007 * 2 powi (- 53)) (1000 - 8796 * 2 powi (- 43))
              [example_sale (Fin 1) (Fin 1000) july_20]) \<noteq> Some (Fin 1000)"
  using echo_run_1000 small_values(2,3)
  by (simp only: example_result_fields echo_predicts example_prices pyfloat.inject option.inject
      simp_thms)

text \<open>
  A sale of 20 July 2024 at the query point, seen from 15 August 2024 with one month of lookback.
\<close>

theorem comps_time_and_distance_filter_witness:
  "local_comps (Fin 1) (Fin 2) example_request example_now [example_sale (Fin 1) (Fin 2000) july_20]
     = Inr [example_sale (Fin 1) (Fin 2000) july_20]
   \<and> date_ge (r_date (example_sale (Fin 1) (Fin 2000) july_20))
        (to_micros example_now - 30 * req_months example_request * micros_per_day)
   \<and> example_run raising_pipeline 2000
     = Inr (example_result 1000 2 2000 [example_sale (Fin 1) (Fin 2000) july_20], one_entry_disk)
   \<and> example_sale (Fin 1) (Fin 2000) july_20
       \<in> set (res_comps (example_result 1000 2 2000 [example_sale (Fin 1) (Fin 2000) july_20]))
   \<and> df_filtered (Fin 1) (Fin 2) 2 1 example_now [example_sale (Fin 1) (Fin 2000) july_20]
       = Inr [example_sale (Fin 1) (Fin 2000) july_20]
   \<and> date_ge (r_date (example_sale (Fin 1) (Fin 2000) july_20))
        (to_micros (sub_months example_now 1))"
proof -
  let ?s = "example_sale (Fin 1) (Fin 2000) july_20"
  let ?w = "example_world example_geo (Some raising_pipeline) [?s]"
  let ?v = "example_result 1000 2 2000 [?s]"
  have l: "local_comps (Fin 1) (Fin 2) example_request example_now [?s] = Inr [?s]"
    by (rule example_local_comps)
  have m: "?s \<in> set (res_comps ?v)" by (simp add: example_result_fields)
  have run: "render_valuation ?w example_request empty_disk = Inr (?v, one_entry_disk)"
    using raising_run_2000 by (simp add: example_run_def)
  have sm: "sub_months example_now 1 = july_15"
    by (simp add: sub_months_def example_now_def july_15_def days_in_month_def Let_def)
  have f: "df_filtered (Fin 1) (Fin 2) 2 1 example_now [?s] = Inr [?s]"
    by (simp add: df_filtered_def dropna_local_def example_sale_def haversine_self
        select_local_def cutoff_local_def sm date_ge_def example_micros micros_per_day_def)
  note t = comps_time_and_distance_filter[of "Fin 1" "Fin 2" example_request example_now
      "[?s]" "[?s]" ?s ?w empty_disk ?v one_entry_disk 2 1 "[?s]" "[?s]"]
  have u: "utcnow ?w = example_now" by (simp add: example_world_fields)
  from t l have d1: "date_ge (r_date ?s)
        (to_micros example_now - 30 * req_months example_request * micros_per_day)"
    by simp
  from t run m u have d1': "date_ge (r_date ?s)
        (to_micros example_now - 30 * req_months example_request * micros_per_day)"
    by simp
  from t f have d2: "date_ge (r_date ?s) (to_micros (sub_months example_now 1))"
    by simp
  from l d1 raising_run_2000 m f d2 show ?thesis by (intro conjI)
qed

text \<open>
  The claim as stated fails in \<open>local_adjustment\<close>: on 15 August 2024 with one
  month of lookback a sale of 15 July is selected, although it is 31 days old; the cutoff
  is not the clock minus 30 days.
\<close>

theorem comps_time_and_distance_filter_counterexample:
  "df_filtered (Fin 1) (Fin 2) 2 1 example_now [example_sale (Fin 1) (Fin 1000) july_15]
     = Inr [example_sale (Fin 1) (Fin 1000) july_15]
   \<and> \<not> date_ge (r_date (example_sale (Fin 1) (Fin 1000) july_15))
          (to_micros example_now - 30 * 1 * micros_per_day)
   \<and> cutoff_local example_now 1 \<noteq> to_micros example_now - 30 * 1 * micros_per_day"
proof -
  have sm: "sub_months example_now 1 = july_15"
    by (simp add: sub_months_def example_now_def july_15_def days_in_month_def Let_def)
  show ?thesis
    by (simp add: df_filtered_def dropna_local_def example_sale_def haversine_self
        select_local_def cutoff_local_def sm date_ge_def example_micros micros_per_day_def)
qed

text \<open>
  A geocoder that answers \<open>REQUEST_DENIED\<close>, on an empty cache.
\<close>

theorem geocoder_failure_degrades_witness:
  "geocoder_fails denied_geo ''a''
   \<and> cache_lookup ''a'' empty_disk = Inr None
   \<and> geocode_address denied_geo ''a'' = (None, None)
   \<and> cached_geocode denied_geo ''a'' empty_disk = (Inr (None, None), empty_disk)
   \<and> (\<exists>v. render_valuation (example_world denied_geo (Some echo_pipeline)
               [example_sale (Fin 1) (Fin 1000) july_20]) example_request empty_disk
             = Inr (v, empty_disk)
          \<and> res_base_price v = Some (Fin 1000) \<and> res_adjusted_price v = Some (Fin 1000)
          \<and> res_factor v = Fin 1 \<and> res_comps v = [])"
proof -
  let ?w = "example_world denied_geo (Some echo_pipeline) [example_sale (Fin 1) (Fin 1000) july_20]"
  have a: "req_address example_request = ''a''" by (simp add: example_request_def)
  have g: "geo ?w = denied_geo" and b: "base_prediction ?w = Some (Fin 1000)"
    by (simp_all add: example_world_fields)
  have f: "geocoder_fails (geo ?w) (req_address example_request)"
    by (simp add: a g denied_geo_fails)
  from geocoder_failure_degrades[OF f, of empty_disk] empty_disk_facts(3) denied_geo_fails
  show ?thesis by (simp add: a g b)
qed

text \<open>
  The example run has one comp and the label Low.
\<close>

theorem confidence_from_comp_count_witness:
  "example_run echo_pipeline 0
     = Inr (example_result 1000 1 1000 [example_sale (Fin 1) (Fin 0) july_20], one_entry_disk)
   \<and> res_base_price (example_result 1000 1 1000 [example_sale (Fin 1) (Fin 0) july_20]) \<noteq> None
   \<and> res_confidence (example_result 1000 1 1000 [example_sale (Fin 1) (Fin 0) july_20])
       = Some (confidence_of (length
           (res_comps (example_result 1000 1 1000 [example_sale (Fin 1) (Fin 0) july_20]))))
   \<and> confidence_of (length
        (res_comps (example_result 1000 1 1000 [example_sale (Fin 1) (Fin 0) july_20]))) = Low
   \<and> confidence_of 4 = Low \<and> confidence_of 5 = Medium \<and> confidence_of 9 = Medium
   \<and> confidence_of 10 = High"
proof -
  let ?v = "example_result 1000 1 1000 [example_sale (Fin 1) (Fin 0) july_20]"
  have b: "res_base_price ?v \<noteq> None" by (simp add: example_result_fields)
  have run: "render_valuation
      (example_world example_geo (Some echo_pipeline) [example_sale (Fin 1) (Fin 0) july_20])
      example_request empty_disk = Inr (?v, one_entry_disk)"
    using echo_run_zero by (simp add: example_run_def)
  note t = confidence_from_comp_count[of 1
      "example_world example_geo (Some echo_pipeline) [example_sale (Fin 1) (Fin 0) july_20]"
      example_request empty_disk ?v one_entry_disk]
  from t run b have c: "res_confidence ?v = Some (confidence_of (length (res_comps ?v)))"
    by blast
  have l: "confidence_of (length (res_comps ?v)) = Low"
    by (simp add: example_result_fields confidence_of_def)
  have k: "confidence_of 4 = Low \<and> confidence_of 5 = Medium \<and> confidence_of 9 = Medium
            \<and> confidence_of 10 = High"
    by (simp add: confidence_of_def)
  from echo_run_zero b c l k show ?thesis by blast
qed

section \<open>A cache file without the address column\<close>

text \<open>
  An entry whose coordinate cells cannot be converted: the lookup misses, and the store
  finds the address present and writes nothing, so the lookup misses afterwards too.
\<close>

lemma unconvertible_entry_blocks_store:
  "cache_lookup ''a'' (disk_of (Table [(''a'', None, None)])) = Inr None
   \<and> append_geocode_cache_df ''a'' (Fin 1) (Fin 2) (disk_of (Table [(''a'', None, None)]))
       = disk_of (Table [(''a'', None, None)])"
proof -
  have r: "rows_read (disk_of (Table [(''a'', None, None)])) = [(Some ''a'', None, None)]"
    by (simp add: rows_read_def read_geocode_cache_df_def read_address_def plain_addresses
        disk_of_def)
  have h: "has_entry ''a'' (disk_of (Table [(''a'', None, None)]))"
    by (simp add: has_entry_def r matching_def)
  have l: "cache_lookup ''a'' (disk_of (Table [(''a'', None, None)])) = Inr None"
    by (simp add: lookup_rows disk_of_fields r matching_def)
  from l append_present[OF h] show ?thesis by simp
qed

text \<open>
  Claim C7, on a cache file that parses to a frame without the column \<open>address\<close> (a
  file whose header line is damaged). The lookup raises \<^verbatim>\<open>KeyError\<close>, which leaves
  \<open>cached_geocode\<close> and ends the valuation run; a store on this file swallows the same
  exception and writes nothing, so the file stays as it is.
\<close>

theorem headless_cache_raises:
  "cache_lookup ''a'' headless_disk = Inl KeyError
   \<and> cached_geocode example_geo ''a'' headless_disk = (Inl KeyError, headless_disk)
   \<and> render_valuation (example_world example_geo (Some echo_pipeline)
         [example_sale (Fin 1) (Fin 1000) july_20]) example_request headless_disk
       = Inl KeyError
   \<and> append_geocode_cache_df ''a'' (Fin 1) (Fin 2) headless_disk = headless_disk
   \<and> cache_lookup ''a'' (append_geocode_cache_df ''a'' (Fin 1) (Fin 2) headless_disk)
       = Inl KeyError"
proof -
  let ?w = "example_world example_geo (Some echo_pipeline) [example_sale (Fin 1) (Fin 1000) july_20]"
  have c: "cache headless_disk = NoAddressColumn" by (simp add: headless_disk_def disk_of_fields)
  have l: "cache_lookup ''a'' headless_disk = Inl KeyError" using c by (rule lookup_headless)
  have g: "cached_geocode example_geo ''a'' headless_disk = (Inl KeyError, headless_disk)"
    by (simp add: cached_geocode_def not_blank_a l)
  have a: "req_address example_request = ''a''" by (simp add: example_request_def)
  have nb: "\<not> blank (req_address example_request)" by (simp add: a not_blank_a)
  have g': "cached_geocode (geo ?w) (req_address example_request) headless_disk
              = (Inl KeyError, headless_disk)"
    by (simp add: a example_world_fields g)
  have r: "render_valuation ?w example_request headless_disk = Inl KeyError"
    using nb g' by (rule render_valuation_raises)
  have s: "append_geocode_cache_df ''a'' (Fin 1) (Fin 2) headless_disk = headless_disk"
    using c by (rule append_headless)
  from l g r s show ?thesis by simp
qed

end
